(* ===== verification/LPP_Prelude.thy ===== *)
theory LPP_Prelude
  imports Complex_Main
begin

text \<open>
  Shared vocabulary of the development. Python floats and numpy arrays of the
  source are modelled as exact reals and lists of reals: a vector is a
  \<open>real list\<close>, a matrix a list of rows. \<open>dot\<close> is the inner product
  \<open>a\<cdot>x + b\<cdot>y + c\<cdot>z\<close> of the constraints; \<open>row_div\<close> and \<open>row_sub\<close> are the two
  row operations of a simplex pivot; \<open>axpy\<close> moves a point along a direction.
  The lemmas here are the linearity facts the tableau proofs are built from,
  collected in the named collection \<open>dot_lin\<close>.
\<close>

type_synonym vec = "real list"
type_synonym matrix = "real list list"

named_theorems dot_lin "linearity of dot under the row operations"
named_theorems frame_rules "statements of the script that only append output and consume input"

fun dot :: "vec \<Rightarrow> vec \<Rightarrow> real" where
  "dot (a # as) (b # bs) = a * b + dot as bs"
| "dot _ _ = 0"

definition row_div :: "real \<Rightarrow> vec \<Rightarrow> vec" where
  "row_div p r = map (\<lambda>a. a / p) r"

definition row_sub :: "real \<Rightarrow> vec \<Rightarrow> vec \<Rightarrow> vec" where
  "row_sub k r s = map2 (\<lambda>a b. a - k * b) r s"

definition axpy :: "real \<Rightarrow> vec \<Rightarrow> vec \<Rightarrow> vec" where
  "axpy t v d = map2 (\<lambda>a b. a + t * b) v d"

definition nonneg :: "vec \<Rightarrow> bool" where
  "nonneg v \<longleftrightarrow> list_all (\<lambda>a. 0 \<le> a) v"

subsection \<open>Lengths and components\<close>

lemma length_row_div [simp]: "length (row_div p r) = length r"
  by (simp add: row_div_def)

lemma length_row_sub [simp]: "length (row_sub k r s) = min (length r) (length s)"
  by (simp add: row_sub_def)

lemma length_axpy [simp]: "length (axpy t v d) = min (length v) (length d)"
  by (simp add: axpy_def)

lemma nth_row_div [simp]: "j < length r \<Longrightarrow> row_div p r ! j = r ! j / p"
  by (simp add: row_div_def)

lemma nth_row_sub [simp]:
  "j < length r \<Longrightarrow> j < length s \<Longrightarrow> row_sub k r s ! j = r ! j - k * s ! j"
  by (simp add: row_sub_def)

lemma nth_axpy [simp]:
  "j < length v \<Longrightarrow> j < length d \<Longrightarrow> axpy t v d ! j = v ! j + t * d ! j"
  by (simp add: axpy_def)

lemma nonneg_nth: "nonneg v \<longleftrightarrow> (\<forall>j < length v. 0 \<le> v ! j)"
  by (simp add: nonneg_def list_all_length)

lemma nonneg_append [simp]: "nonneg (v @ w) \<longleftrightarrow> nonneg v \<and> nonneg w"
  by (simp add: nonneg_def)

subsection \<open>The inner product\<close>

lemma dot_sum:
  "length r = length v \<Longrightarrow> dot r v = (\<Sum>j<length r. r ! j * v ! j)"
proof (induction r v rule: dot.induct)
  case (1 a as b bs)
  then show ?case by (simp add: sum.lessThan_Suc_shift del: sum.lessThan_Suc)
qed auto

lemma dot_Nil_right [simp]: "dot r [] = 0"
  by (cases r) auto

lemma dot_append [dot_lin]:
  "length a = length v \<Longrightarrow> dot (a @ b) (v @ w) = dot a v + dot b w"
  by (induction a v rule: dot.induct) auto

lemma dot_row_div [dot_lin]: "dot (row_div p r) v = dot r v / p"
  by (induction r v rule: dot.induct) (auto simp: row_div_def add_divide_distrib)

lemma dot_row_sub [dot_lin]:
  "length r = length s \<Longrightarrow> dot (row_sub k r s) v = dot r v - k * dot s v"
proof (induction r v arbitrary: s rule: dot.induct)
  case (1 a as b bs)
  then show ?case
    by (cases s) (auto simp: row_sub_def algebra_simps)
qed (auto simp: row_sub_def length_Suc_conv)

lemma dot_axpy [dot_lin]:
  "length v = length d \<Longrightarrow> dot r (axpy t v d) = dot r v + t * dot r d"
proof (induction r v arbitrary: d rule: dot.induct)
  case (1 a as b bs)
  then show ?case
    by (cases d) (auto simp: axpy_def algebra_simps)
qed (auto simp: axpy_def length_Suc_conv)

lemma dot_map_uminus [dot_lin]: "dot (map uminus r) v = - dot r v"
  by (induction r v rule: dot.induct) auto

lemma dot_replicate_zero [simp]: "dot (replicate n 0) v = 0"
proof (induction n arbitrary: v)
  case (Suc n)
  then show ?case by (cases v) auto
qed simp

lemma dot_commute: "dot r v = dot v r"
  by (induction r v rule: dot.induct) (auto elim: dot.elims)

lemma dot_nonneg_pointwise:
  assumes "length r = length v" and "\<And>j. j < length r \<Longrightarrow> 0 \<le> r ! j * v ! j"
  shows "0 \<le> dot r v"
  using assms by (auto simp: dot_sum intro!: sum_nonneg)

lemma dot_nonneg:
  "length r = length v \<Longrightarrow> nonneg r \<Longrightarrow> nonneg v \<Longrightarrow> 0 \<le> dot r v"
  by (rule dot_nonneg_pointwise) (simp_all add: nonneg_nth)

lemma dot_zero_terms:
  assumes "length r = length v" and "\<And>j. j < length r \<Longrightarrow> 0 \<le> r ! j * v ! j"
    and "dot r v = 0" and "j < length r"
  shows "r ! j * v ! j = 0"
proof -
  have "(\<Sum>j<length r. r ! j * v ! j) = 0" using assms(1,3) by (simp add: dot_sum)
  then have "\<forall>j \<in> {..<length r}. r ! j * v ! j = 0"
    using sum_nonneg_eq_0_iff [of "{..<length r}" "\<lambda>j. r ! j * v ! j"] assms(2) by simp
  then show ?thesis using assms(4) by blast
qed

lemma dot_zero_support:
  assumes "length r = length v" and "\<And>j. j < length r \<Longrightarrow> r ! j = 0 \<or> v ! j = 0"
  shows "dot r v = 0"
  using assms by (auto simp: dot_sum intro!: sum.neutral)

subsection \<open>First minimum of a list\<close>

text \<open>
  \<open>arg_min_list\<close> of the library returns the first element where the key is
  least: exactly the lowest-index tie-break of the simplex selection rules.
\<close>

lemma arg_min_list_le:
  "xs \<noteq> [] \<Longrightarrow> y \<in> set xs \<Longrightarrow> f (arg_min_list f xs) \<le> f y"
  by (simp add: f_arg_min_list_f)

lemma arg_min_list_filter:
  assumes "filter P xs \<noteq> []"
  shows "arg_min_list f (filter P xs) \<in> set xs \<and> P (arg_min_list f (filter P xs))"
  using arg_min_list_in [OF assms, of f] by simp

lemma arg_min_list_first:
  "sorted xs \<Longrightarrow> y \<in> set xs \<Longrightarrow> y < arg_min_list f xs \<Longrightarrow> f (arg_min_list f xs) < f y"
proof (induction f xs rule: arg_min_list.induct)
  case (2 f x z zs)
  let ?m = "arg_min_list f (z # zs)"
  show ?case
  proof (cases "f x \<le> f ?m")
    case True
    then show ?thesis using "2.prems" by (auto simp: Let_def)
  next
    case False
    then show ?thesis using "2.prems" "2.IH" by (auto simp: Let_def)
  qed
qed auto

text \<open>
  The selection \<open>arg_min_list f (filter P [0..<n])\<close>, characterised: the
  index satisfying \<open>P\<close> with the least key, the lowest one among ties.
\<close>

lemma arg_min_list_upt_iff:
  assumes ne: "filter P [0..<n] \<noteq> []"
  shows "arg_min_list f (filter P [0..<n]) = k \<longleftrightarrow>
    k < n \<and> P k \<and> (\<forall>i < n. P i \<longrightarrow> f k \<le> f i) \<and> (\<forall>i < k. P i \<longrightarrow> f k < f i)"
    (is "?m = k \<longleftrightarrow> ?R k")
proof -
  have s: "sorted (filter P [0..<n])" using sorted_filter [of id "[0..<n]" P] by simp
  have m: "?R ?m"
    using arg_min_list_filter [OF ne, of f] arg_min_list_le [OF ne, of _ f]
      arg_min_list_first [OF s, of _ f] by auto
  have "k = ?m" if "?R k"
  proof (rule linorder_cases [of k ?m])
    assume "k < ?m" then show ?thesis using m that by force
  next
    assume "?m < k" then show ?thesis using m that by force
  qed
  then show ?thesis using m by blast
qed

end
