(* ===== verification/LP_Problem.thy ===== *)
theory LP_Problem
  imports LPP_Prelude
begin

text \<open>
  The LP instance and what a solution of it is. \<open>lp_problem\<close> is the
  ProblemModel of the spec and the triple \<open>(obj, lhs, rhs)\<close> that
  src/Lpp.py builds from its input (lines 13--22) and hands to
  \<open>linprog\<close> with \<open>bounds=(0, None)\<close> (line 25): maximise
  \<open>obj \<cdot> x\<close> subject to \<open>lhs \<cdot> x \<le> rhs\<close> and \<open>x \<ge> 0\<close>.
  \<open>report\<close> is the SolutionReport; \<open>report_correct\<close> is the abstract
  contract every solver of the development is proved to meet.
\<close>

record lp_problem =
  obj_coeffs :: vec
  lhs :: matrix
  rhs :: vec

definition wf_problem :: "lp_problem \<Rightarrow> bool" where
  "wf_problem P \<longleftrightarrow>
     length (lhs P) = length (rhs P) \<and>
     list_all (\<lambda>row. length row = length (obj_coeffs P)) (lhs P)"

definition feasible :: "lp_problem \<Rightarrow> vec \<Rightarrow> bool" where
  "feasible P x \<longleftrightarrow>
     length x = length (obj_coeffs P) \<and> nonneg x \<and>
     list_all2 (\<lambda>row d. dot row x \<le> d) (lhs P) (rhs P)"

definition objective_value :: "lp_problem \<Rightarrow> vec \<Rightarrow> real" where
  "objective_value P x = dot (obj_coeffs P) x"

text \<open>
  The spec's SolutionReport has the statuses Optimal, Infeasible and
  Unbounded; the fourth, \<open>Iteration_Limit\<close>, is the status a solver with an
  iteration budget returns when the budget runs out (linprog's status 1).
\<close>

datatype report = Optimal real vec | Infeasible | Unbounded | Iteration_Limit

definition report_correct :: "lp_problem \<Rightarrow> report \<Rightarrow> bool" where
  "report_correct P r =
     (case r of
        Optimal v x \<Rightarrow> feasible P x \<and> v = objective_value P x \<and>
                       (\<forall>y. feasible P y \<longrightarrow> objective_value P y \<le> v)
      | Infeasible \<Rightarrow> (\<forall>y. \<not> feasible P y)
      | Unbounded \<Rightarrow> (\<forall>M. \<exists>y. feasible P y \<and> M < objective_value P y)
      | Iteration_Limit \<Rightarrow> True)"

lemma feasible_nth:
  assumes "wf_problem P"
  shows "feasible P x \<longleftrightarrow>
           length x = length (obj_coeffs P) \<and> nonneg x \<and>
           (\<forall>i < length (lhs P). dot (lhs P ! i) x \<le> rhs P ! i)"
  using assms by (auto simp: feasible_def wf_problem_def list_all2_conv_all_nth)

end
