(* ===== verification/Tableau.thy ===== *)
theory Tableau
  imports LPP_Prelude
begin

text \<open>
  The working tableau of the SimplexSolver (spec section 3, "Tableau", and
  section 4.2, step "Pivot"). The constraint rows, their right-hand sides,
  the objective row (reduced costs and its right-hand side \<open>zval\<close>) and the
  basis are the fields of \<open>tableau\<close>. \<open>pivot\<close> normalises the leaving row and
  eliminates the entering column from every other row and from the
  objective row.

  The invariants: \<open>tab_wf\<close> (dimensions), \<open>basis_ok\<close> (each basic column
  is a unit column with zero reduced cost), \<open>rhs_nonneg\<close> (the basic
  solution is non-negative) and \<open>obj_inv c\<close> (the objective row is an
  equation valid on the solutions of the rows). The pivot keeps the set of
  solutions of the rows unchanged (\<open>pivot_sat_iff\<close>) and keeps each
  invariant.
\<close>

record tableau =
  rows :: matrix
  rhs_col :: vec
  costs :: vec
  zval :: real
  basis :: "nat list"

abbreviation nrows :: "tableau \<Rightarrow> nat" where
  "nrows T \<equiv> length (rows T)"

abbreviation ncols :: "tableau \<Rightarrow> nat" where
  "ncols T \<equiv> length (costs T)"

definition tab_wf :: "tableau \<Rightarrow> bool" where
  "tab_wf T \<longleftrightarrow>
     length (rhs_col T) = nrows T \<and> length (basis T) = nrows T \<and>
     list_all (\<lambda>r. length r = ncols T) (rows T)"

definition sat :: "tableau \<Rightarrow> vec \<Rightarrow> bool" where
  "sat T v \<longleftrightarrow> list_all2 (\<lambda>r b. dot r v = b) (rows T) (rhs_col T)"

definition basis_ok :: "tableau \<Rightarrow> bool" where
  "basis_ok T \<longleftrightarrow>
     (\<forall>i < nrows T. basis T ! i < ncols T \<and> costs T ! (basis T ! i) = 0 \<and>
        (\<forall>k < nrows T. rows T ! k ! (basis T ! i) = (if k = i then 1 else 0)))"

definition rhs_nonneg :: "tableau \<Rightarrow> bool" where
  "rhs_nonneg T \<longleftrightarrow> nonneg (rhs_col T)"

definition obj_inv :: "vec \<Rightarrow> tableau \<Rightarrow> bool" where
  "obj_inv c T \<longleftrightarrow>
     (\<forall>v. length v = ncols T \<longrightarrow> sat T v \<longrightarrow> dot c v + dot (costs T) v = zval T)"

definition pivot :: "tableau \<Rightarrow> nat \<Rightarrow> nat \<Rightarrow> tableau" where
  "pivot T r e =
     (let p = rows T ! r ! e;
          prow = row_div p (rows T ! r);
          pb = rhs_col T ! r / p
      in T\<lparr>rows := map (\<lambda>i. if i = r then prow
                             else row_sub (rows T ! i ! e) (rows T ! i) prow) [0..<nrows T],
           rhs_col := map (\<lambda>i. if i = r then pb
                             else rhs_col T ! i - rows T ! i ! e * pb) [0..<nrows T],
           costs := row_sub (costs T ! e) (costs T) prow,
           zval := zval T - costs T ! e * pb,
           basis := (basis T)[r := e]\<rparr>)"

text \<open>
  The basic solution: a column's value is the right-hand side of the row
  whose basic column it is, and 0 for a column outside the basis
  (spec 4.2, step 4, "read \<open>point\<close>").
\<close>

definition basic_value :: "tableau \<Rightarrow> nat \<Rightarrow> real" where
  "basic_value T j =
     (case find (\<lambda>i. basis T ! i = j) [0..<nrows T] of
        Some i \<Rightarrow> rhs_col T ! i
      | None \<Rightarrow> 0)"

definition basic_sol :: "tableau \<Rightarrow> vec" where
  "basic_sol T = map (basic_value T) [0..<ncols T]"

text \<open>
  Proof vocabulary for the basic solution and the unbounded ray: a vector
  that puts \<open>f k\<close> on the basic column of row \<open>k\<close>, the unit vector of a
  column, and the edge direction that raises column \<open>e\<close> by one.
\<close>

definition basic_comb :: "tableau \<Rightarrow> (nat \<Rightarrow> real) \<Rightarrow> vec" where
  "basic_comb T f =
     map (\<lambda>j. \<Sum>k<nrows T. if basis T ! k = j then f k else 0) [0..<ncols T]"

definition unit_vec :: "nat \<Rightarrow> nat \<Rightarrow> vec" where
  "unit_vec n e = map (\<lambda>j. if j = e then 1 else 0) [0..<n]"

definition ray_dir :: "tableau \<Rightarrow> nat \<Rightarrow> vec" where
  "ray_dir T e = row_sub 1 (unit_vec (ncols T) e) (basic_comb T (\<lambda>k. rows T ! k ! e))"

definition ray :: "tableau \<Rightarrow> nat \<Rightarrow> real \<Rightarrow> vec" where
  "ray T e t = axpy t (basic_sol T) (ray_dir T e)"

text \<open>
  Pricing out: subtracting from the objective row the multiple of row
  \<open>i\<close> that clears the reduced cost of row \<open>i\<close>'s basic column. Applied to
  every row, it makes a freshly written objective row consistent with the
  basis (spec 4.2: the phase-1 row at the start and "restore the true
  objective row" at the start of phase 2).
\<close>

definition price_row :: "tableau \<Rightarrow> nat \<Rightarrow> tableau" where
  "price_row T i =
     (let k = costs T ! (basis T ! i)
      in T\<lparr>costs := row_sub k (costs T) (rows T ! i), zval := zval T - k * rhs_col T ! i\<rparr>)"

definition price_out :: "tableau \<Rightarrow> tableau" where
  "price_out T = fold (\<lambda>i T. price_row T i) [0..<nrows T] T"

definition basis_units :: "tableau \<Rightarrow> bool" where
  "basis_units T \<longleftrightarrow>
     (\<forall>i < nrows T. basis T ! i < ncols T \<and>
        (\<forall>k < nrows T. rows T ! k ! (basis T ! i) = (if k = i then 1 else 0)))"

subsection \<open>Shape of a pivot\<close>

lemma tab_wf_nth:
  "tab_wf T \<Longrightarrow> i < nrows T \<Longrightarrow> length (rows T ! i) = ncols T"
  by (simp add: tab_wf_def list_all_length)

lemma sat_nth:
  "tab_wf T \<Longrightarrow> sat T v \<longleftrightarrow> (\<forall>i < nrows T. dot (rows T ! i) v = rhs_col T ! i)"
  by (simp add: tab_wf_def sat_def list_all2_conv_all_nth)

lemma pivot_dims [simp]:
  assumes "tab_wf T" "r < nrows T"
  shows "nrows (pivot T r e) = nrows T" "ncols (pivot T r e) = ncols T"
    "basis (pivot T r e) = (basis T)[r := e]"
  using assms by (simp_all add: pivot_def Let_def tab_wf_nth)

lemma pivot_rows_nth:
  "i < nrows T \<Longrightarrow> rows (pivot T r e) ! i =
     (if i = r then row_div (rows T ! r ! e) (rows T ! r)
      else row_sub (rows T ! i ! e) (rows T ! i) (row_div (rows T ! r ! e) (rows T ! r)))"
  by (simp add: pivot_def Let_def)

lemma pivot_rhs_nth:
  "i < nrows T \<Longrightarrow> rhs_col (pivot T r e) ! i =
     (if i = r then rhs_col T ! r / rows T ! r ! e
      else rhs_col T ! i - rows T ! i ! e * (rhs_col T ! r / rows T ! r ! e))"
  by (simp add: pivot_def Let_def)

lemma pivot_costs:
  "costs (pivot T r e) = row_sub (costs T ! e) (costs T) (row_div (rows T ! r ! e) (rows T ! r))"
  and pivot_zval:
  "zval (pivot T r e) = zval T - costs T ! e * (rhs_col T ! r / rows T ! r ! e)"
  by (simp_all add: pivot_def Let_def)

lemma tab_wf_pivot:
  assumes "tab_wf T" "r < nrows T"
  shows "tab_wf (pivot T r e)"
proof -
  have "\<forall>i < nrows T. length (rows (pivot T r e) ! i) = ncols T"
    using assms by (simp add: pivot_rows_nth tab_wf_nth)
  then show ?thesis
    using assms by (simp add: tab_wf_def list_all_length) (simp add: pivot_def Let_def)
qed

lemma pivot_entry:
  assumes "tab_wf T" "r < nrows T" "i < nrows T" "j < ncols T"
  shows "rows (pivot T r e) ! i ! j =
           (if i = r then rows T ! r ! j / rows T ! r ! e
            else rows T ! i ! j - rows T ! i ! e * (rows T ! r ! j / rows T ! r ! e))"
  using assms by (simp add: pivot_rows_nth tab_wf_nth)

lemma pivot_cost_entry:
  assumes "tab_wf T" "r < nrows T" "j < ncols T"
  shows "costs (pivot T r e) ! j =
           costs T ! j - costs T ! e * (rows T ! r ! j / rows T ! r ! e)"
  using assms by (simp add: pivot_costs tab_wf_nth)

subsection \<open>The pivot keeps the solutions of the rows\<close>

lemma pivot_dot_row:
  assumes "tab_wf T" "r < nrows T" "i < nrows T"
  shows "dot (rows (pivot T r e) ! i) v =
           (if i = r then dot (rows T ! r) v / rows T ! r ! e
            else dot (rows T ! i) v - rows T ! i ! e * (dot (rows T ! r) v / rows T ! r ! e))"
  using assms by (simp add: pivot_rows_nth tab_wf_nth dot_lin)

lemma pivot_sat_iff:
  assumes wf: "tab_wf T" and r: "r < nrows T" and p: "rows T ! r ! e \<noteq> 0"
  shows "sat (pivot T r e) v \<longleftrightarrow> sat T v"
proof
  assume "sat (pivot T r e) v"
  then have new: "\<And>i. i < nrows T \<Longrightarrow>
      dot (rows (pivot T r e) ! i) v = rhs_col (pivot T r e) ! i"
    using wf r by (simp add: sat_nth tab_wf_pivot)
  from new [OF r] have hr: "dot (rows T ! r) v = rhs_col T ! r"
    using wf r p by (simp add: pivot_dot_row pivot_rhs_nth)
  show "sat T v"
    unfolding sat_nth [OF wf]
  proof (intro allI impI)
    fix i assume i: "i < nrows T"
    with new [OF i] hr wf r show "dot (rows T ! i) v = rhs_col T ! i"
      by (cases "i = r") (simp_all add: pivot_dot_row pivot_rhs_nth)
  qed
next
  assume "sat T v"
  then have "\<And>i. i < nrows T \<Longrightarrow> dot (rows T ! i) v = rhs_col T ! i"
    using wf by (simp add: sat_nth)
  then show "sat (pivot T r e) v"
    using wf r by (simp add: sat_nth tab_wf_pivot pivot_dot_row pivot_rhs_nth)
qed

subsection \<open>The pivot keeps the invariants\<close>

lemma obj_inv_pivot:
  assumes inv: "obj_inv c T" and wf: "tab_wf T" and r: "r < nrows T"
    and p: "rows T ! r ! e \<noteq> 0"
  shows "obj_inv c (pivot T r e)"
  unfolding obj_inv_def
proof (intro allI impI)
  fix v
  assume len: "length v = ncols (pivot T r e)" and s: "sat (pivot T r e) v"
  then have sT: "sat T v" and lenT: "length v = ncols T"
    using wf r p by (simp_all add: pivot_sat_iff)
  then have eq: "dot c v + dot (costs T) v = zval T"
    using inv by (simp add: obj_inv_def)
  have hr: "dot (rows T ! r) v = rhs_col T ! r"
    using sT wf r by (simp add: sat_nth)
  have "dot (costs (pivot T r e)) v =
          dot (costs T) v - costs T ! e * (rhs_col T ! r / rows T ! r ! e)"
    using wf r hr by (simp add: pivot_costs tab_wf_nth dot_lin)
  then show "dot c v + dot (costs (pivot T r e)) v = zval (pivot T r e)"
    unfolding pivot_zval using eq by linarith
qed

lemma basis_entry:
  assumes "basis_ok T" "i < nrows T"
  shows "costs T ! (basis T ! i) = 0" and "basis T ! i < ncols T"
  using assms by (simp_all add: basis_ok_def)

lemma basis_col:
  assumes "basis_ok T" "i < nrows T" "k < nrows T"
  shows "rows T ! k ! (basis T ! i) = (if k = i then 1 else 0)"
  using assms by (simp add: basis_ok_def)

lemma basis_ok_pivot:
  assumes ok: "basis_ok T" and wf: "tab_wf T" and r: "r < nrows T"
    and e: "e < ncols T" and p: "rows T ! r ! e \<noteq> 0"
  shows "basis_ok (pivot T r e)"
  unfolding basis_ok_def
proof (intro allI impI)
  fix i assume i: "i < nrows (pivot T r e)"
  then have i': "i < nrows T" using wf r by simp
  have lb: "length (basis T) = nrows T" using wf by (simp add: tab_wf_def)
  show "basis (pivot T r e) ! i < ncols (pivot T r e) \<and>
        costs (pivot T r e) ! (basis (pivot T r e) ! i) = 0 \<and>
        (\<forall>k < nrows (pivot T r e).
           rows (pivot T r e) ! k ! (basis (pivot T r e) ! i) = (if k = i then 1 else 0))"
  proof (cases "i = r")
    case True
    then show ?thesis
      using wf r e p lb by (simp add: pivot_entry pivot_cost_entry)
  next
    case False
    let ?b = "basis T ! i"
    have col: "\<And>k. k < nrows T \<Longrightarrow> rows T ! k ! ?b = (if k = i then 1 else 0)"
      and cb: "costs T ! ?b = 0" and bn: "?b < ncols T"
      using basis_entry [OF ok i'] basis_col [OF ok i'] by simp_all
    have "rows T ! r ! ?b = 0" using col [OF r] False by simp
    then show ?thesis
      using False wf r i' lb col cb bn by (simp add: pivot_entry pivot_cost_entry)
  qed
qed

lemma rhs_nonneg_pivot:
  assumes nn: "rhs_nonneg T" and wf: "tab_wf T" and r: "r < nrows T"
    and p: "0 < rows T ! r ! e"
    and ratio: "\<And>i. i < nrows T \<Longrightarrow> 0 < rows T ! i ! e \<Longrightarrow>
                  rhs_col T ! r / rows T ! r ! e \<le> rhs_col T ! i / rows T ! i ! e"
  shows "rhs_nonneg (pivot T r e)"
proof -
  have b: "\<And>i. i < nrows T \<Longrightarrow> 0 \<le> rhs_col T ! i"
    using nn wf by (simp add: rhs_nonneg_def nonneg_nth tab_wf_def)
  let ?t = "rhs_col T ! r / rows T ! r ! e"
  have t: "0 \<le> ?t" using b [OF r] p by simp
  have "0 \<le> rhs_col (pivot T r e) ! i" if i: "i < nrows T" for i
  proof (cases "i = r")
    case True
    then show ?thesis using i t by (simp add: pivot_rhs_nth)
  next
    case False
    let ?a = "rows T ! i ! e"
    have "?a * ?t \<le> rhs_col T ! i"
    proof (cases "0 < ?a")
      case True
      then have "?a * ?t \<le> ?a * (rhs_col T ! i / ?a)"
        using ratio [OF i True] True by (intro mult_left_mono) simp_all
      then show ?thesis using True by simp
    next
      case False
      then have "?a * ?t \<le> 0" using t mult_nonpos_nonneg [of ?a ?t] by linarith
      then show ?thesis using b [OF i] by linarith
    qed
    then show ?thesis using False i by (simp add: pivot_rhs_nth)
  qed
  then show ?thesis
    using wf r by (simp add: rhs_nonneg_def nonneg_nth tab_wf_pivot) (simp add: tab_wf_def pivot_def Let_def)
qed

lemma zval_pivot_mono:
  assumes "costs T ! e \<le> 0" "0 < rows T ! r ! e" "0 \<le> rhs_col T ! r"
  shows "zval T \<le> zval (pivot T r e)"
  using assms mult_nonpos_nonneg [of "costs T ! e" "rhs_col T ! r / rows T ! r ! e"]
  by (simp add: pivot_zval)

subsection \<open>The basic solution\<close>

lemma basis_distinct:
  assumes wf: "tab_wf T" and ok: "basis_ok T"
  shows "distinct (basis T)"
proof -
  have lb: "length (basis T) = nrows T" using wf by (simp add: tab_wf_def)
  have "basis T ! i \<noteq> basis T ! k" if "i < nrows T" "k < nrows T" "i \<noteq> k" for i k
    using basis_col [OF ok that(1) that(2)] basis_col [OF ok that(2) that(2)] that(3)
    by auto
  then show ?thesis using lb by (auto simp: distinct_conv_nth)
qed

lemma sum_basis_delta:
  assumes wf: "tab_wf T" and ok: "basis_ok T" and i: "i < nrows T"
  shows "(\<Sum>k<nrows T. if basis T ! k = basis T ! i then f k else 0) = f i"
proof -
  have lb: "length (basis T) = nrows T" using wf by (simp add: tab_wf_def)
  have "\<And>k. k < nrows T \<Longrightarrow> (basis T ! k = basis T ! i) = (k = i)"
    using basis_distinct [OF wf ok] i lb by (simp add: nth_eq_iff_index_eq)
  then have "(\<Sum>k<nrows T. if basis T ! k = basis T ! i then f k else 0) =
             (\<Sum>k<nrows T. if k = i then f k else 0)"
    by (intro sum.cong) auto
  then show ?thesis using i by simp
qed

lemma length_basic_comb [simp]: "length (basic_comb T f) = ncols T"
  by (simp add: basic_comb_def)

lemma basic_comb_nth_basis:
  assumes "tab_wf T" "basis_ok T" "i < nrows T"
  shows "basic_comb T f ! (basis T ! i) = f i"
  using assms basis_entry [OF assms(2,3)] by (simp add: basic_comb_def sum_basis_delta)

lemma basic_comb_nth_nonbasic:
  assumes "tab_wf T" "j < ncols T" "j \<notin> set (basis T)"
  shows "basic_comb T f ! j = 0"
proof -
  have "\<And>k. k < nrows T \<Longrightarrow> basis T ! k \<noteq> j"
    using assms by (auto simp: tab_wf_def)
  then show ?thesis using assms(2) by (simp add: basic_comb_def)
qed

lemma basic_sol_comb:
  assumes wf: "tab_wf T" and ok: "basis_ok T"
  shows "basic_sol T = basic_comb T (\<lambda>k. rhs_col T ! k)"
proof -
  have lb: "length (basis T) = nrows T" using wf by (simp add: tab_wf_def)
  have "basic_value T j = (\<Sum>k<nrows T. if basis T ! k = j then rhs_col T ! k else 0)" for j
  proof (cases "\<exists>i < nrows T. basis T ! i = j")
    case True
    then obtain i where i: "i < nrows T" "basis T ! i = j" by blast
    have "find (\<lambda>i. basis T ! i = j) [0..<nrows T] = Some i"
      using i basis_distinct [OF wf ok] lb
      by (auto simp: find_Some_iff nth_eq_iff_index_eq)
    moreover have "(\<Sum>k<nrows T. if basis T ! k = j then rhs_col T ! k else 0) = rhs_col T ! i"
      using sum_basis_delta [OF wf ok i(1), of "\<lambda>k. rhs_col T ! k"] i(2) by simp
    ultimately show ?thesis by (simp add: basic_value_def)
  next
    case False
    then have "find (\<lambda>i. basis T ! i = j) [0..<nrows T] = None"
      by (simp add: find_None_iff)
    then show ?thesis using False by (simp add: basic_value_def)
  qed
  then show ?thesis by (simp add: basic_sol_def basic_comb_def)
qed

lemma length_basic_sol [simp]: "length (basic_sol T) = ncols T"
  by (simp add: basic_sol_def)

lemma dot_basic_comb:
  assumes wf: "tab_wf T" and ok: "basis_ok T" and len: "length r = ncols T"
  shows "dot r (basic_comb T f) = (\<Sum>k<nrows T. r ! (basis T ! k) * f k)"
proof -
  have bn: "\<And>k. k < nrows T \<Longrightarrow> basis T ! k < ncols T"
    using basis_entry [OF ok] by simp
  have "dot r (basic_comb T f) =
          (\<Sum>j<ncols T. \<Sum>k<nrows T. if basis T ! k = j then r ! j * f k else 0)"
    using len by (simp add: dot_sum basic_comb_def sum_distrib_left if_distrib cong: if_cong)
  also have "\<dots> = (\<Sum>k<nrows T. \<Sum>j<ncols T. if basis T ! k = j then r ! j * f k else 0)"
    by (rule sum.swap)
  also have "\<dots> = (\<Sum>k<nrows T. r ! (basis T ! k) * f k)"
    using bn by (intro sum.cong) auto
  finally show ?thesis .
qed

lemma dot_basic_comb_zero:
  assumes "tab_wf T" "basis_ok T" "length r = ncols T"
    and "\<And>i. i < nrows T \<Longrightarrow> r ! (basis T ! i) = 0"
  shows "dot r (basic_comb T f) = 0"
  using assms by (simp add: dot_basic_comb)

lemma dot_row_basic_comb:
  assumes wf: "tab_wf T" and ok: "basis_ok T" and i: "i < nrows T"
  shows "dot (rows T ! i) (basic_comb T f) = f i"
proof -
  have "dot (rows T ! i) (basic_comb T f) = (\<Sum>k<nrows T. (if i = k then 1 else 0) * f k)"
    using wf ok i by (simp add: dot_basic_comb tab_wf_nth basis_col)
  also have "\<dots> = (\<Sum>k<nrows T. if i = k then f k else 0)"
    by (intro sum.cong) auto
  also have "\<dots> = f i" using i by simp
  finally show ?thesis .
qed

lemma sat_basic_sol:
  assumes "tab_wf T" "basis_ok T"
  shows "sat T (basic_sol T)"
  using assms by (simp add: sat_nth basic_sol_comb dot_row_basic_comb)

lemma costs_basic_sol:
  assumes "tab_wf T" "basis_ok T"
  shows "dot (costs T) (basic_sol T) = 0"
  using assms basis_entry [OF assms(2)]
  by (simp add: basic_sol_comb dot_basic_comb_zero)

lemma obj_invD:
  "obj_inv c T \<Longrightarrow> length v = ncols T \<Longrightarrow> sat T v \<Longrightarrow>
     dot c v + dot (costs T) v = zval T"
  by (simp add: obj_inv_def)

lemma obj_basic_sol:
  assumes "obj_inv c T" "tab_wf T" "basis_ok T"
  shows "dot c (basic_sol T) = zval T"
  using obj_invD [OF assms(1) _ sat_basic_sol [OF assms(2,3)]] costs_basic_sol [OF assms(2,3)]
  by simp

lemma basic_comb_cong:
  "(\<And>k. k < nrows T \<Longrightarrow> f k = g k) \<Longrightarrow> basic_comb T f = basic_comb T g"
  unfolding basic_comb_def by (intro map_cong refl sum.cong) auto

lemma basic_comb_support:
  assumes wf: "tab_wf T" and ok: "basis_ok T" and len: "length v = ncols T"
    and supp: "\<And>j. j < ncols T \<Longrightarrow> j \<notin> set (basis T) \<Longrightarrow> v ! j = 0"
  shows "v = basic_comb T (\<lambda>k. v ! (basis T ! k))"
proof (rule nth_equalityI)
  show "length v = length (basic_comb T (\<lambda>k. v ! (basis T ! k)))" using len by simp
  fix j assume "j < length v"
  then have j: "j < ncols T" using len by simp
  show "v ! j = basic_comb T (\<lambda>k. v ! (basis T ! k)) ! j"
  proof (cases "j \<in> set (basis T)")
    case True
    then obtain i where "i < nrows T" "basis T ! i = j"
      using wf by (auto simp: in_set_conv_nth tab_wf_def)
    then show ?thesis using basic_comb_nth_basis [OF wf ok] by metis
  next
    case False
    then show ?thesis using basic_comb_nth_nonbasic [OF wf j] supp j by simp
  qed
qed

text \<open>
  The basic solution is the only solution of the rows that vanishes outside
  the basic columns.
\<close>

lemma basic_sol_unique:
  assumes wf: "tab_wf T" and ok: "basis_ok T" and s: "sat T v" and len: "length v = ncols T"
    and supp: "\<And>j. j < ncols T \<Longrightarrow> j \<notin> set (basis T) \<Longrightarrow> v ! j = 0"
  shows "v = basic_sol T"
proof -
  have v: "v = basic_comb T (\<lambda>k. v ! (basis T ! k))" by (rule basic_comb_support [OF wf ok len supp])
  have "v ! (basis T ! k) = rhs_col T ! k" if "k < nrows T" for k
    using s that dot_row_basic_comb [OF wf ok that, of "\<lambda>k. v ! (basis T ! k)"] v
    by (simp add: sat_nth [OF wf])
  then have "basic_comb T (\<lambda>k. v ! (basis T ! k)) = basic_comb T (\<lambda>k. rhs_col T ! k)"
    by (rule basic_comb_cong)
  then show ?thesis using v basic_sol_comb [OF wf ok] by simp
qed

lemma nonneg_basic_sol:
  assumes wf: "tab_wf T" and nn: "rhs_nonneg T"
  shows "nonneg (basic_sol T)"
proof -
  have "0 \<le> basic_value T j" for j
  proof (cases "find (\<lambda>i. basis T ! i = j) [0..<nrows T]")
    case (Some i)
    then have "i < nrows T" by (auto simp: find_Some_iff)
    then show ?thesis
      using Some nn wf by (simp add: basic_value_def rhs_nonneg_def nonneg_nth tab_wf_def)
  qed (simp add: basic_value_def)
  then show ?thesis by (simp add: basic_sol_def nonneg_def list_all_iff)
qed

lemma obj_le_zval:
  assumes "obj_inv c T" "sat T v" "length v = ncols T"
    and "\<And>j. j < ncols T \<Longrightarrow> 0 \<le> costs T ! j * v ! j"
  shows "dot c v \<le> zval T"
proof -
  have "0 \<le> dot (costs T) v" using assms(3,4) by (intro dot_nonneg_pointwise) simp_all
  then show ?thesis using obj_invD [OF assms(1,3,2)] by linarith
qed

subsection \<open>The unbounded ray\<close>

lemma length_unit_vec [simp]: "length (unit_vec n e) = n"
  by (simp add: unit_vec_def)

lemma length_ray_dir [simp]: "length (ray_dir T e) = ncols T"
  by (simp add: ray_dir_def)

lemma length_ray [simp]: "length (ray T e t) = ncols T"
  by (simp add: ray_def)

lemma dot_unit_vec:
  assumes "length r = n" "e < n"
  shows "dot r (unit_vec n e) = r ! e"
proof -
  have "dot r (unit_vec n e) = (\<Sum>j<n. if j = e then r ! j else 0)"
    using assms(1) by (simp add: dot_sum unit_vec_def if_distrib cong: if_cong)
  then show ?thesis using assms(2) by simp
qed

lemma dot_ray_dir:
  assumes "length r = ncols T" "e < ncols T"
  shows "dot r (ray_dir T e) = r ! e - dot r (basic_comb T (\<lambda>k. rows T ! k ! e))"
proof -
  have "dot r (ray_dir T e) = dot (ray_dir T e) r" by (rule dot_commute)
  also have "\<dots> = dot (unit_vec (ncols T) e) r - dot (basic_comb T (\<lambda>k. rows T ! k ! e)) r"
    by (simp add: ray_dir_def dot_row_sub)
  finally show ?thesis using assms by (simp add: dot_commute [of _ r] dot_unit_vec)
qed

lemma sat_ray:
  assumes wf: "tab_wf T" and ok: "basis_ok T" and e: "e < ncols T"
  shows "sat T (ray T e t)"
proof -
  have "dot (rows T ! i) (ray T e t) = rhs_col T ! i" if i: "i < nrows T" for i
  proof -
    have "dot (rows T ! i) (ray_dir T e) = 0"
      using wf ok i e by (simp add: dot_ray_dir tab_wf_nth dot_row_basic_comb)
    moreover have "dot (rows T ! i) (basic_sol T) = rhs_col T ! i"
      using wf ok i by (simp add: basic_sol_comb dot_row_basic_comb)
    ultimately show ?thesis by (simp add: ray_def dot_axpy)
  qed
  then show ?thesis using wf by (simp add: sat_nth)
qed

lemma ray_nonneg:
  assumes wf: "tab_wf T" and ok: "basis_ok T" and nn: "rhs_nonneg T"
    and e: "e < ncols T" "e \<notin> set (basis T)"
    and col: "\<And>i. i < nrows T \<Longrightarrow> rows T ! i ! e \<le> 0" and t: "0 \<le> t"
  shows "nonneg (ray T e t)"
proof -
  have lb: "length (basis T) = nrows T" using wf by (simp add: tab_wf_def)
  have "0 \<le> ray T e t ! j" if j: "j < ncols T" for j
  proof (cases "j \<in> set (basis T)")
    case True
    then obtain i where i: "i < nrows T" "basis T ! i = j" using lb by (auto simp: in_set_conv_nth)
    have "ray T e t ! j = rhs_col T ! i - t * rows T ! i ! e"
      using wf ok i j e True
      by (auto simp: ray_def ray_dir_def basic_sol_comb basic_comb_nth_basis unit_vec_def)
    moreover have "0 \<le> rhs_col T ! i" using nn wf i by (simp add: rhs_nonneg_def nonneg_nth tab_wf_def)
    moreover have "t * rows T ! i ! e \<le> 0" using col [OF i(1)] t by (simp add: mult_nonneg_nonpos)
    ultimately show ?thesis by linarith
  next
    case False
    then have "ray T e t ! j = t * (if j = e then 1 else 0)"
      using wf ok j by (simp add: ray_def ray_dir_def basic_sol_comb basic_comb_nth_nonbasic unit_vec_def)
    then show ?thesis using t by simp
  qed
  then show ?thesis by (simp add: nonneg_nth)
qed

lemma ray_objective:
  assumes inv: "obj_inv c T" and wf: "tab_wf T" and ok: "basis_ok T" and e: "e < ncols T"
  shows "dot c (ray T e t) = zval T - t * costs T ! e"
proof -
  have "dot (costs T) (ray_dir T e) = costs T ! e"
    using wf ok e basis_entry [OF ok] by (simp add: dot_ray_dir dot_basic_comb_zero)
  then have "dot (costs T) (ray T e t) = t * costs T ! e"
    using costs_basic_sol [OF wf ok] by (simp add: ray_def dot_axpy)
  then show ?thesis using obj_invD [OF inv length_ray sat_ray [OF wf ok e], of t] by linarith
qed

lemma cost_nonbasic:
  assumes "tab_wf T" "basis_ok T" "costs T ! e \<noteq> 0"
  shows "e \<notin> set (basis T)"
proof
  assume "e \<in> set (basis T)"
  then obtain i where "i < nrows T" "basis T ! i = e"
    using assms(1) by (auto simp: in_set_conv_nth tab_wf_def)
  then show False using basis_entry [OF assms(2)] assms(3) by auto
qed

lemma basic_sol_support:
  assumes "tab_wf T" "basis_ok T" "j < ncols T" "j \<notin> set (basis T)"
  shows "basic_sol T ! j = 0"
  using assms by (simp add: basic_sol_comb basic_comb_nth_nonbasic)

text \<open>
  Two tableaux for the same objective, with the same solutions and the same
  set of basic columns, have the same basic solution and so the same
  objective value: the value of a tableau is a function of its basis set.
\<close>

lemma zval_same_basis:
  assumes wf: "tab_wf T" "basis_ok T" "obj_inv c T" and wf': "tab_wf T'" "basis_ok T'" "obj_inv c T'"
    and n: "ncols T' = ncols T" and s: "\<And>v. sat T' v \<longleftrightarrow> sat T v"
    and b: "set (basis T') = set (basis T)"
  shows "zval T' = zval T"
proof -
  have "basic_sol T' = basic_sol T"
    using basic_sol_unique [OF wf(1,2), of "basic_sol T'"] sat_basic_sol [OF wf'(1,2)] s n b
      basic_sol_support [OF wf'(1,2)] by simp
  then show ?thesis using obj_basic_sol [OF wf'(3,1,2)] obj_basic_sol [OF wf(3,1,2)] by simp
qed

lemma ray_support:
  assumes "tab_wf T" "basis_ok T" "j < ncols T" "j \<notin> set (basis T)" "j \<noteq> e"
  shows "ray T e t ! j = 0"
  using assms
  by (simp add: ray_def ray_dir_def basic_sol_comb basic_comb_nth_nonbasic unit_vec_def)

lemma ray_unbounded:
  assumes inv: "obj_inv c T" and wf: "tab_wf T" and ok: "basis_ok T"
    and e: "e < ncols T" "costs T ! e < 0"
  shows "\<exists>t \<ge> 0. M < dot c (ray T e t)"
proof -
  define t where "t = (\<bar>M\<bar> + \<bar>zval T\<bar> + 1) / - costs T ! e"
  have t: "0 \<le> t" using e(2) unfolding t_def by (intro divide_nonneg_pos) auto
  have "t * costs T ! e = - (\<bar>M\<bar> + \<bar>zval T\<bar> + 1)" using e(2) by (simp add: t_def)
  then have "M < dot c (ray T e t)" using ray_objective [OF inv wf ok e(1), of t] by linarith
  then show ?thesis using t by blast
qed

theorem tableau_unbounded:
  assumes inv: "obj_inv c T" and wf: "tab_wf T" and ok: "basis_ok T" and nn: "rhs_nonneg T"
    and e: "e < ncols T" "costs T ! e < 0"
    and col: "\<And>i. i < nrows T \<Longrightarrow> rows T ! i ! e \<le> 0"
  shows "\<exists>v. length v = ncols T \<and> sat T v \<and> nonneg v \<and> M < dot c v"
proof -
  have nb: "e \<notin> set (basis T)" using cost_nonbasic [OF wf ok] e(2) by simp
  obtain t where t: "0 \<le> t" "M < dot c (ray T e t)"
    using ray_unbounded [OF inv wf ok e] by blast
  then show ?thesis
    using sat_ray [OF wf ok e(1), of t] ray_nonneg [OF wf ok nn e(1) nb col t(1)] length_ray
    by blast
qed

subsection \<open>Pricing out\<close>

lemma basis_ok_iff:
  "basis_ok T \<longleftrightarrow> basis_units T \<and> (\<forall>i < nrows T. costs T ! (basis T ! i) = 0)"
  by (auto simp: basis_ok_def basis_units_def)

lemma price_row_simps [simp]:
  "rows (price_row T i) = rows T" "rhs_col (price_row T i) = rhs_col T"
  "basis (price_row T i) = basis T"
  by (simp_all add: price_row_def Let_def)

lemma price_row_costs:
  "costs (price_row T i) = row_sub (costs T ! (basis T ! i)) (costs T) (rows T ! i)"
  and price_row_zval:
  "zval (price_row T i) = zval T - costs T ! (basis T ! i) * rhs_col T ! i"
  by (simp_all add: price_row_def Let_def)

lemma price_row_ncols [simp]:
  "tab_wf T \<Longrightarrow> i < nrows T \<Longrightarrow> ncols (price_row T i) = ncols T"
  by (simp add: price_row_costs tab_wf_nth)

lemma tab_wf_price_row:
  "tab_wf T \<Longrightarrow> i < nrows T \<Longrightarrow> tab_wf (price_row T i)"
  by (simp add: tab_wf_def)

lemma obj_inv_price_row:
  assumes inv: "obj_inv c T" and wf: "tab_wf T" and i: "i < nrows T"
  shows "obj_inv c (price_row T i)"
  unfolding obj_inv_def
proof (intro allI impI)
  fix v assume len: "length v = ncols (price_row T i)" and s: "sat (price_row T i) v"
  have sT: "sat T v" using s by (simp add: sat_def)
  have hi: "dot (rows T ! i) v = rhs_col T ! i" using sT wf i by (simp add: sat_nth)
  have "dot c v + dot (costs T) v = zval T" using obj_invD [OF inv _ sT] len wf i by simp
  then show "dot c v + dot (costs (price_row T i)) v = zval (price_row T i)"
    using wf i hi by (simp add: price_row_costs price_row_zval tab_wf_nth dot_lin)
qed

lemma price_row_cost_entry:
  assumes wf: "tab_wf T" and u: "basis_units T" and i: "i < nrows T" and j: "j < nrows T"
  shows "costs (price_row T i) ! (basis T ! j) =
           (if j = i then 0 else costs T ! (basis T ! j))"
  using assms by (simp add: price_row_costs basis_units_def tab_wf_nth)

lemma price_fold:
  assumes "tab_wf T" "basis_units T" "obj_inv c T" "set xs \<subseteq> {..<nrows T}"
  shows "tab_wf (fold (\<lambda>i T. price_row T i) xs T) \<and>
         basis_units (fold (\<lambda>i T. price_row T i) xs T) \<and>
         obj_inv c (fold (\<lambda>i T. price_row T i) xs T) \<and>
         rows (fold (\<lambda>i T. price_row T i) xs T) = rows T \<and>
         rhs_col (fold (\<lambda>i T. price_row T i) xs T) = rhs_col T \<and>
         basis (fold (\<lambda>i T. price_row T i) xs T) = basis T \<and>
         ncols (fold (\<lambda>i T. price_row T i) xs T) = ncols T \<and>
         (\<forall>j < nrows T. costs (fold (\<lambda>i T. price_row T i) xs T) ! (basis T ! j) =
             (if j \<in> set xs then 0 else costs T ! (basis T ! j)))"
  using assms
proof (induction xs arbitrary: T)
  case Nil
  then show ?case by simp
next
  case (Cons x xs)
  let ?T1 = "price_row T x"
  have x: "x < nrows T" using Cons.prems(4) by simp
  have wf1: "tab_wf ?T1" using tab_wf_price_row [OF Cons.prems(1) x] .
  have u1: "basis_units ?T1"
    using Cons.prems(1,2) x by (simp add: basis_units_def)
  have inv1: "obj_inv c ?T1" using obj_inv_price_row [OF Cons.prems(3,1) x] .
  have "set xs \<subseteq> {..<nrows ?T1}" using Cons.prems(4) by simp
  note IH = Cons.IH [OF wf1 u1 inv1 this]
  show ?case
    using IH price_row_cost_entry [OF Cons.prems(1,2) x] Cons.prems(1) x by auto
qed

lemma price_out:
  assumes "tab_wf T" "basis_units T" "obj_inv c T"
  shows "tab_wf (price_out T)" "basis_ok (price_out T)" "obj_inv c (price_out T)"
    "rows (price_out T) = rows T" "rhs_col (price_out T) = rhs_col T"
    "basis (price_out T) = basis T" "ncols (price_out T) = ncols T"
proof -
  have "set [0..<nrows T] \<subseteq> {..<nrows T}" by auto
  from price_fold [OF assms this]
  have A: "tab_wf (price_out T)" "basis_units (price_out T)" "obj_inv c (price_out T)"
    "rows (price_out T) = rows T" "rhs_col (price_out T) = rhs_col T"
    "basis (price_out T) = basis T" "ncols (price_out T) = ncols T"
    "\<forall>j < nrows T. costs (price_out T) ! (basis T ! j) = 0"
    unfolding price_out_def by auto
  then show "tab_wf (price_out T)" "basis_ok (price_out T)" "obj_inv c (price_out T)"
    "rows (price_out T) = rows T" "rhs_col (price_out T) = rhs_col T"
    "basis (price_out T) = basis T" "ncols (price_out T) = ncols T"
    by (simp_all add: basis_ok_iff)
qed

text \<open>Pricing out changes nothing when every reduced cost is already zero.\<close>

lemma price_out_zero_costs:
  assumes wf: "tab_wf T" and u: "basis_units T" and z: "\<forall>x \<in> set (costs T). x = 0"
  shows "price_out T = T"
proof -
  have row: "price_row T i = T" if "i < nrows T" for i
  proof -
    have "costs T ! (basis T ! i) = 0"
      using z u that by (simp add: basis_units_def)
    moreover have "row_sub 0 (costs T) (rows T ! i) = costs T"
      using wf that by (intro nth_equalityI) (simp_all add: row_sub_def tab_wf_nth)
    ultimately show ?thesis by (simp add: price_row_def)
  qed
  have "set xs \<subseteq> {..<nrows T} \<Longrightarrow> fold (\<lambda>i T. price_row T i) xs T = T" for xs
    by (induction xs) (auto simp: row)
  then show ?thesis by (simp add: price_out_def subset_iff)
qed

end
