(* ===== verification/Standard_Form.thy ===== *)
theory Standard_Form
  imports LP_Problem Tableau
begin

text \<open>
  Standardisation of a ProblemModel into the phase-1 tableau (spec 4.2,
  step 1). Columns: the \<open>n\<close> original variables, one slack column per
  constraint, one artificial column per constraint with a negative
  right-hand side. A row with \<open>d \<ge> 0\<close> is \<open>a\<cdot>x + s = d\<close> with the slack
  basic; a row with \<open>d < 0\<close> is negated, \<open>-a\<cdot>x - s + t = -d\<close>, with its
  artificial \<open>t\<close> basic. (The spec's text lets the artificial replace the
  slack; without the slack the negated row would become the equation
  \<open>a\<cdot>x = d\<close>, so the model keeps both.)

  \<open>embed\<close> maps a point \<open>x\<close> to the column vector with slacks
  \<open>d - a\<cdot>x\<close> and zero artificials. The lemmas show that the feasible
  points of the LP are exactly the non-negative solutions of the rows with
  zero artificials (\<open>embed_sat\<close>, \<open>std_feasible\<close>).
\<close>

definition n_art :: "vec \<Rightarrow> nat" where
  "n_art d = length (filter (\<lambda>x. x < 0) d)"

definition art_pos :: "vec \<Rightarrow> nat \<Rightarrow> nat" where
  "art_pos d i = length (filter (\<lambda>x. x < 0) (take i d))"

definition std_row :: "lp_problem \<Rightarrow> nat \<Rightarrow> vec" where
  "std_row P i =
     (let m = length (lhs P); k = n_art (rhs P)
      in if 0 \<le> rhs P ! i
         then lhs P ! i @ unit_vec m i @ replicate k 0
         else map uminus (lhs P ! i) @ map uminus (unit_vec m i) @
              unit_vec k (art_pos (rhs P) i))"

definition std_basis :: "lp_problem \<Rightarrow> nat \<Rightarrow> nat" where
  "std_basis P i =
     (if 0 \<le> rhs P ! i then length (obj_coeffs P) + i
      else length (obj_coeffs P) + length (lhs P) + art_pos (rhs P) i)"

definition phase1_obj :: "lp_problem \<Rightarrow> vec" where
  "phase1_obj P =
     replicate (length (obj_coeffs P) + length (lhs P)) 0 @ replicate (n_art (rhs P)) (- 1)"

definition phase2_obj :: "lp_problem \<Rightarrow> vec" where
  "phase2_obj P = obj_coeffs P @ replicate (length (lhs P) + n_art (rhs P)) 0"

definition std_tableau :: "lp_problem \<Rightarrow> tableau" where
  "std_tableau P =
     \<lparr>rows = map (std_row P) [0..<length (lhs P)],
      rhs_col = map (\<lambda>d. if 0 \<le> d then d else - d) (rhs P),
      costs = map uminus (phase1_obj P),
      zval = 0,
      basis = map (std_basis P) [0..<length (lhs P)]\<rparr>"

definition embed :: "lp_problem \<Rightarrow> vec \<Rightarrow> vec" where
  "embed P x =
     x @ map (\<lambda>i. rhs P ! i - dot (lhs P ! i) x) [0..<length (lhs P)] @
     replicate (n_art (rhs P)) 0"

abbreviation std_width :: "lp_problem \<Rightarrow> nat" where
  "std_width P \<equiv> length (obj_coeffs P) + length (lhs P) + n_art (rhs P)"

subsection \<open>Positions of the artificial columns\<close>

lemma art_pos_Suc:
  "i < length d \<Longrightarrow> art_pos d (Suc i) = art_pos d i + (if d ! i < 0 then 1 else 0)"
  by (simp add: art_pos_def take_Suc_conv_app_nth)

lemma art_pos_mono: "i \<le> j \<Longrightarrow> art_pos d i \<le> art_pos d j"
proof -
  assume "i \<le> j"
  then have "take i d = take i (take j d)" by (simp add: min_def)
  then show ?thesis
    unfolding art_pos_def by (metis length_filter_le take_append append_take_drop_id
      filter_append length_append le_add1)
qed

lemma art_pos_less:
  assumes "i < length d" "d ! i < 0"
  shows "art_pos d i < n_art d"
proof -
  have "art_pos d (Suc i) = art_pos d i + 1" using art_pos_Suc [OF assms(1)] assms(2) by simp
  moreover have "art_pos d (Suc i) \<le> art_pos d (length d)" using assms(1) by (intro art_pos_mono) simp
  moreover have "art_pos d (length d) = n_art d" by (simp add: art_pos_def n_art_def)
  ultimately show ?thesis by linarith
qed

lemma art_pos_inj:
  assumes "i < length d" "k < length d" "d ! i < 0" "d ! k < 0" "art_pos d i = art_pos d k"
  shows "i = k"
proof (rule ccontr)
  assume "i \<noteq> k"
  then consider "i < k" | "k < i" by linarith
  then show False
  proof cases
    case 1
    then have "art_pos d (Suc i) \<le> art_pos d k" by (intro art_pos_mono) simp
    then show False using assms art_pos_Suc [OF assms(1)] by simp
  next
    case 2
    then have "art_pos d (Suc k) \<le> art_pos d i" by (intro art_pos_mono) simp
    then show False using assms art_pos_Suc [OF assms(2)] by simp
  qed
qed

subsection \<open>Shape of the standard tableau\<close>

lemma wf_problem_row:
  "wf_problem P \<Longrightarrow> i < length (lhs P) \<Longrightarrow> length (lhs P ! i) = length (obj_coeffs P)"
  by (simp add: wf_problem_def list_all_length)

lemma length_std_row:
  "wf_problem P \<Longrightarrow> i < length (lhs P) \<Longrightarrow> length (std_row P i) = std_width P"
  by (simp add: std_row_def Let_def wf_problem_row)

lemma std_tableau_dims [simp]:
  "nrows (std_tableau P) = length (lhs P)" "ncols (std_tableau P) = std_width P"
  by (simp_all add: std_tableau_def phase1_obj_def)

lemma std_tab_wf: "wf_problem P \<Longrightarrow> tab_wf (std_tableau P)"
  by (auto simp: tab_wf_def std_tableau_def list_all_length length_std_row phase1_obj_def)
     (simp add: wf_problem_def)

lemma std_row_nth:
  assumes "wf_problem P" "i < length (lhs P)" "j < std_width P"
  shows "std_row P i ! j =
     (let n = length (obj_coeffs P); m = length (lhs P) in
      if j < n then (if 0 \<le> rhs P ! i then lhs P ! i ! j else - (lhs P ! i ! j))
      else if j < n + m then (if 0 \<le> rhs P ! i then (if j - n = i then 1 else 0)
                              else - (if j - n = i then 1 else 0))
      else (if 0 \<le> rhs P ! i then 0
            else if j - (n + m) = art_pos (rhs P) i then 1 else 0))"
  using assms wf_problem_row [OF assms(1,2)]
  by (auto simp: std_row_def Let_def nth_append unit_vec_def)

lemma std_basis_units:
  assumes wf: "wf_problem P"
  shows "basis_units (std_tableau P)"
  unfolding basis_units_def
proof (intro allI impI conjI)
  fix i assume i: "i < nrows (std_tableau P)"
  then have i': "i < length (lhs P)" "i < length (rhs P)"
    using wf by (simp_all add: wf_problem_def)
  have bi: "basis (std_tableau P) ! i = std_basis P i" using i' by (simp add: std_tableau_def)
  show "basis (std_tableau P) ! i < ncols (std_tableau P)"
    using bi i' art_pos_less [OF i'(2)] by (simp add: std_basis_def)
  fix k assume k: "k < nrows (std_tableau P)"
  then have k': "k < length (lhs P)" "k < length (rhs P)"
    using wf by (simp_all add: wf_problem_def)
  let ?n = "length (obj_coeffs P)" and ?m = "length (lhs P)"
  have "std_row P k ! std_basis P i = (if k = i then 1 else 0)"
  proof (cases "0 \<le> rhs P ! i")
    case True
    then have b: "std_basis P i = ?n + i" "?n + i < std_width P"
      using i' by (simp_all add: std_basis_def)
    show ?thesis
      using std_row_nth [OF wf k'(1) b(2)] True i'(1) unfolding b(1) Let_def
      by (cases "0 \<le> rhs P ! k") auto
  next
    case False
    have al: "art_pos (rhs P) i < n_art (rhs P)" using art_pos_less [OF i'(2)] False by simp
    then have b: "std_basis P i = ?n + ?m + art_pos (rhs P) i"
      "?n + ?m + art_pos (rhs P) i < std_width P"
      using False by (simp_all add: std_basis_def)
    have inj: "rhs P ! k < 0 \<Longrightarrow> art_pos (rhs P) i = art_pos (rhs P) k \<Longrightarrow> k = i"
      using art_pos_inj [OF k'(2) i'(2)] False by auto
    show ?thesis
      using std_row_nth [OF wf k'(1) b(2)] False inj unfolding b(1) Let_def
      by (cases "0 \<le> rhs P ! k") auto
  qed
  then show "rows (std_tableau P) ! k ! (basis (std_tableau P) ! i) = (if k = i then 1 else 0)"
    using bi k' by (simp add: std_tableau_def)
qed

lemma std_rhs_nonneg: "rhs_nonneg (std_tableau P)"
  by (auto simp: rhs_nonneg_def std_tableau_def nonneg_def list_all_iff)

lemma std_obj_inv: "obj_inv (phase1_obj P) (std_tableau P)"
  by (simp add: obj_inv_def std_tableau_def dot_map_uminus)

subsection \<open>Solutions of the standard rows\<close>

lemma dot_replicate_right [simp]: "dot r (replicate n 0) = 0"
  by (simp add: dot_commute [of r])

lemma dot_replicate_const:
  "length a = k \<Longrightarrow> dot (replicate k c) a = c * sum_list a"
  by (induction a arbitrary: k) (auto simp: algebra_simps)

lemma dot_std_row:
  assumes wf: "wf_problem P" and i: "i < length (lhs P)" and lx: "length x = length (obj_coeffs P)"
    and ls: "length s = length (lhs P)" and la: "length a = n_art (rhs P)"
    and i': "i < length (rhs P)"
  shows "dot (std_row P i) (x @ s @ a) =
           (if 0 \<le> rhs P ! i then dot (lhs P ! i) x + s ! i
            else - dot (lhs P ! i) x - s ! i + a ! art_pos (rhs P) i)"
proof -
  have l1: "length (lhs P ! i) = length x" using wf_problem_row [OF wf i] lx by simp
  have u: "dot (unit_vec (length (lhs P)) i) s = s ! i"
    using dot_unit_vec [of s "length (lhs P)" i] ls i by (simp add: dot_commute [of _ s])
  have "0 > rhs P ! i \<Longrightarrow> dot (unit_vec (n_art (rhs P)) (art_pos (rhs P) i)) a = a ! art_pos (rhs P) i"
    using dot_unit_vec [of a "n_art (rhs P)"] la art_pos_less [OF i'] by (simp add: dot_commute [of _ a])
  then show ?thesis
    using l1 u ls by (simp add: std_row_def Let_def dot_append dot_map_uminus)
qed

lemma split3:
  assumes "length v = std_width P"
  obtains x s a where "v = x @ s @ a" "length x = length (obj_coeffs P)"
    "length s = length (lhs P)" "length a = n_art (rhs P)"
proof
  let ?n = "length (obj_coeffs P)" and ?m = "length (lhs P)"
  show "v = take ?n v @ take ?m (drop ?n v) @ drop (?n + ?m) v"
    by (metis append_take_drop_id drop_drop add.commute)
qed (use assms in simp_all)

lemma length_embed [simp]:
  "length (embed P x) = length x + length (lhs P) + n_art (rhs P)"
  by (simp add: embed_def)

lemma embed_sat:
  assumes wf: "wf_problem P" and lx: "length x = length (obj_coeffs P)"
  shows "sat (std_tableau P) (embed P x)"
proof -
  have lr: "length (rhs P) = length (lhs P)" using wf by (simp add: wf_problem_def)
  have "dot (std_row P i) (embed P x) = (if 0 \<le> rhs P ! i then rhs P ! i else - rhs P ! i)"
    if i: "i < length (lhs P)" for i
    using dot_std_row [OF wf i lx, of "map (\<lambda>i. rhs P ! i - dot (lhs P ! i) x) [0..<length (lhs P)]"
        "replicate (n_art (rhs P)) 0"] i lr art_pos_less [of i "rhs P"]
    by (simp add: embed_def)
  then show ?thesis
    using std_tab_wf [OF wf] lr by (simp add: sat_nth std_tableau_def)
qed

lemma embed_nonneg:
  assumes wf: "wf_problem P" and fx: "feasible P x"
  shows "nonneg (embed P x)"
proof -
  have "\<And>i. i < length (lhs P) \<Longrightarrow> 0 \<le> rhs P ! i - dot (lhs P ! i) x"
    using fx wf by (simp add: feasible_nth)
  then show ?thesis using fx by (auto simp: embed_def feasible_def nonneg_def list_all_iff)
qed


lemma phase2_obj_embed:
  "length x = length (obj_coeffs P) \<Longrightarrow> dot (phase2_obj P) (embed P x) = objective_value P x"
  by (simp add: phase2_obj_def embed_def dot_append objective_value_def)

lemma dot_append3:
  "length a = length x + length s \<Longrightarrow> dot (a @ b) (x @ s @ w) = dot a (x @ s) + dot b w"
  by (metis append_assoc dot_append length_append)

lemma phase1_obj_split:
  assumes "length x = length (obj_coeffs P)" "length s = length (lhs P)" "length a = n_art (rhs P)"
  shows "dot (phase1_obj P) (x @ s @ a) = - sum_list a"
  using assms by (simp add: phase1_obj_def dot_append3 dot_replicate_const)

lemma phase1_obj_embed:
  "length x = length (obj_coeffs P) \<Longrightarrow> dot (phase1_obj P) (embed P x) = 0"
  unfolding embed_def by (subst phase1_obj_split) (simp_all add: sum_list_replicate)

lemma phase1_obj_nonpos:
  assumes "length v = std_width P" "nonneg v"
  shows "dot (phase1_obj P) v \<le> 0"
proof -
  obtain x s a where v: "v = x @ s @ a" "length x = length (obj_coeffs P)"
    "length s = length (lhs P)" "length a = n_art (rhs P)"
    using split3 [OF assms(1)] by blast
  have "0 \<le> sum_list a" using assms(2) v(1) by (simp add: nonneg_def list_all_iff sum_list_nonneg)
  then show ?thesis using phase1_obj_split [OF v(2-4)] v(1) by simp
qed

lemma phase2_obj_take:
  assumes "length v = std_width P"
  shows "dot (phase2_obj P) v = objective_value P (take (length (obj_coeffs P)) v)"
proof -
  obtain x s a where v: "v = x @ s @ a" "length x = length (obj_coeffs P)"
    "length s = length (lhs P)" "length a = n_art (rhs P)"
    using split3 [OF assms(1)] by blast
  then show ?thesis by (simp add: phase2_obj_def dot_append objective_value_def)
qed

theorem std_feasible:
  assumes wf: "wf_problem P" and len: "length v = std_width P"
    and s: "sat (std_tableau P) v" and nn: "nonneg v" and art: "dot (phase1_obj P) v = 0"
  shows "feasible P (take (length (obj_coeffs P)) v)"
proof -
  obtain x s a where v: "v = x @ s @ a" "length x = length (obj_coeffs P)"
    "length s = length (lhs P)" "length a = n_art (rhs P)"
    using split3 [OF len] by blast
  have lr: "length (rhs P) = length (lhs P)" using wf by (simp add: wf_problem_def)
  have nna: "\<forall>y \<in> set a. 0 \<le> y" and nns: "\<forall>y \<in> set s. 0 \<le> y" and nnx: "nonneg x"
    using nn v(1) by (simp_all add: nonneg_def list_all_iff)
  have "sum_list a = 0" using art phase1_obj_split [OF v(2-4)] v(1) by simp
  then have a0: "\<forall>y \<in> set a. y = 0" using nna by (simp add: sum_list_nonneg_eq_0_iff)
  have "dot (lhs P ! i) x \<le> rhs P ! i" if i: "i < length (lhs P)" for i
  proof -
    have row: "dot (std_row P i) (x @ s @ a) = (if 0 \<le> rhs P ! i then rhs P ! i else - rhs P ! i)"
      using s v(1) i lr std_tab_wf [OF wf] by (simp add: sat_nth) (simp add: std_tableau_def)
    have si: "0 \<le> s ! i" using nns i v(3) by simp
    have ai: "rhs P ! i < 0 \<Longrightarrow> a ! art_pos (rhs P) i = 0"
      using a0 art_pos_less [of i "rhs P"] i lr v(4) by simp
    show ?thesis
      using row dot_std_row [OF wf i v(2-4)] i lr si ai by (auto split: if_splits)
  qed
  then show ?thesis
    using wf v nnx by (simp add: feasible_nth)
qed

end
