(* ===== verification/Pivoting.thy ===== *)
theory Pivoting
  imports Tableau
begin

text \<open>
  One phase of the primal simplex method (spec 4.2, step 3): the entering
  column is the allowed column of most negative reduced cost (ties: lowest
  column index), the leaving row is chosen by the minimum ratio test over
  the positive entries of the entering column (ties: lowest row index).
  No entering column: the phase ends optimal; no leaving row: the phase
  ends unbounded along the entering column. Every comparison with zero is
  made against the tolerance \<open>eps\<close>.

  The phase loop \<open>run_phase\<close> carries an iteration budget \<open>fuel\<close> (the
  \<open>maxiter\<close> of a linprog call): the spec's pivoting rule is Dantzig's rule,
  which can cycle (theory Cycling), so running out of budget is an explicit
  exit \<open>Phase_Limit\<close>. The loop is also given as a transition system
  \<open>simplex_step\<close>; a run of \<open>run_phase\<close> is a path of it. The lemmas show
  that every step keeps the tableau invariants (with exact comparisons,
  \<open>eps = 0\<close>), characterise each exit, and show that a phase which returns
  to its start never stops.
\<close>

definition entering :: "real \<Rightarrow> (nat \<Rightarrow> bool) \<Rightarrow> vec \<Rightarrow> nat option" where
  "entering eps allowed c =
     (let js = filter (\<lambda>j. allowed j \<and> c ! j < - eps) [0..<length c]
      in if js = [] then None else Some (arg_min_list (\<lambda>j. c ! j) js))"

definition leaving :: "real \<Rightarrow> tableau \<Rightarrow> nat \<Rightarrow> nat option" where
  "leaving eps T e =
     (let is = filter (\<lambda>i. eps < rows T ! i ! e) [0..<nrows T]
      in if is = [] then None
         else Some (arg_min_list (\<lambda>i. rhs_col T ! i / rows T ! i ! e) is))"

datatype phase_exit = Phase_Optimal | Phase_Unbounded nat | Phase_Limit

fun run_phase :: "nat \<Rightarrow> real \<Rightarrow> (nat \<Rightarrow> bool) \<Rightarrow> tableau \<Rightarrow> phase_exit \<times> tableau" where
  "run_phase fuel eps allowed T =
     (case entering eps allowed (costs T) of
        None \<Rightarrow> (Phase_Optimal, T)
      | Some e \<Rightarrow>
          (case leaving eps T e of
             None \<Rightarrow> (Phase_Unbounded e, T)
           | Some r \<Rightarrow>
               (case fuel of
                  0 \<Rightarrow> (Phase_Limit, T)
                | Suc f \<Rightarrow> run_phase f eps allowed (pivot T r e))))"

declare run_phase.simps [simp del]

text \<open>
  The loop as a transition system: \<open>simplex_step eps allowed T T'\<close> is one
  iteration of \<open>run_phase\<close> that pivots, and its reflexive transitive
  closure the runs of a phase. \<open>phase_iter k\<close> is the tableau after \<open>k\<close>
  iterations, \<open>None\<close> when the phase stops before.
\<close>

inductive simplex_step :: "real \<Rightarrow> (nat \<Rightarrow> bool) \<Rightarrow> tableau \<Rightarrow> tableau \<Rightarrow> bool"
  for eps allowed where
  pivot_iter: "entering eps allowed (costs T) = Some e \<Longrightarrow> leaving eps T e = Some r \<Longrightarrow>
    simplex_step eps allowed T (pivot T r e)"

fun phase_iter :: "nat \<Rightarrow> real \<Rightarrow> (nat \<Rightarrow> bool) \<Rightarrow> tableau \<Rightarrow> tableau option" where
  "phase_iter 0 eps allowed T = Some T"
| "phase_iter (Suc k) eps allowed T =
     (case entering eps allowed (costs T) of
        None \<Rightarrow> None
      | Some e \<Rightarrow> (case leaving eps T e of
                    None \<Rightarrow> None
                  | Some r \<Rightarrow> phase_iter k eps allowed (pivot T r e)))"

definition phase_inv :: "vec \<Rightarrow> tableau \<Rightarrow> bool" where
  "phase_inv c T \<longleftrightarrow> tab_wf T \<and> basis_ok T \<and> rhs_nonneg T \<and> obj_inv c T"

subsection \<open>The selection rules\<close>

lemma entering_Some:
  assumes "entering eps allowed c = Some e"
  shows "e < length c" "allowed e" "c ! e < - eps"
    "\<And>j. j < length c \<Longrightarrow> allowed j \<Longrightarrow> c ! j < - eps \<Longrightarrow> c ! e \<le> c ! j"
proof -
  let ?js = "filter (\<lambda>j. allowed j \<and> c ! j < - eps) [0..<length c]"
  have ne: "?js \<noteq> []" and e: "e = arg_min_list (\<lambda>j. c ! j) ?js"
    using assms by (simp_all add: entering_def Let_def split: if_splits)
  from arg_min_list_filter [OF ne, of "\<lambda>j. c ! j"] e
  show "e < length c" "allowed e" "c ! e < - eps" by auto
  fix j assume "j < length c" "allowed j" "c ! j < - eps"
  then show "c ! e \<le> c ! j" using arg_min_list_le [OF ne, of j "\<lambda>j. c ! j"] e by simp
qed

lemma entering_None:
  "entering eps allowed c = None \<Longrightarrow> j < length c \<Longrightarrow> allowed j \<Longrightarrow> - eps \<le> c ! j"
  by (auto simp: entering_def Let_def filter_empty_conv split: if_splits)

lemma leaving_Some:
  assumes "leaving eps T e = Some r"
  shows "r < nrows T" "eps < rows T ! r ! e"
    "\<And>i. i < nrows T \<Longrightarrow> eps < rows T ! i ! e \<Longrightarrow>
       rhs_col T ! r / rows T ! r ! e \<le> rhs_col T ! i / rows T ! i ! e"
proof -
  let ?is = "filter (\<lambda>i. eps < rows T ! i ! e) [0..<nrows T]"
  have ne: "?is \<noteq> []" and r: "r = arg_min_list (\<lambda>i. rhs_col T ! i / rows T ! i ! e) ?is"
    using assms by (simp_all add: leaving_def Let_def split: if_splits)
  from arg_min_list_filter [OF ne, of "\<lambda>i. rhs_col T ! i / rows T ! i ! e"] r
  show "r < nrows T" "eps < rows T ! r ! e" by auto
  fix i assume "i < nrows T" "eps < rows T ! i ! e"
  then show "rhs_col T ! r / rows T ! r ! e \<le> rhs_col T ! i / rows T ! i ! e"
    using arg_min_list_le [OF ne, of i] r by simp
qed

lemma leaving_None:
  "leaving eps T e = None \<Longrightarrow> i < nrows T \<Longrightarrow> rows T ! i ! e \<le> eps"
  by (auto simp: leaving_def Let_def filter_empty_conv not_less split: if_splits)

text \<open>
  The entering rule is the one spec 4.2 states: the entering column
  is an allowed column whose reduced cost is below \<open>-eps\<close> and least among
  those, the lowest index among ties; there is no other.
\<close>

lemma entering_rule:
  "entering eps allowed c = Some e \<longleftrightarrow>
     e < length c \<and> allowed e \<and> c ! e < - eps \<and>
     (\<forall>j < length c. allowed j \<and> c ! j < - eps \<longrightarrow> c ! e \<le> c ! j) \<and>
     (\<forall>j < e. allowed j \<and> c ! j < - eps \<longrightarrow> c ! e < c ! j)"
proof (cases "filter (\<lambda>j. allowed j \<and> c ! j < - eps) [0..<length c] = []")
  case True
  then show ?thesis by (auto simp: entering_def filter_empty_conv)
next
  case False
  then show ?thesis using arg_min_list_upt_iff [OF False, of "\<lambda>j. c ! j" e]
    by (auto simp: entering_def)
qed

lemma entering_rule_tie:
  "entering 0 (\<lambda>j. True) [-2, -3, -3, 1] = Some 1 \<and>
   entering 0 (\<lambda>j. True) [-2, -3, -3, 1] \<noteq> Some 2"
proof
  show "entering 0 (\<lambda>j. True) [-2, -3, -3, 1] = Some 1"
    by (subst entering_rule) (auto simp: less_Suc_eq numeral_eq_Suc)
  show "entering 0 (\<lambda>j. True) [-2, -3, -3, 1] \<noteq> Some 2"
    by (subst entering_rule) (auto simp: numeral_eq_Suc less_Suc_eq)
qed

text \<open>
  The leaving rule is the minimum ratio test of spec 4.2: the leaving
  row has an entry above \<open>eps\<close> in the entering column and the least ratio
  \<open>rhs[i] / a[i,e]\<close> among those rows, the lowest row index among ties.
\<close>

lemma leaving_rule:
  "leaving eps T e = Some r \<longleftrightarrow>
     r < nrows T \<and> eps < rows T ! r ! e \<and>
     (\<forall>i < nrows T. eps < rows T ! i ! e \<longrightarrow>
        rhs_col T ! r / rows T ! r ! e \<le> rhs_col T ! i / rows T ! i ! e) \<and>
     (\<forall>i < r. eps < rows T ! i ! e \<longrightarrow>
        rhs_col T ! r / rows T ! r ! e < rhs_col T ! i / rows T ! i ! e)"
proof (cases "filter (\<lambda>i. eps < rows T ! i ! e) [0..<nrows T] = []")
  case True
  then show ?thesis by (auto simp: leaving_def filter_empty_conv)
next
  case False
  then show ?thesis
    using arg_min_list_upt_iff [OF False, of "\<lambda>i. rhs_col T ! i / rows T ! i ! e" r]
    by (auto simp: leaving_def)
qed

lemma leaving_rule_tie:
  "leaving 0 \<lparr>rows = [[0, 1], [1, 2], [1, 1]], rhs_col = [5, 2, 2], costs = [-1, 0],
      zval = 0, basis = [1, 1, 1]\<rparr> 0 = Some 1 \<and>
   leaving 0 \<lparr>rows = [[0, 1], [1, 2], [1, 1]], rhs_col = [5, 2, 2], costs = [-1, 0],
      zval = 0, basis = [1, 1, 1]\<rparr> 0 \<noteq> Some 2"
proof
  show "leaving 0 \<lparr>rows = [[0, 1], [1, 2], [1, 1]], rhs_col = [5, 2, 2], costs = [-1, 0],
      zval = 0, basis = [1, 1, 1]\<rparr> 0 = Some 1"
    by (subst leaving_rule) (auto simp: less_Suc_eq numeral_eq_Suc)
  show "leaving 0 \<lparr>rows = [[0, 1], [1, 2], [1, 1]], rhs_col = [5, 2, 2], costs = [-1, 0],
      zval = 0, basis = [1, 1, 1]\<rparr> 0 \<noteq> Some 2"
    by (subst leaving_rule) (auto simp: less_Suc_eq numeral_eq_Suc)
qed

subsection \<open>One pivot of the loop\<close>

lemma pivot_step:
  assumes inv: "phase_inv c T" and en: "entering 0 allowed (costs T) = Some e"
    and lv: "leaving 0 T e = Some r"
  shows "phase_inv c (pivot T r e)" "nrows (pivot T r e) = nrows T"
    "ncols (pivot T r e) = ncols T" "sat (pivot T r e) v \<longleftrightarrow> sat T v"
    "zval T \<le> zval (pivot T r e)" "basis (pivot T r e) = (basis T)[r := e]"
proof -
  have wf: "tab_wf T" and ok: "basis_ok T" and nn: "rhs_nonneg T" and oi: "obj_inv c T"
    using inv by (simp_all add: phase_inv_def)
  have e: "e < ncols T" "costs T ! e < 0" using entering_Some [OF en] by simp_all
  have r: "r < nrows T" "0 < rows T ! r ! e" using leaving_Some [OF lv] by simp_all
  have p: "rows T ! r ! e \<noteq> 0" using r(2) by simp
  have br: "0 \<le> rhs_col T ! r" using nn wf r(1) by (simp add: rhs_nonneg_def nonneg_nth tab_wf_def)
  show "phase_inv c (pivot T r e)"
    unfolding phase_inv_def
    using tab_wf_pivot [OF wf r(1)] basis_ok_pivot [OF ok wf r(1) e(1) p]
      rhs_nonneg_pivot [OF nn wf r(1) r(2) leaving_Some(3) [OF lv]] obj_inv_pivot [OF oi wf r(1) p]
    by simp
  show "nrows (pivot T r e) = nrows T" "ncols (pivot T r e) = ncols T"
    "basis (pivot T r e) = (basis T)[r := e]"
    using wf r(1) by simp_all
  show "sat (pivot T r e) v \<longleftrightarrow> sat T v" using pivot_sat_iff [OF wf r(1) p] .
  show "zval T \<le> zval (pivot T r e)" using zval_pivot_mono [of T e r] e(2) r(2) br by simp
qed

subsection \<open>The phase loop\<close>

lemma run_phase_exit:
  assumes "run_phase fuel eps allowed T = (x, T')"
  shows "(x = Phase_Optimal \<longrightarrow> entering eps allowed (costs T') = None) \<and>
         (\<forall>e. x = Phase_Unbounded e \<longrightarrow>
               entering eps allowed (costs T') = Some e \<and> leaving eps T' e = None)"
  using assms
proof (induction fuel arbitrary: T)
  case 0
  then show ?case
    by (auto simp: run_phase.simps [of 0] split: option.splits)
next
  case (Suc f)
  then show ?case
    by (auto simp: run_phase.simps [of "Suc f"] split: option.splits)
qed

subsection \<open>The loop as a transition system\<close>

inductive_cases simplex_stepE: "simplex_step eps allowed T T'"

lemma simplex_step_det:
  "simplex_step eps allowed T T' \<Longrightarrow> simplex_step eps allowed T T'' \<Longrightarrow> T'' = T'"
  by (auto elim!: simplex_stepE)

lemma run_phase_step:
  "simplex_step eps allowed T T' \<Longrightarrow> run_phase (Suc f) eps allowed T = run_phase f eps allowed T'"
  by (auto elim!: simplex_stepE simp: run_phase.simps [of "Suc f"])

lemma run_phase_steps:
  "run_phase fuel eps allowed T = (x, T') \<Longrightarrow> (simplex_step eps allowed)\<^sup>*\<^sup>* T T'"
proof (induction fuel arbitrary: T)
  case 0
  then show ?case by (auto simp: run_phase.simps [of 0] split: option.splits)
next
  case (Suc f)
  then show ?case
    by (auto simp: run_phase.simps [of "Suc f"] split: option.splits
        intro: converse_rtranclp_into_rtranclp simplex_step.intros)
qed

lemma simplex_step_inv:
  assumes "simplex_step 0 allowed T T'" and "phase_inv c T"
  shows "phase_inv c T' \<and> nrows T' = nrows T \<and> ncols T' = ncols T \<and>
         (\<forall>v. sat T' v \<longleftrightarrow> sat T v) \<and> zval T \<le> zval T' \<and>
         set (basis T') \<subseteq> set (basis T) \<union> {j. allowed j}"
proof -
  obtain e r where st: "T' = pivot T r e" "entering 0 allowed (costs T) = Some e"
    "leaving 0 T e = Some r"
    using assms(1) by (auto elim: simplex_stepE)
  note step = pivot_step [OF assms(2) st(2,3)]
  have "set (basis (pivot T r e)) \<subseteq> set (basis T) \<union> {j. allowed j}"
    using step(6) entering_Some(2) [OF st(2)] set_update_subset_insert [of "basis T" r e]
    by auto
  then show ?thesis using step st(1) by auto
qed

lemma simplex_steps_inv:
  assumes "(simplex_step 0 allowed)\<^sup>*\<^sup>* T T'" and "phase_inv c T"
  shows "phase_inv c T' \<and> nrows T' = nrows T \<and> ncols T' = ncols T \<and>
         (\<forall>v. sat T' v \<longleftrightarrow> sat T v) \<and> zval T \<le> zval T' \<and>
         set (basis T') \<subseteq> set (basis T) \<union> {j. allowed j}"
  using assms(1)
proof (induction rule: rtranclp_induct)
  case base
  then show ?case using assms(2) by simp
next
  case (step U U')
  from simplex_step_inv [OF step(2)] step(3) show ?case by fastforce
qed

lemma run_phase_inv:
  assumes "run_phase fuel 0 allowed T = (x, T')" and "phase_inv c T"
  shows "phase_inv c T' \<and> nrows T' = nrows T \<and> ncols T' = ncols T \<and>
         (\<forall>v. sat T' v \<longleftrightarrow> sat T v) \<and> zval T \<le> zval T' \<and>
         set (basis T') \<subseteq> set (basis T) \<union> {j. allowed j}"
  using simplex_steps_inv [OF run_phase_steps [OF assms(1)] assms(2)] .

lemma phase_iter_run:
  "phase_iter k eps allowed T = Some T' \<Longrightarrow> run_phase (k + f) eps allowed T = run_phase f eps allowed T'"
proof (induction k arbitrary: T)
  case (Suc k)
  then show ?case by (auto simp: run_phase.simps [of "Suc (k + f)"] split: option.splits)
qed simp

lemma phase_iter_limit:
  "phase_iter (Suc f) eps allowed T \<noteq> None \<Longrightarrow> fst (run_phase f eps allowed T) = Phase_Limit"
proof (induction f arbitrary: T)
  case 0
  then show ?case by (auto simp: run_phase.simps [of 0] split: option.splits)
next
  case (Suc f)
  then show ?case by (auto simp: run_phase.simps [of "Suc f"] split: option.splits)
qed

lemma phase_iter_prefix:
  "phase_iter k eps allowed T \<noteq> None \<Longrightarrow> j \<le> k \<Longrightarrow> phase_iter j eps allowed T \<noteq> None"
proof (induction k arbitrary: j T)
  case (Suc k)
  then show ?case by (cases j) (auto split: option.splits)
qed simp

lemma simplex_step_iter:
  "simplex_step eps allowed T T' \<Longrightarrow> phase_iter 1 eps allowed T = Some T'"
  by (auto elim!: simplex_stepE)

lemma phase_iter_one:
  "phase_iter 1 eps allowed T = Some T' \<Longrightarrow>
     phase_iter (Suc m) eps allowed T = phase_iter m eps allowed T'"
  by (auto split: option.splits)

lemma phase_iter_chain:
  assumes "\<forall>k < n. phase_iter 1 eps allowed (C ! k) = Some (C ! Suc k)"
  shows "phase_iter n eps allowed (C ! 0) = Some (C ! n)"
proof -
  have "m \<le> n \<Longrightarrow> phase_iter m eps allowed (C ! (n - m)) = Some (C ! n)" for m
  proof (induction m)
    case (Suc m)
    have "n - Suc m < n" and sk: "Suc (n - Suc m) = n - m" using Suc.prems by arith+
    then have "phase_iter 1 eps allowed (C ! (n - Suc m)) = Some (C ! (n - m))"
      using assms by (metis sk)
    then show ?case using Suc phase_iter_one by simp
  qed simp
  from this [of n] show ?thesis by simp
qed

text \<open>
  A phase that comes back to the tableau it started from after \<open>k + 1\<close>
  iterations cycles: it runs out of every budget.
\<close>

lemma run_phase_cycle:
  assumes cyc: "phase_iter (Suc k) eps allowed T = Some T"
  shows "fst (run_phase fuel eps allowed T) = Phase_Limit"
proof (induction fuel rule: less_induct)
  case (less fuel)
  show ?case
  proof (cases "fuel \<le> k")
    case True
    then show ?thesis using phase_iter_prefix [of "Suc k" eps allowed T "Suc fuel"] cyc
      by (simp add: phase_iter_limit)
  next
    case False
    then obtain f where f: "fuel = Suc k + f" by (metis add_Suc le_Suc_ex not_less_eq_eq)
    then have "run_phase fuel eps allowed T = run_phase f eps allowed T"
      using phase_iter_run [OF cyc] by simp
    then show ?thesis using less f by simp
  qed
qed

lemma run_phase_optimal:
  assumes "run_phase fuel eps allowed T = (Phase_Optimal, T')"
    and "j < ncols T'" and "allowed j"
  shows "- eps \<le> costs T' ! j"
  using run_phase_exit [OF assms(1)] entering_None assms(2,3) by blast

lemma run_phase_unbounded:
  assumes "run_phase fuel eps allowed T = (Phase_Unbounded e, T')"
  shows "e < ncols T'" "allowed e" "costs T' ! e < - eps"
    "\<And>i. i < nrows T' \<Longrightarrow> rows T' ! i ! e \<le> eps"
  using run_phase_exit [OF assms] entering_Some [of eps allowed "costs T'" e] leaving_None
  by blast+

end
