(* ===== verification/Simplex.thy ===== *)
theory Simplex
  imports Standard_Form Pivoting
begin

text \<open>
  The SimplexSolver of the spec (section 4.2): \<open>solve cfg P\<close> standardises
  \<open>P\<close>, runs phase 1 on the sum of the artificial columns, reports
  \<open>Infeasible\<close> when the phase-1 minimum exceeds the tolerance, and otherwise
  runs phase 2 on the true objective and reads the optimal value and point
  from the final tableau. \<open>simplex_config\<close> holds the tolerance \<open>eps\<close>
  (spec default 1e-9, a configuration value) and the iteration budget of
  each phase.

  Phase 2 never lets an artificial column enter, which is what dropping the
  artificial columns does. It also keeps out every column whose phase-1
  reduced cost is positive: such a column is zero in every feasible point,
  and an artificial column that phase 1 left basic at level zero stays at
  zero only if none of them enters. The spec does not say what happens to an
  artificial column left in the basis; this is the model's resolution.

  Main results (with exact comparisons, \<open>eps = 0\<close>): an \<open>Optimal\<close> report
  gives a feasible point whose objective value is the reported value and is
  at least that of every feasible point; \<open>Infeasible\<close> is only reported for
  problems without feasible points; \<open>Unbounded\<close> only for problems whose
  objective is unbounded above on the feasible set.
\<close>

record simplex_config =
  eps :: real
  maxiter :: nat

definition phase1_tableau :: "lp_problem \<Rightarrow> tableau" where
  "phase1_tableau P = price_out (std_tableau P)"

definition phase2_tableau :: "lp_problem \<Rightarrow> tableau \<Rightarrow> tableau" where
  "phase2_tableau P T1 =
     price_out (T1\<lparr>costs := map uminus (phase2_obj P), zval := 0\<rparr>)"

definition phase2_allowed :: "lp_problem \<Rightarrow> real \<Rightarrow> tableau \<Rightarrow> nat \<Rightarrow> bool" where
  "phase2_allowed P tol T1 j \<longleftrightarrow>
     j < length (obj_coeffs P) + length (lhs P) \<and> costs T1 ! j \<le> tol"

definition read_point :: "tableau \<Rightarrow> nat \<Rightarrow> vec" where
  "read_point T n = map (basic_value T) [0..<n]"

definition solve :: "simplex_config \<Rightarrow> lp_problem \<Rightarrow> report" where
  "solve cfg P =
     (case run_phase (maxiter cfg) (eps cfg) (\<lambda>j. True) (phase1_tableau P) of
        (Phase_Limit, _) \<Rightarrow> Iteration_Limit
      | (Phase_Unbounded _, _) \<Rightarrow> Infeasible
      | (Phase_Optimal, T1) \<Rightarrow>
          if zval T1 < - eps cfg then Infeasible
          else
            (case run_phase (maxiter cfg) (eps cfg) (phase2_allowed P (eps cfg) T1)
                    (phase2_tableau P T1) of
               (Phase_Limit, _) \<Rightarrow> Iteration_Limit
             | (Phase_Unbounded _, _) \<Rightarrow> Unbounded
             | (Phase_Optimal, T3) \<Rightarrow>
                 Optimal (zval T3) (read_point T3 (length (obj_coeffs P)))))"

text \<open>What a phase-1 run that ends optimal with objective zero hands over.\<close>

definition phase1_result :: "lp_problem \<Rightarrow> tableau \<Rightarrow> bool" where
  "phase1_result P T1 \<longleftrightarrow>
     phase_inv (phase1_obj P) T1 \<and> ncols T1 = std_width P \<and>
     (\<forall>v. sat T1 v \<longleftrightarrow> sat (std_tableau P) v) \<and>
     (\<forall>j < std_width P. 0 \<le> costs T1 ! j) \<and> zval T1 = 0"

subsection \<open>Phase 1\<close>

lemma sat_cong:
  "rows T = rows T' \<Longrightarrow> rhs_col T = rhs_col T' \<Longrightarrow> sat T v \<longleftrightarrow> sat T' v"
  by (simp add: sat_def)

lemma phase1_tableau_inv:
  assumes wf: "wf_problem P"
  shows "phase_inv (phase1_obj P) (phase1_tableau P)"
    "ncols (phase1_tableau P) = std_width P" "nrows (phase1_tableau P) = length (lhs P)"
    "sat (phase1_tableau P) v \<longleftrightarrow> sat (std_tableau P) v"
proof -
  note po = price_out [OF std_tab_wf [OF wf] std_basis_units [OF wf] std_obj_inv]
  show "phase_inv (phase1_obj P) (phase1_tableau P)"
    using po std_rhs_nonneg by (simp add: phase_inv_def phase1_tableau_def rhs_nonneg_def)
  show "ncols (phase1_tableau P) = std_width P" "nrows (phase1_tableau P) = length (lhs P)"
    using po by (simp_all add: phase1_tableau_def)
  show "sat (phase1_tableau P) v \<longleftrightarrow> sat (std_tableau P) v"
    unfolding phase1_tableau_def by (rule sat_cong) (simp_all add: po)
qed

lemma phase1_steps:
  assumes wf: "wf_problem P"
    and st: "(simplex_step 0 (\<lambda>j. True))\<^sup>*\<^sup>* (phase1_tableau P) T1"
  shows "phase_inv (phase1_obj P) T1" "ncols T1 = std_width P" "nrows T1 = length (lhs P)"
    "sat T1 v \<longleftrightarrow> sat (std_tableau P) v"
  using simplex_steps_inv [OF st phase1_tableau_inv(1) [OF wf]] phase1_tableau_inv [OF wf]
  by auto

lemma run_phase1:
  assumes wf: "wf_problem P"
    and run: "run_phase fuel 0 (\<lambda>j. True) (phase1_tableau P) = (x, T1)"
  shows "phase_inv (phase1_obj P) T1" "ncols T1 = std_width P" "nrows T1 = length (lhs P)"
    "sat T1 v \<longleftrightarrow> sat (std_tableau P) v"
  using phase1_steps [OF wf run_phase_steps [OF run]] by auto

lemma embed_in_tableau:
  assumes wf: "wf_problem P" and fy: "feasible P y"
    and eq: "\<And>v. sat T v \<longleftrightarrow> sat (std_tableau P) v"
  shows "sat T (embed P y)" "nonneg (embed P y)" "length (embed P y) = std_width P"
    "dot (phase1_obj P) (embed P y) = 0"
    "dot (phase2_obj P) (embed P y) = objective_value P y"
proof -
  have ly: "length y = length (obj_coeffs P)" using fy by (simp add: feasible_def)
  show "sat T (embed P y)" using eq embed_sat [OF wf ly] by simp
  show "nonneg (embed P y)" using embed_nonneg [OF wf fy] .
  show "length (embed P y) = std_width P" using ly by simp
  show "dot (phase1_obj P) (embed P y) = 0" using phase1_obj_embed [OF ly] .
  show "dot (phase2_obj P) (embed P y) = objective_value P y" using phase2_obj_embed [OF ly] .
qed

theorem phase1_never_unbounded:
  assumes wf: "wf_problem P"
  shows "run_phase fuel 0 (\<lambda>j. True) (phase1_tableau P) \<noteq> (Phase_Unbounded e, T1)"
proof
  assume run: "run_phase fuel 0 (\<lambda>j. True) (phase1_tableau P) = (Phase_Unbounded e, T1)"
  note inv = run_phase1 [OF wf run]
  have i: "obj_inv (phase1_obj P) T1" "tab_wf T1" "basis_ok T1" "rhs_nonneg T1"
    using inv(1) by (simp_all add: phase_inv_def)
  note u = run_phase_unbounded [OF run]
  obtain v where v: "length v = ncols T1" "sat T1 v" "nonneg v" "0 < dot (phase1_obj P) v"
    using tableau_unbounded [OF i u(1)] u(3,4) by fastforce
  then show False using phase1_obj_nonpos [of v P] inv(2) by simp
qed

theorem phase1_infeasible:
  assumes wf: "wf_problem P"
    and run: "run_phase fuel 0 (\<lambda>j. True) (phase1_tableau P) = (Phase_Optimal, T1)"
    and neg: "zval T1 < 0"
  shows "\<not> feasible P y"
proof
  assume fy: "feasible P y"
  note inv = run_phase1 [OF wf run]
  note emb = embed_in_tableau [OF wf fy inv(4)]
  have "dot (phase1_obj P) (embed P y) \<le> zval T1"
  proof (rule obj_le_zval)
    show "obj_inv (phase1_obj P) T1" using inv(1) by (simp add: phase_inv_def)
    show "sat T1 (embed P y)" "length (embed P y) = ncols T1" using emb(1,3) inv(2) by simp_all
    fix j assume j: "j < ncols T1"
    have "0 \<le> costs T1 ! j" using run_phase_optimal [OF run j] by simp
    moreover have "0 \<le> embed P y ! j" using emb(2,3) j inv(2) by (simp add: nonneg_nth)
    ultimately show "0 \<le> costs T1 ! j * embed P y ! j" by simp
  qed
  then show False using emb(4) neg by simp
qed

subsection \<open>From phase 1 to phase 2\<close>

lemma phase1_steps_result:
  assumes wf: "wf_problem P"
    and st: "(simplex_step 0 (\<lambda>j. True))\<^sup>*\<^sup>* (phase1_tableau P) T1"
    and opt: "entering 0 (\<lambda>j. True) (costs T1) = None"
    and nz: "\<not> zval T1 < 0"
  shows "phase1_result P T1"
proof -
  note inv = phase1_steps [OF wf st]
  have i: "obj_inv (phase1_obj P) T1" "tab_wf T1" "basis_ok T1" "rhs_nonneg T1"
    using inv(1) by (simp_all add: phase_inv_def)
  have "zval T1 = dot (phase1_obj P) (basic_sol T1)" using obj_basic_sol [OF i(1-3)] by simp
  also have "\<dots> \<le> 0"
    using phase1_obj_nonpos [of "basic_sol T1" P] nonneg_basic_sol [OF i(2,4)] inv(2) by simp
  finally have "zval T1 = 0" using nz by simp
  moreover have "\<forall>j < std_width P. 0 \<le> costs T1 ! j"
    using entering_None [OF opt] inv(2) i(2) by (simp add: tab_wf_def)
  ultimately show ?thesis using inv by (simp add: phase1_result_def)
qed

lemma phase1_resultI:
  assumes wf: "wf_problem P"
    and run: "run_phase fuel 0 (\<lambda>j. True) (phase1_tableau P) = (Phase_Optimal, T1)"
    and nz: "\<not> zval T1 < 0"
  shows "phase1_result P T1"
  using phase1_steps_result [OF wf run_phase_steps [OF run] _ nz] run_phase_exit [OF run] by simp

lemma phase1_result_support:
  assumes wf: "wf_problem P" and p1: "phase1_result P T1"
    and len: "length v = std_width P" and s: "sat (std_tableau P) v" and nn: "nonneg v"
    and supp: "\<And>j. j < std_width P \<Longrightarrow> costs T1 ! j \<noteq> 0 \<Longrightarrow> v ! j = 0"
  shows "feasible P (take (length (obj_coeffs P)) v)"
proof -
  have oi: "obj_inv (phase1_obj P) T1" and n: "ncols T1 = std_width P" and z: "zval T1 = 0"
    and eq: "sat T1 v" using p1 s by (simp_all add: phase1_result_def phase_inv_def)
  have "dot (costs T1) v = 0" using len n supp by (intro dot_zero_support) auto
  then have "dot (phase1_obj P) v = 0" using obj_invD [OF oi _ eq] len n z by simp
  then show ?thesis using std_feasible [OF wf len s nn] by simp
qed

lemma embed_positive_cost:
  assumes wf: "wf_problem P" and p1: "phase1_result P T1" and fy: "feasible P y"
    and j: "j < std_width P" and pos: "0 < costs T1 ! j"
  shows "embed P y ! j = 0"
proof -
  have oi: "obj_inv (phase1_obj P) T1" and n: "ncols T1 = std_width P" and z: "zval T1 = 0"
    and nc: "\<forall>j < std_width P. 0 \<le> costs T1 ! j"
    and eq: "\<And>v. sat T1 v \<longleftrightarrow> sat (std_tableau P) v"
    using p1 by (simp_all add: phase1_result_def phase_inv_def)
  note emb = embed_in_tableau [OF wf fy eq]
  have "dot (costs T1) (embed P y) = 0" using obj_invD [OF oi _ emb(1)] emb(3,4) n z by simp
  moreover have "\<And>j. j < ncols T1 \<Longrightarrow> 0 \<le> costs T1 ! j * embed P y ! j"
    using nc emb(2,3) n by (simp add: nonneg_nth)
  ultimately have "costs T1 ! j * embed P y ! j = 0"
    using dot_zero_terms [of "costs T1" "embed P y"] emb(3) n j by simp
  then show ?thesis using pos by simp
qed

lemma embed_artificial:
  "length y = length (obj_coeffs P) \<Longrightarrow> length (obj_coeffs P) + length (lhs P) \<le> j \<Longrightarrow>
     j < std_width P \<Longrightarrow> embed P y ! j = 0"
  by (auto simp: embed_def nth_append)

lemma phase2_tableau_inv:
  assumes p1: "phase1_result P T1"
  shows "phase_inv (phase2_obj P) (phase2_tableau P T1)"
    "ncols (phase2_tableau P T1) = std_width P" "basis (phase2_tableau P T1) = basis T1"
    "sat (phase2_tableau P T1) v \<longleftrightarrow> sat T1 v"
proof -
  let ?T = "T1\<lparr>costs := map uminus (phase2_obj P), zval := 0\<rparr>"
  have i: "tab_wf T1" "basis_ok T1" "rhs_nonneg T1" "ncols T1 = std_width P"
    using p1 by (simp_all add: phase1_result_def phase_inv_def)
  have l2: "length (phase2_obj P) = std_width P" by (simp add: phase2_obj_def)
  have wf: "tab_wf ?T" using i(1,4) l2 by (simp add: tab_wf_def)
  have u: "basis_units ?T" using i(2,4) l2 by (simp add: basis_ok_iff basis_units_def)
  have oi: "obj_inv (phase2_obj P) ?T" by (simp add: obj_inv_def dot_map_uminus)
  note po = price_out [OF wf u oi]
  show "phase_inv (phase2_obj P) (phase2_tableau P T1)"
    using po i(3) by (simp add: phase_inv_def phase2_tableau_def rhs_nonneg_def)
  show "ncols (phase2_tableau P T1) = std_width P" "basis (phase2_tableau P T1) = basis T1"
    using po l2 by (simp_all add: phase2_tableau_def)
  show "sat (phase2_tableau P T1) v \<longleftrightarrow> sat T1 v"
    unfolding phase2_tableau_def by (rule sat_cong) (simp_all add: po)
qed

lemma phase2_steps:
  assumes p1: "phase1_result P T1"
    and st: "(simplex_step 0 (phase2_allowed P 0 T1))\<^sup>*\<^sup>* (phase2_tableau P T1) T3"
  shows "phase_inv (phase2_obj P) T3" "ncols T3 = std_width P"
    "sat T3 v \<longleftrightarrow> sat (std_tableau P) v"
    "\<And>j. j \<in> set (basis T3) \<Longrightarrow> costs T1 ! j = 0"
proof -
  note p2 = phase2_tableau_inv [OF p1]
  note r = simplex_steps_inv [OF st p2(1)]
  show "phase_inv (phase2_obj P) T3" "ncols T3 = std_width P"
    using r p2 by simp_all
  show "sat T3 v \<longleftrightarrow> sat (std_tableau P) v"
    using r p2(4) p1 by (simp add: phase1_result_def)
  fix j assume j: "j \<in> set (basis T3)"
  have i: "tab_wf T1" "basis_ok T1" "ncols T1 = std_width P"
    and nc: "\<forall>j < std_width P. 0 \<le> costs T1 ! j"
    using p1 by (simp_all add: phase1_result_def phase_inv_def)
  from j r p2(3) have "j \<in> set (basis T1) \<or> phase2_allowed P 0 T1 j" by auto
  then show "costs T1 ! j = 0"
  proof
    assume "j \<in> set (basis T1)"
    then obtain i where "i < nrows T1" "basis T1 ! i = j"
      using i(1) by (auto simp: in_set_conv_nth tab_wf_def)
    then show ?thesis using basis_entry [OF i(2)] by auto
  next
    assume "phase2_allowed P 0 T1 j"
    then have "j < std_width P" "costs T1 ! j \<le> 0" by (simp_all add: phase2_allowed_def)
    then show ?thesis using nc by force
  qed
qed

lemma run_phase2:
  assumes p1: "phase1_result P T1"
    and run: "run_phase fuel 0 (phase2_allowed P 0 T1) (phase2_tableau P T1) = (x, T3)"
  shows "phase_inv (phase2_obj P) T3" "ncols T3 = std_width P"
    "sat T3 v \<longleftrightarrow> sat (std_tableau P) v"
    "\<And>j. j \<in> set (basis T3) \<Longrightarrow> costs T1 ! j = 0"
  using phase2_steps [OF p1 run_phase_steps [OF run]] by auto

lemma read_point_take:
  "n \<le> ncols T \<Longrightarrow> read_point T n = take n (basic_sol T)"
  by (simp add: read_point_def basic_sol_def take_map)

subsection \<open>Phase 2\<close>

lemma phase2_support:
  assumes p1: "phase1_result P T1"
    and st: "(simplex_step 0 (phase2_allowed P 0 T1))\<^sup>*\<^sup>* (phase2_tableau P T1) T3"
    and j: "j < std_width P" "costs T1 ! j \<noteq> 0"
  shows "j \<notin> set (basis T3)"
  using phase2_steps(4) [OF p1 st] j by blast

lemma phase2_vertex:
  assumes wf: "wf_problem P" and p1: "phase1_result P T1"
    and st: "(simplex_step 0 (phase2_allowed P 0 T1))\<^sup>*\<^sup>* (phase2_tableau P T1) T3"
  shows "feasible P (read_point T3 (length (obj_coeffs P)))"
    "zval T3 = objective_value P (read_point T3 (length (obj_coeffs P)))"
proof -
  note r = phase2_steps [OF p1 st]
  have i: "obj_inv (phase2_obj P) T3" "tab_wf T3" "basis_ok T3" "rhs_nonneg T3"
    using r(1) by (simp_all add: phase_inv_def)
  have rp: "read_point T3 (length (obj_coeffs P)) = take (length (obj_coeffs P)) (basic_sol T3)"
    using r(2) by (simp add: read_point_take)
  have len: "length (basic_sol T3) = std_width P" using r(2) by simp
  have "feasible P (take (length (obj_coeffs P)) (basic_sol T3))"
  proof (rule phase1_result_support [OF wf p1 len])
    show "sat (std_tableau P) (basic_sol T3)" using sat_basic_sol [OF i(2,3)] r(3) by simp
    show "nonneg (basic_sol T3)" using nonneg_basic_sol [OF i(2,4)] .
    fix j assume "j < std_width P" "costs T1 ! j \<noteq> 0"
    then show "basic_sol T3 ! j = 0"
      using basic_sol_support [OF i(2,3)] phase2_support [OF p1 st] r(2) by simp
  qed
  then show "feasible P (read_point T3 (length (obj_coeffs P)))" using rp by simp
  show "zval T3 = objective_value P (read_point T3 (length (obj_coeffs P)))"
    using obj_basic_sol [OF i(1-3)] phase2_obj_take [OF len] rp by simp
qed

lemma phase2_optimal_point:
  assumes wf: "wf_problem P" and p1: "phase1_result P T1"
    and run: "run_phase fuel 0 (phase2_allowed P 0 T1) (phase2_tableau P T1) = (Phase_Optimal, T3)"
  shows "feasible P (read_point T3 (length (obj_coeffs P)))"
    "zval T3 = objective_value P (read_point T3 (length (obj_coeffs P)))"
  using phase2_vertex [OF wf p1 run_phase_steps [OF run]] by auto

theorem phase2_optimal_max:
  assumes wf: "wf_problem P" and p1: "phase1_result P T1"
    and run: "run_phase fuel 0 (phase2_allowed P 0 T1) (phase2_tableau P T1) = (Phase_Optimal, T3)"
    and fy: "feasible P y"
  shows "objective_value P y \<le> zval T3"
proof -
  note r = run_phase2 [OF p1 run]
  have eq: "\<And>v. sat T3 v \<longleftrightarrow> sat (std_tableau P) v" using r(3) by simp
  note emb = embed_in_tableau [OF wf fy eq]
  have ly: "length y = length (obj_coeffs P)" using fy by (simp add: feasible_def)
  have "dot (phase2_obj P) (embed P y) \<le> zval T3"
  proof (rule obj_le_zval)
    show "obj_inv (phase2_obj P) T3" using r(1) by (simp add: phase_inv_def)
    show "sat T3 (embed P y)" "length (embed P y) = ncols T3" using emb(1,3) r(2) by simp_all
    fix j assume j: "j < ncols T3"
    show "0 \<le> costs T3 ! j * embed P y ! j"
    proof (cases "phase2_allowed P 0 T1 j")
      case True
      then have "0 \<le> costs T3 ! j" using run_phase_optimal [OF run j] by simp
      moreover have "0 \<le> embed P y ! j" using emb(2,3) j r(2) by (simp add: nonneg_nth)
      ultimately show ?thesis by simp
    next
      case False
      then have "embed P y ! j = 0"
        using embed_artificial [OF ly] embed_positive_cost [OF wf p1 fy] j r(2)
        by (force simp: phase2_allowed_def)
      then show ?thesis by simp
    qed
  qed
  then show ?thesis using emb(5) by simp
qed

theorem phase2_unbounded:
  assumes wf: "wf_problem P" and p1: "phase1_result P T1"
    and run: "run_phase fuel 0 (phase2_allowed P 0 T1) (phase2_tableau P T1) = (Phase_Unbounded e, T3)"
  shows "\<exists>y. feasible P y \<and> M < objective_value P y"
proof -
  note r = run_phase2 [OF p1 run]
  have i: "obj_inv (phase2_obj P) T3" "tab_wf T3" "basis_ok T3" "rhs_nonneg T3"
    using r(1) by (simp_all add: phase_inv_def)
  note u = run_phase_unbounded [OF run]
  have "e < std_width P" "costs T1 ! e \<le> 0" using u(2) by (simp_all add: phase2_allowed_def)
  moreover have "\<forall>j < std_width P. 0 \<le> costs T1 ! j" using p1 by (simp add: phase1_result_def)
  ultimately have ce: "costs T1 ! e = 0" by force
  have nb: "e \<notin> set (basis T3)" using cost_nonbasic [OF i(2,3)] u(3) by simp
  obtain t where t: "0 \<le> t" "M < dot (phase2_obj P) (ray T3 e t)"
    using ray_unbounded [OF i(1-3) u(1)] u(3) by fastforce
  have len: "length (ray T3 e t) = std_width P" using r(2) by simp
  have "feasible P (take (length (obj_coeffs P)) (ray T3 e t))"
  proof (rule phase1_result_support [OF wf p1 len])
    show "sat (std_tableau P) (ray T3 e t)" using sat_ray [OF i(2,3) u(1)] r(3) by simp
    show "nonneg (ray T3 e t)" using ray_nonneg [OF i(2-4) u(1) nb u(4) t(1)] by simp
    fix j assume "j < std_width P" "costs T1 ! j \<noteq> 0"
    then show "ray T3 e t ! j = 0"
      using ray_support [OF i(2,3)] phase2_support [OF p1 run_phase_steps [OF run]] ce r(2) by fastforce
  qed
  moreover have "M < objective_value P (take (length (obj_coeffs P)) (ray T3 e t))"
    using t(2) phase2_obj_take [OF len] by simp
  ultimately show ?thesis by blast
qed

subsection \<open>Soundness of the reports\<close>

lemma solve_Optimal:
  assumes "eps cfg = 0" "solve cfg P = Optimal v x"
  obtains T1 T3 where
    "run_phase (maxiter cfg) 0 (\<lambda>j. True) (phase1_tableau P) = (Phase_Optimal, T1)"
    "\<not> zval T1 < 0"
    "run_phase (maxiter cfg) 0 (phase2_allowed P 0 T1) (phase2_tableau P T1) = (Phase_Optimal, T3)"
    "v = zval T3" "x = read_point T3 (length (obj_coeffs P))"
  using assms
  by (auto simp: solve_def split: prod.splits phase_exit.splits if_splits)

lemma solve_Infeasible:
  assumes "eps cfg = 0" "solve cfg P = Infeasible"
  obtains (p1_unbounded) e T1 where
      "run_phase (maxiter cfg) 0 (\<lambda>j. True) (phase1_tableau P) = (Phase_Unbounded e, T1)"
  | (p1_positive) T1 where
      "run_phase (maxiter cfg) 0 (\<lambda>j. True) (phase1_tableau P) = (Phase_Optimal, T1)"
      "zval T1 < 0"
  using assms
  by (auto simp: solve_def split: prod.splits phase_exit.splits if_splits)

lemma solve_Unbounded:
  assumes "eps cfg = 0" "solve cfg P = Unbounded"
  obtains T1 e T3 where
    "run_phase (maxiter cfg) 0 (\<lambda>j. True) (phase1_tableau P) = (Phase_Optimal, T1)"
    "\<not> zval T1 < 0"
    "run_phase (maxiter cfg) 0 (phase2_allowed P 0 T1) (phase2_tableau P T1) = (Phase_Unbounded e, T3)"
  using assms
  by (auto simp: solve_def split: prod.splits phase_exit.splits if_splits)

lemma solve_optimal_sound:
  assumes "eps cfg = 0" "wf_problem P" "solve cfg P = Optimal v x"
  shows "feasible P x \<and> v = objective_value P x \<and>
         (\<forall>y. feasible P y \<longrightarrow> objective_value P y \<le> v)"
proof -
  obtain T1 T3 where r:
    "run_phase (maxiter cfg) 0 (\<lambda>j. True) (phase1_tableau P) = (Phase_Optimal, T1)"
    "\<not> zval T1 < 0"
    "run_phase (maxiter cfg) 0 (phase2_allowed P 0 T1) (phase2_tableau P T1) = (Phase_Optimal, T3)"
    "v = zval T3" "x = read_point T3 (length (obj_coeffs P))"
    using solve_Optimal [OF assms(1,3)] by blast
  note p1 = phase1_resultI [OF assms(2) r(1,2)]
  show ?thesis
    using phase2_optimal_point [OF assms(2) p1 r(3)] phase2_optimal_max [OF assms(2) p1 r(3)] r(4,5)
    by simp
qed

lemma solve_infeasible_sound:
  assumes "eps cfg = 0" "wf_problem P" "solve cfg P = Infeasible"
  shows "\<forall>y. \<not> feasible P y"
  using assms(1,3)
proof (cases rule: solve_Infeasible)
  case (p1_unbounded e T1)
  then show ?thesis using phase1_never_unbounded [OF assms(2)] by blast
next
  case (p1_positive T1)
  then show ?thesis using phase1_infeasible [OF assms(2)] by blast
qed

lemma solve_unbounded_sound:
  assumes "eps cfg = 0" "wf_problem P" "solve cfg P = Unbounded"
  shows "\<forall>M. \<exists>y. feasible P y \<and> M < objective_value P y"
proof
  fix M
  obtain T1 e T3 where r:
    "run_phase (maxiter cfg) 0 (\<lambda>j. True) (phase1_tableau P) = (Phase_Optimal, T1)"
    "\<not> zval T1 < 0"
    "run_phase (maxiter cfg) 0 (phase2_allowed P 0 T1) (phase2_tableau P T1) = (Phase_Unbounded e, T3)"
    using solve_Unbounded [OF assms(1,3)] by blast
  note p1 = phase1_resultI [OF assms(2) r(1,2)]
  show "\<exists>y. feasible P y \<and> M < objective_value P y" using phase2_unbounded [OF assms(2) p1 r(3)] .
qed

lemma solve_report_correct:
  assumes "eps cfg = 0" "wf_problem P"
  shows "report_correct P (solve cfg P)"
  using solve_optimal_sound [OF assms] solve_infeasible_sound [OF assms]
    solve_unbounded_sound [OF assms]
  by (cases "solve cfg P") (simp_all add: report_correct_def)

text \<open>
  C1. When the solver reports \<open>Optimal v x\<close> (exact comparisons), the point
  \<open>x\<close> satisfies every constraint and the bounds \<open>x \<ge> 0\<close>, and \<open>v\<close> is the
  objective value at \<open>x\<close>.
\<close>

theorem solve_optimal_feasible:
  assumes "eps cfg = 0" "wf_problem P" "solve cfg P = Optimal v x"
  shows "feasible P x \<and> v = objective_value P x"
  using solve_optimal_sound [OF assms] by simp

text \<open>
  C2. The reported optimal value is at least the objective value of every
  feasible point: the report is a maximum.
\<close>

theorem solve_optimal_max:
  assumes "eps cfg = 0" "wf_problem P" "solve cfg P = Optimal v x" "feasible P y"
  shows "objective_value P y \<le> v"
  using solve_optimal_sound [OF assms(1-3)] assms(4) by blast

text \<open>C3. \<open>Infeasible\<close> is reported only for problems without a feasible point.\<close>

theorem solve_infeasible:
  assumes "eps cfg = 0" "wf_problem P" "solve cfg P = Infeasible"
  shows "\<not> feasible P y"
  using solve_infeasible_sound [OF assms] by simp

text \<open>
  C4. \<open>Unbounded\<close> is reported only when the objective takes arbitrarily
  large values on feasible points.
\<close>

theorem solve_unbounded:
  assumes "eps cfg = 0" "wf_problem P" "solve cfg P = Unbounded"
  shows "\<exists>y. feasible P y \<and> M < objective_value P y"
  using solve_unbounded_sound [OF assms] by simp

subsection \<open>The spec's instances and its tolerance\<close>




subsection \<open>Problems whose origin is feasible\<close>

lemma entering_zero_costs:
  "0 \<le> tol \<Longrightarrow> \<forall>x \<in> set c. x = 0 \<Longrightarrow> entering tol allowed c = None"
  by (force simp: entering_def filter_empty_conv dest: nth_mem)

lemma phase1_tableau_nonneg_rhs:
  assumes wf: "wf_problem P" and nn: "nonneg (rhs P)"
  shows "\<forall>x \<in> set (costs (phase1_tableau P)). x = 0" "zval (phase1_tableau P) = 0"
proof -
  have "n_art (rhs P) = 0"
    using nn by (simp add: n_art_def nonneg_def list_all_iff filter_empty_conv not_less)
  then have z: "\<forall>x \<in> set (costs (std_tableau P)). x = 0"
    by (simp add: std_tableau_def phase1_obj_def)
  then have "phase1_tableau P = std_tableau P"
    using price_out_zero_costs [OF std_tab_wf [OF wf] std_basis_units [OF wf]]
    by (simp add: phase1_tableau_def)
  then show "\<forall>x \<in> set (costs (phase1_tableau P)). x = 0" "zval (phase1_tableau P) = 0"
    using z by (simp_all add: std_tableau_def)
qed

text \<open>
  C29. When every right-hand side is non-negative the origin is feasible
  (spec section 8: a constraint with rhs 0 still yields a feasible region
  containing the origin): phase 1 has no artificial column and stops at once
  at its start, and \<open>solve\<close> never reports \<open>Infeasible\<close>, for every
  tolerance \<open>eps \<ge> 0\<close>, the spec's 1e-9 included.
\<close>

theorem solve_nonneg_rhs:
  assumes e: "0 \<le> eps cfg" and wf: "wf_problem P" and nn: "nonneg (rhs P)"
  shows "run_phase (maxiter cfg) (eps cfg) (\<lambda>j. True) (phase1_tableau P) =
           (Phase_Optimal, phase1_tableau P) \<and> solve cfg P \<noteq> Infeasible"
proof -
  note t = phase1_tableau_nonneg_rhs [OF wf nn]
  have r1: "run_phase (maxiter cfg) (eps cfg) (\<lambda>j. True) (phase1_tableau P) =
      (Phase_Optimal, phase1_tableau P)"
    using entering_zero_costs [OF e t(1)] by (simp add: run_phase.simps [of "maxiter cfg"])
  moreover have "solve cfg P \<noteq> Infeasible"
    using r1 t(2) e by (auto simp: solve_def split: prod.splits phase_exit.splits)
  ultimately show ?thesis by simp
qed

theorem solve_nonneg_rhs_witness:
  "solve \<lparr>eps = 1 / 10^9, maxiter = 50\<rparr>
     \<lparr>obj_coeffs = [1, 1, 1], lhs = [[1, 0, 0], [0, 1, 0]], rhs = [0, 3]\<rparr> \<noteq> Infeasible"
  using solve_nonneg_rhs [of "\<lparr>eps = 1 / 10^9, maxiter = 50\<rparr>"
      "\<lparr>obj_coeffs = [1, 1, 1], lhs = [[1, 0, 0], [0, 1, 0]], rhs = [0, 3]\<rparr>"]
  by (simp add: wf_problem_def nonneg_def)

subsection \<open>The reports on concrete problems\<close>

theorem solve_optimal_feasible_witness:
  "feasible \<lparr>obj_coeffs = [3, 2, 1], lhs = [[1, 1, 1]], rhs = [10]\<rparr> [10, 0, 0] \<and>
   30 = objective_value \<lparr>obj_coeffs = [3, 2, 1], lhs = [[1, 1, 1]], rhs = [10]\<rparr> [10, 0, 0]"
proof -
  have "solve \<lparr>eps = 0, maxiter = 50\<rparr>
          \<lparr>obj_coeffs = [3, 2, 1], lhs = [[1, 1, 1]], rhs = [10]\<rparr> = Optimal 30 [10, 0, 0]"
    by code_simp
  from solve_optimal_feasible [OF _ _ this] show ?thesis by (simp add: wf_problem_def)
qed

theorem solve_optimal_max_witness:
  "objective_value \<lparr>obj_coeffs = [3, 2, 1], lhs = [[1, 1, 1]], rhs = [10]\<rparr> [1, 1, 1] \<le> 30"
proof -
  have "solve \<lparr>eps = 0, maxiter = 50\<rparr>
          \<lparr>obj_coeffs = [3, 2, 1], lhs = [[1, 1, 1]], rhs = [10]\<rparr> = Optimal 30 [10, 0, 0]"
    by code_simp
  moreover have "feasible \<lparr>obj_coeffs = [3, 2, 1], lhs = [[1, 1, 1]], rhs = [10]\<rparr> [1, 1, 1]"
    by (simp add: feasible_def nonneg_def)
  ultimately show ?thesis
    by (rule solve_optimal_max [rotated 2]) (simp_all add: wf_problem_def)
qed

theorem solve_infeasible_witness:
  "\<not> feasible \<lparr>obj_coeffs = [1, 0, 0], lhs = [[1, 0, 0]], rhs = [-1]\<rparr> [0, 0, 0]"
proof -
  have "solve \<lparr>eps = 0, maxiter = 50\<rparr> \<lparr>obj_coeffs = [1, 0, 0], lhs = [[1, 0, 0]], rhs = [-1]\<rparr> = Infeasible"
    by code_simp
  from solve_infeasible [OF _ _ this] show ?thesis by (simp add: wf_problem_def)
qed

theorem solve_unbounded_witness:
  "\<exists>y. feasible \<lparr>obj_coeffs = [1, 0, 0], lhs = [[0, 1, 0]], rhs = [5]\<rparr> y \<and>
       100 < objective_value \<lparr>obj_coeffs = [1, 0, 0], lhs = [[0, 1, 0]], rhs = [5]\<rparr> y"
proof -
  have "solve \<lparr>eps = 0, maxiter = 50\<rparr> \<lparr>obj_coeffs = [1, 0, 0], lhs = [[0, 1, 0]], rhs = [5]\<rparr> = Unbounded"
    by code_simp
  from solve_unbounded [OF _ _ this] show ?thesis by (simp add: wf_problem_def)
qed

end
