(* ===== verification/Solver_Steps.thy ===== *)
theory Solver_Steps
  imports Simplex
begin

text \<open>
  The SimplexSolver as a transition system (spec 4.2, steps 2 and 3).
  \<open>visits P T1 T\<close> holds of every tableau \<open>T\<close> phase 2 passes through
  after a phase 1 that pivoted from the standard tableau to \<open>T1\<close>, stopped
  with no entering column and a phase-1 value that is not negative: the
  first state of phase 2 is \<open>phase2_tableau P T1\<close>, and every
  \<open>simplex_step\<close> on the columns phase 2 allows leads to another.
  \<open>solve\<close> is one run of this system (\<open>solve_visits\<close>).

  The invariants, by rule induction over \<open>visits\<close>: every vertex phase 2
  visits is a feasible point of the problem whose objective value is the
  tableau's \<open>zval\<close>, and no pivot lowers the objective value.
\<close>

inductive visits :: "lp_problem \<Rightarrow> tableau \<Rightarrow> tableau \<Rightarrow> bool"
  for P where
  phase2_start:
    "(simplex_step 0 (\<lambda>j. True))\<^sup>*\<^sup>* (phase1_tableau P) T1 \<Longrightarrow>
     entering 0 (\<lambda>j. True) (costs T1) = None \<Longrightarrow> \<not> zval T1 < 0 \<Longrightarrow>
     visits P T1 (phase2_tableau P T1)"
| phase2_pivot:
    "visits P T1 T \<Longrightarrow> simplex_step 0 (phase2_allowed P 0 T1) T T' \<Longrightarrow> visits P T1 T'"

lemma visits_steps:
  assumes "visits P T1 T" and wf: "wf_problem P"
  shows "phase1_result P T1 \<and> (simplex_step 0 (phase2_allowed P 0 T1))\<^sup>*\<^sup>* (phase2_tableau P T1) T"
  using assms(1)
proof (induction rule: visits.induct)
  case (phase2_start T1)
  then show ?case using phase1_steps_result [OF wf] by simp
next
  case (phase2_pivot T1 T T')
  then show ?case by (blast intro: rtranclp.rtrancl_into_rtrancl)
qed

lemma run_visits:
  assumes "visits P T1 T"
    and "run_phase fuel 0 (phase2_allowed P 0 T1) T = (x, T')"
  shows "visits P T1 T'"
  using run_phase_steps [OF assms(2)] assms(1)
  by (induction rule: rtranclp_induct) (auto intro: visits.phase2_pivot)

text \<open>
  C18. Every tableau phase 2 visits is a feasible vertex: the point read
  from it satisfies all constraints and \<open>x \<ge> 0\<close>, and its objective value
  is the tableau's \<open>zval\<close>.
\<close>

theorem visits_feasible:
  assumes "wf_problem P" and "visits P T1 T"
  shows "feasible P (read_point T (length (obj_coeffs P))) \<and>
         zval T = objective_value P (read_point T (length (obj_coeffs P)))"
  using visits_steps [OF assms(2,1)] phase2_vertex [OF assms(1)] by blast

text \<open>
  C19. No pivot of phase 2 lowers the objective: the vertex after a step
  has an objective value at least that of the vertex before it.
\<close>

theorem visits_objective_mono:
  assumes wf: "wf_problem P" and v: "visits P T1 T"
    and st: "simplex_step 0 (phase2_allowed P 0 T1) T T'"
  shows "objective_value P (read_point T (length (obj_coeffs P))) \<le>
         objective_value P (read_point T' (length (obj_coeffs P)))"
proof -
  have v': "visits P T1 T'" using visits.phase2_pivot [OF v st] .
  note s = visits_steps [OF v wf]
  have "phase_inv (phase2_obj P) T" using phase2_steps(1) s by blast
  then have "zval T \<le> zval T'" using simplex_step_inv [OF st] by blast
  then show ?thesis
    using phase2_vertex(2) [OF wf] s visits_steps [OF v' wf] by metis
qed

text \<open>
  C20. \<open>solve\<close> refines the transition system: an \<open>Optimal v x\<close> report
  (exact comparisons) comes from a tableau that phase 2 visits, at which no
  allowed column can enter, and \<open>v\<close> and \<open>x\<close> are read from it.
\<close>

theorem solve_visits:
  assumes "eps cfg = 0" and "solve cfg P = Optimal v x"
  shows "\<exists>T1 T. visits P T1 T \<and> entering 0 (phase2_allowed P 0 T1) (costs T) = None \<and>
           v = zval T \<and> x = read_point T (length (obj_coeffs P))"
proof -
  obtain T1 T3 where r:
    "run_phase (maxiter cfg) 0 (\<lambda>j. True) (phase1_tableau P) = (Phase_Optimal, T1)"
    "\<not> zval T1 < 0"
    "run_phase (maxiter cfg) 0 (phase2_allowed P 0 T1) (phase2_tableau P T1) = (Phase_Optimal, T3)"
    "v = zval T3" "x = read_point T3 (length (obj_coeffs P))"
    using solve_Optimal [OF assms] by blast
  have "visits P T1 (phase2_tableau P T1)"
    using visits.phase2_start [OF run_phase_steps [OF r(1)] _ r(2)] run_phase_exit [OF r(1)] by simp
  then have "visits P T1 T3" using run_visits [OF _ r(3)] by blast
  then show ?thesis using run_phase_exit [OF r(3)] r(4,5) by blast
qed

subsection \<open>The spec's known instance as a run\<close>

lemma spec_instance_visits:
  "visits \<lparr>obj_coeffs = [3, 2, 1], lhs = [[1, 1, 1]], rhs = [10]\<rparr>
     (phase1_tableau \<lparr>obj_coeffs = [3, 2, 1], lhs = [[1, 1, 1]], rhs = [10]\<rparr>)
     (phase2_tableau \<lparr>obj_coeffs = [3, 2, 1], lhs = [[1, 1, 1]], rhs = [10]\<rparr>
        (phase1_tableau \<lparr>obj_coeffs = [3, 2, 1], lhs = [[1, 1, 1]], rhs = [10]\<rparr>))"
proof (rule visits.phase2_start)
  show "entering 0 (\<lambda>j. True) (costs (phase1_tableau \<lparr>obj_coeffs = [3, 2, 1], lhs = [[1, 1, 1]], rhs = [10]\<rparr>)) = None"
    by code_simp
  show "\<not> zval (phase1_tableau \<lparr>obj_coeffs = [3, 2, 1], lhs = [[1, 1, 1]], rhs = [10]\<rparr>) < 0"
    by code_simp
qed simp

lemma spec_instance_step:
  "simplex_step 0
     (phase2_allowed \<lparr>obj_coeffs = [3, 2, 1], lhs = [[1, 1, 1]], rhs = [10]\<rparr> 0
        (phase1_tableau \<lparr>obj_coeffs = [3, 2, 1], lhs = [[1, 1, 1]], rhs = [10]\<rparr>))
     (phase2_tableau \<lparr>obj_coeffs = [3, 2, 1], lhs = [[1, 1, 1]], rhs = [10]\<rparr>
        (phase1_tableau \<lparr>obj_coeffs = [3, 2, 1], lhs = [[1, 1, 1]], rhs = [10]\<rparr>))
     (pivot (phase2_tableau \<lparr>obj_coeffs = [3, 2, 1], lhs = [[1, 1, 1]], rhs = [10]\<rparr>
        (phase1_tableau \<lparr>obj_coeffs = [3, 2, 1], lhs = [[1, 1, 1]], rhs = [10]\<rparr>)) 0 0)"
proof (rule simplex_step.pivot_iter)
  show "entering 0 (phase2_allowed \<lparr>obj_coeffs = [3, 2, 1], lhs = [[1, 1, 1]], rhs = [10]\<rparr> 0
        (phase1_tableau \<lparr>obj_coeffs = [3, 2, 1], lhs = [[1, 1, 1]], rhs = [10]\<rparr>))
     (costs (phase2_tableau \<lparr>obj_coeffs = [3, 2, 1], lhs = [[1, 1, 1]], rhs = [10]\<rparr>
        (phase1_tableau \<lparr>obj_coeffs = [3, 2, 1], lhs = [[1, 1, 1]], rhs = [10]\<rparr>))) = Some 0"
    by code_simp
  show "leaving 0 (phase2_tableau \<lparr>obj_coeffs = [3, 2, 1], lhs = [[1, 1, 1]], rhs = [10]\<rparr>
        (phase1_tableau \<lparr>obj_coeffs = [3, 2, 1], lhs = [[1, 1, 1]], rhs = [10]\<rparr>)) 0 = Some 0"
    by code_simp
qed

theorem visits_feasible_witness:
  "feasible \<lparr>obj_coeffs = [3, 2, 1], lhs = [[1, 1, 1]], rhs = [10]\<rparr> [10, 0, 0] \<and>
   zval (pivot (phase2_tableau \<lparr>obj_coeffs = [3, 2, 1], lhs = [[1, 1, 1]], rhs = [10]\<rparr>
        (phase1_tableau \<lparr>obj_coeffs = [3, 2, 1], lhs = [[1, 1, 1]], rhs = [10]\<rparr>)) 0 0) = 30"
proof -
  have rp: "read_point (pivot (phase2_tableau \<lparr>obj_coeffs = [3, 2, 1], lhs = [[1, 1, 1]], rhs = [10]\<rparr>
        (phase1_tableau \<lparr>obj_coeffs = [3, 2, 1], lhs = [[1, 1, 1]], rhs = [10]\<rparr>)) 0 0) (Suc (Suc (Suc 0))) = [10, 0, 0]"
    by code_simp
  have "wf_problem \<lparr>obj_coeffs = [3, 2, 1], lhs = [[1, 1, 1]], rhs = [10]\<rparr>"
    by (simp add: wf_problem_def)
  from visits_feasible [OF this visits.phase2_pivot [OF spec_instance_visits spec_instance_step]]
  show ?thesis using rp by (simp add: objective_value_def)
qed

theorem visits_objective_mono_witness:
  "objective_value \<lparr>obj_coeffs = [3, 2, 1], lhs = [[1, 1, 1]], rhs = [10]\<rparr> [0, 0, 0] \<le>
   objective_value \<lparr>obj_coeffs = [3, 2, 1], lhs = [[1, 1, 1]], rhs = [10]\<rparr> [10, 0, 0]"
proof -
  have rp: "read_point (phase2_tableau \<lparr>obj_coeffs = [3, 2, 1], lhs = [[1, 1, 1]], rhs = [10]\<rparr>
        (phase1_tableau \<lparr>obj_coeffs = [3, 2, 1], lhs = [[1, 1, 1]], rhs = [10]\<rparr>)) (Suc (Suc (Suc 0))) = [0, 0, 0]"
    "read_point (pivot (phase2_tableau \<lparr>obj_coeffs = [3, 2, 1], lhs = [[1, 1, 1]], rhs = [10]\<rparr>
        (phase1_tableau \<lparr>obj_coeffs = [3, 2, 1], lhs = [[1, 1, 1]], rhs = [10]\<rparr>)) 0 0) (Suc (Suc (Suc 0))) = [10, 0, 0]"
    by code_simp+
  have "wf_problem \<lparr>obj_coeffs = [3, 2, 1], lhs = [[1, 1, 1]], rhs = [10]\<rparr>"
    by (simp add: wf_problem_def)
  from visits_objective_mono [OF this spec_instance_visits spec_instance_step]
  show ?thesis using rp by simp
qed

theorem solve_visits_witness:
  "\<exists>T1 T. visits \<lparr>obj_coeffs = [3, 2, 1], lhs = [[1, 1, 1]], rhs = [10]\<rparr> T1 T \<and>
     entering 0 (phase2_allowed \<lparr>obj_coeffs = [3, 2, 1], lhs = [[1, 1, 1]], rhs = [10]\<rparr> 0 T1) (costs T) = None \<and>
     30 = zval T \<and> [10, 0, 0] = read_point T (length [3, 2, 1::real])"
proof -
  have "solve \<lparr>eps = 0, maxiter = 50\<rparr> \<lparr>obj_coeffs = [3, 2, 1], lhs = [[1, 1, 1]], rhs = [10]\<rparr> =
          Optimal 30 [10, 0, 0]"
    by code_simp
  from solve_visits [OF _ this] show ?thesis by (simp only: lp_problem.select_convs) simp
qed

end
