(* ===== verification/Cycling.thy ===== *)
theory Cycling
  imports Solver_Steps
begin

text \<open>
  The entering rule of spec 4.2 is Dantzig's (most negative reduced cost,
  lowest index on ties), not Bland's; with it the simplex method can cycle,
  and the spec's "guards against cycling" does not hold. \<open>cycling_lp\<close> is a
  three-variable problem of the script's kind on which it does: maximise
  \<open>x - 2y\<close> subject to \<open>x/2 + 5y - 9z \<le> 0\<close>, \<open>x/2 + 3y - 8z \<le> 0\<close>,
  \<open>x/2 + y/2 - 2z \<le> 0\<close>, \<open>x + y + z \<le> 1\<close>. All right-hand sides but the
  last are 0, so every pivot of phase 2 is degenerate; the bases visited are
  \<open>{3,4,5,6}\<close>, \<open>{0,4,5,6}\<close>, \<open>{0,2,5,6}\<close>, \<open>{0,2,1,6}\<close>, \<open>{3,2,1,6}\<close>,
  \<open>{3,4,1,6}\<close> and then \<open>{3,4,5,6}\<close> again, the tableaux of
  \<open>cycle_tableaux\<close>. The problem has the optimum \<open>4/5\<close> at
  \<open>(4/5, 0, 1/5)\<close>, which \<open>solve\<close> never reports: it returns
  \<open>Iteration_Limit\<close> for every budget, and every vertex phase 2 visits has
  objective value 0. With Bland's rule (the lowest-index improving column)
  the same problem is solved in seven pivots.
\<close>

definition cycling_lp :: lp_problem where
  "cycling_lp =
     \<lparr>obj_coeffs = [1, -2, 0],
      lhs = [[1/2, 5, -9], [1/2, 3, -8], [1/2, 1/2, -2], [1, 1, 1]],
      rhs = [0, 0, 0, 1]\<rparr>"

definition cycle_tableaux :: "tableau list" where
  "cycle_tableaux =
    [\<lparr>rows = [[1/2, 5, -9, 1, 0, 0, 0], [1/2, 3, -8, 0, 1, 0, 0],
              [1/2, 1/2, -2, 0, 0, 1, 0], [1, 1, 1, 0, 0, 0, 1]],
      rhs_col = [0, 0, 0, 1], costs = [-1, 2, 0, 0, 0, 0, 0], zval = 0, basis = [3, 4, 5, 6]\<rparr>,
     \<lparr>rows = [[1, 10, -18, 2, 0, 0, 0], [0, -2, 1, -1, 1, 0, 0],
              [0, -9/2, 7, -1, 0, 1, 0], [0, -9, 19, -2, 0, 0, 1]],
      rhs_col = [0, 0, 0, 1], costs = [0, 12, -18, 2, 0, 0, 0], zval = 0, basis = [0, 4, 5, 6]\<rparr>,
     \<lparr>rows = [[1, -26, 0, -16, 18, 0, 0], [0, -2, 1, -1, 1, 0, 0],
              [0, 19/2, 0, 6, -7, 1, 0], [0, 29, 0, 17, -19, 0, 1]],
      rhs_col = [0, 0, 0, 1], costs = [0, -24, 0, -16, 18, 0, 0], zval = 0, basis = [0, 2, 5, 6]\<rparr>,
     \<lparr>rows = [[1, 0, 0, 8/19, -22/19, 52/19, 0], [0, 0, 1, 5/19, -9/19, 4/19, 0],
              [0, 1, 0, 12/19, -14/19, 2/19, 0], [0, 0, 0, -25/19, 45/19, -58/19, 1]],
      rhs_col = [0, 0, 0, 1], costs = [0, 0, 0, -16/19, 6/19, 48/19, 0], zval = 0,
      basis = [0, 2, 1, 6]\<rparr>,
     \<lparr>rows = [[19/8, 0, 0, 1, -11/4, 13/2, 0], [-5/8, 0, 1, 0, 1/4, -3/2, 0],
              [-3/2, 1, 0, 0, 1, -4, 0], [25/8, 0, 0, 0, -5/4, 11/2, 1]],
      rhs_col = [0, 0, 0, 1], costs = [2, 0, 0, 0, -2, 8, 0], zval = 0, basis = [3, 2, 1, 6]\<rparr>,
     \<lparr>rows = [[-9/2, 0, 11, 1, 0, -10, 0], [-5/2, 0, 4, 0, 1, -6, 0],
              [1, 1, -4, 0, 0, 2, 0], [0, 0, 5, 0, 0, -2, 1]],
      rhs_col = [0, 0, 0, 1], costs = [-3, 0, 8, 0, 0, -4, 0], zval = 0, basis = [3, 4, 1, 6]\<rparr>]"

lemma cycling_start:
  "phase2_tableau cycling_lp (phase1_tableau cycling_lp) = cycle_tableaux ! 0"
  by code_simp

lemma cycling_phase1:
  "entering 0 (\<lambda>j. True) (costs (phase1_tableau cycling_lp)) = None"
  by code_simp

lemma cycling_pivots:
  "\<forall>k < 6. phase_iter 1 0 (phase2_allowed cycling_lp 0 (phase1_tableau cycling_lp))
              ((cycle_tableaux @ [cycle_tableaux ! 0]) ! k) =
            Some ((cycle_tableaux @ [cycle_tableaux ! 0]) ! Suc k)"
  by code_simp

lemma length_cycle_tableaux: "length cycle_tableaux = 6"
  by (simp add: cycle_tableaux_def)

lemma cycling_cycle:
  "phase_iter 6 0 (phase2_allowed cycling_lp 0 (phase1_tableau cycling_lp)) (cycle_tableaux ! 0) =
     Some (cycle_tableaux ! 0)"
  using phase_iter_chain [OF cycling_pivots] length_cycle_tableaux by (simp add: nth_append)

lemma cycling_phase1_run:
  "run_phase k 0 (\<lambda>j. True) (phase1_tableau cycling_lp) = (Phase_Optimal, phase1_tableau cycling_lp)"
  by (subst run_phase.simps) (simp add: cycling_phase1)

lemma cycling_phase1_zval: "zval (phase1_tableau cycling_lp) = 0"
  by code_simp

lemma cycling_no_phase1_step: "\<not> simplex_step 0 (\<lambda>j. True) (phase1_tableau cycling_lp) T"
  by (auto elim: simplex_stepE simp: cycling_phase1)

lemma cycling_optimum:
  assumes "feasible cycling_lp y"
  shows "objective_value cycling_lp y \<le> 4/5"
proof -
  obtain a b c where y: "y = [a, b, c]"
    using assms by (auto simp: feasible_def cycling_lp_def length_Suc_conv numeral_3_eq_3)
  have "0 \<le> b" "a / 2 + b / 2 - 2 * c \<le> 0" "a + b + c \<le> 1"
    using assms by (simp_all add: feasible_def cycling_lp_def y nonneg_def)
  then show ?thesis by (simp add: objective_value_def cycling_lp_def y)
qed

lemma cycling_visits_set:
  assumes "visits cycling_lp T1 T"
  shows "T \<in> set cycle_tableaux"
  using assms
proof (induction rule: visits.induct)
  case (phase2_start T1)
  then have "T1 = phase1_tableau cycling_lp"
    using cycling_no_phase1_step by (auto elim: converse_rtranclpE)
  then show ?case using cycling_start length_cycle_tableaux by (simp add: nth_mem)
next
  case (phase2_pivot T1 T T')
  have "T1 = phase1_tableau cycling_lp"
    using phase2_pivot(1) by (induction rule: visits.induct)
      (auto elim: converse_rtranclpE simp: cycling_no_phase1_step)
  then obtain k where k: "k < 6" "T = cycle_tableaux ! k"
    using phase2_pivot(3) length_cycle_tableaux by (auto simp: in_set_conv_nth)
  then have "Some T' = Some ((cycle_tableaux @ [cycle_tableaux ! 0]) ! Suc k)"
    using cycling_pivots simplex_step_iter [OF phase2_pivot(2)] \<open>T1 = _\<close> length_cycle_tableaux
    by (simp add: nth_append)
  then show ?case using k length_cycle_tableaux
    by (cases "Suc k = 6") (simp_all add: nth_append nth_mem)
qed

text \<open>
  C21. On \<open>cycling_lp\<close>, which has the optimum \<open>4/5\<close> at
  \<open>(4/5, 0, 1/5)\<close>, the solver with exact comparisons returns
  \<open>Iteration_Limit\<close> whatever its iteration budget: phase 2 cycles.
\<close>

theorem solve_cycles:
  "solve \<lparr>eps = 0, maxiter = k\<rparr> cycling_lp = Iteration_Limit \<and>
   feasible cycling_lp [4/5, 0, 1/5] \<and> objective_value cycling_lp [4/5, 0, 1/5] = 4/5 \<and>
   \<not> (\<exists>y. feasible cycling_lp y \<and> 4/5 < objective_value cycling_lp y)"
proof (intro conjI)
  have "fst (run_phase k 0 (phase2_allowed cycling_lp 0 (phase1_tableau cycling_lp))
              (phase2_tableau cycling_lp (phase1_tableau cycling_lp))) = Phase_Limit"
    unfolding cycling_start by (rule run_phase_cycle [OF cycling_cycle [unfolded numeral_eq_Suc pred_numeral_simps]])
  then obtain T3 where "run_phase k 0 (phase2_allowed cycling_lp 0 (phase1_tableau cycling_lp))
              (phase2_tableau cycling_lp (phase1_tableau cycling_lp)) = (Phase_Limit, T3)"
    by (cases "run_phase k 0 (phase2_allowed cycling_lp 0 (phase1_tableau cycling_lp))
              (phase2_tableau cycling_lp (phase1_tableau cycling_lp))") simp
  then show "solve \<lparr>eps = 0, maxiter = k\<rparr> cycling_lp = Iteration_Limit"
    by (simp add: solve_def cycling_phase1_run cycling_phase1_zval)
  show "feasible cycling_lp [4/5, 0, 1/5]"
    by (simp add: feasible_def cycling_lp_def nonneg_def)
  show "objective_value cycling_lp [4/5, 0, 1/5] = 4/5"
    by (simp add: objective_value_def cycling_lp_def)
  show "\<not> (\<exists>y. feasible cycling_lp y \<and> 4/5 < objective_value cycling_lp y)"
    using cycling_optimum by force
qed

text \<open>
  C22. Phase 2 on \<open>cycling_lp\<close> never gets anywhere: every vertex it visits
  has objective value 0, short of the optimum \<open>4/5\<close>.
\<close>

theorem cycling_stuck:
  assumes "visits cycling_lp T1 T"
  shows "objective_value cycling_lp (read_point T (length (obj_coeffs cycling_lp))) = 0"
proof -
  have wf: "wf_problem cycling_lp" by (simp add: wf_problem_def cycling_lp_def)
  have "zval T = 0"
    using cycling_visits_set [OF assms] by (auto simp: cycle_tableaux_def)
  then show ?thesis using phase2_vertex(2) [OF wf] visits_steps [OF assms wf] by metis
qed

theorem cycling_stuck_witness:
  "objective_value cycling_lp (read_point (cycle_tableaux ! 0) (length (obj_coeffs cycling_lp))) = 0"
proof -
  have "visits cycling_lp (phase1_tableau cycling_lp) (cycle_tableaux ! 0)"
    using visits.phase2_start [of cycling_lp "phase1_tableau cycling_lp"]
      cycling_phase1 cycling_phase1_zval cycling_start by simp
  from cycling_stuck [OF this] show ?thesis .
qed

end
