(* ===== verification/Phase_Termination.thy ===== *)
theory Phase_Termination
  imports Solver_Steps
begin

text \<open>
  Termination of the SimplexSolver's phases (spec 4.2, step 2 "Iterate").
  With exact comparisons a pivot on a row whose right-hand side is positive
  strictly raises the tableau's value \<open>zval\<close>, and the value of a tableau
  depends only on the set of its basic columns (\<open>zval_same_basis\<close>). So a
  phase none of whose pivots is degenerate never sees the same basis set
  twice, and it stops within \<open>2 ^ ncols\<close> iterations: by pigeonhole, a
  longer run would need more basis sets than there are sets of columns.
\<close>

definition nondegenerate :: "tableau \<Rightarrow> bool" where
  "nondegenerate T \<longleftrightarrow> list_all (\<lambda>b. 0 < b) (rhs_col T)"

abbreviation spec_lp :: lp_problem where
  "spec_lp \<equiv> \<lparr>obj_coeffs = [3, 2, 1], lhs = [[1, 1, 1]], rhs = [10]\<rparr>"

subsection \<open>Iterations as steps\<close>

lemma phase_iter_Suc:
  "phase_iter (Suc k) tol allowed T =
     (case phase_iter k tol allowed T of None \<Rightarrow> None | Some U \<Rightarrow> phase_iter 1 tol allowed U)"
proof (induction k arbitrary: T)
  case (Suc k)
  show ?case
  proof (cases "entering tol allowed (costs T)")
    case (Some e)
    then show ?thesis using Suc.IH by (cases "leaving tol T e") simp_all
  qed simp
qed simp

lemma phase_iter_steps:
  "phase_iter k tol allowed T = Some U \<Longrightarrow> (simplex_step tol allowed)\<^sup>*\<^sup>* T U"
  by (induction k arbitrary: T)
     (auto split: option.splits intro: converse_rtranclp_into_rtranclp simplex_step.intros)

lemma phase_iter_one_step:
  "phase_iter 1 tol allowed T = Some U \<Longrightarrow> simplex_step tol allowed T U"
  by (auto split: option.splits intro: simplex_step.intros)

lemma phase_limit_iter:
  "fst (run_phase f tol allowed T) = Phase_Limit \<Longrightarrow> phase_iter (Suc f) tol allowed T \<noteq> None"
proof (induction f arbitrary: T)
  case 0
  then show ?case by (auto simp: run_phase.simps [of 0] split: option.splits)
next
  case (Suc f)
  then obtain e r where en: "entering tol allowed (costs T) = Some e"
    and lv: "leaving tol T e = Some r" and lim: "fst (run_phase f tol allowed (pivot T r e)) = Phase_Limit"
    by (auto simp: run_phase.simps [of "Suc f"] split: option.splits)
  then show ?case using Suc.IH [OF lim] by simp
qed

subsection \<open>A non-degenerate pivot raises the value\<close>

lemma simplex_step_strict:
  assumes st: "simplex_step 0 allowed T T'" and wf: "tab_wf T" and nd: "nondegenerate T"
  shows "zval T < zval T'"
proof -
  obtain e r where t': "T' = pivot T r e" and en: "entering 0 allowed (costs T) = Some e"
    and lv: "leaving 0 T e = Some r"
    using st by (auto elim: simplex_stepE)
  have c: "costs T ! e < 0" using entering_Some(3) [OF en] by simp
  have p: "0 < rows T ! r ! e" and r: "r < nrows T" using leaving_Some(1,2) [OF lv] by simp_all
  have "0 < rhs_col T ! r" using nd r wf by (simp add: nondegenerate_def list_all_length tab_wf_def)
  then have "costs T ! e * (rhs_col T ! r / rows T ! r ! e) < 0"
    by (rule mult_neg_pos [OF c divide_pos_pos [OF _ p]])
  then show ?thesis by (simp add: t' pivot_zval)
qed

lemma basis_subset_cols:
  assumes "tab_wf T" "basis_ok T"
  shows "set (basis T) \<subseteq> {..<ncols T}"
  using assms by (auto simp: in_set_conv_nth tab_wf_def basis_ok_def)

subsection \<open>The pigeonhole bound\<close>

text \<open>
  A phase started at a tableau satisfying the phase invariant, all of whose
  reachable tableaux are non-degenerate, does not exhaust a budget of
  \<open>2 ^ ncols\<close> iterations.
\<close>

lemma run_phase_no_limit:
  assumes inv: "phase_inv c T"
    and nd: "\<And>U. (simplex_step 0 allowed)\<^sup>*\<^sup>* T U \<Longrightarrow> nondegenerate U"
    and fuel: "2 ^ ncols T \<le> fuel"
  shows "fst (run_phase fuel 0 allowed T) \<noteq> Phase_Limit"
proof
  assume "fst (run_phase fuel 0 allowed T) = Phase_Limit"
  then have some: "phase_iter (Suc fuel) 0 allowed T \<noteq> None" by (rule phase_limit_iter)
  define S where "S k = the (phase_iter k 0 allowed T)" for k
  have it: "phase_iter k 0 allowed T = Some (S k)" if "k \<le> Suc fuel" for k
    using phase_iter_prefix [OF some that] by (auto simp: S_def)
  have reach: "(simplex_step 0 allowed)\<^sup>*\<^sup>* T (S k)" if "k \<le> Suc fuel" for k
    using phase_iter_steps [OF it [OF that]] .
  have sinv: "phase_inv c (S k) \<and> ncols (S k) = ncols T \<and> (\<forall>v. sat (S k) v \<longleftrightarrow> sat T v)"
    if "k \<le> Suc fuel" for k
    using simplex_steps_inv [OF reach [OF that] inv] by simp
  have lt: "zval (S k) < zval (S (Suc k))" if "k < Suc fuel" for k
  proof -
    have "phase_iter 1 0 allowed (S k) = Some (S (Suc k))"
      using phase_iter_Suc [of k 0 allowed T] it [of k] it [of "Suc k"] that by simp
    then show ?thesis
      using simplex_step_strict [OF phase_iter_one_step] sinv [of k] nd [OF reach [of k]] that
      by (simp add: phase_inv_def)
  qed
  have mono: "zval (S k) < zval (S l)" if "k < l" "l \<le> Suc fuel" for k l
    using that
  proof (induction l)
    case (Suc l)
    then show ?case using lt [of l] by (cases "k = l") auto
  qed simp
  have same: "zval (S k) = zval (S l)"
    if "k \<le> Suc fuel" "l \<le> Suc fuel" "set (basis (S k)) = set (basis (S l))" for k l
    using zval_same_basis [of "S l" c "S k"] sinv [OF that(1)] sinv [OF that(2)] that(3)
    by (simp add: phase_inv_def)
  have inj: "inj_on (\<lambda>k. set (basis (S k))) {..Suc fuel}"
  proof (rule inj_onI)
    fix k l assume "k \<in> {..Suc fuel}" "l \<in> {..Suc fuel}"
      and eq: "set (basis (S k)) = set (basis (S l))"
    then have k: "k \<le> Suc fuel" and l: "l \<le> Suc fuel" by auto
    show "k = l"
    proof (rule linorder_cases [of k l])
      assume "k < l" then show ?thesis using mono [OF _ l] same [OF k l eq] by (metis less_irrefl)
    next
      assume "l < k" then show ?thesis using mono [OF _ k] same [OF k l eq] by (metis less_irrefl)
    qed
  qed
  have sub: "(\<lambda>k. set (basis (S k))) ` {..Suc fuel} \<subseteq> Pow {..<ncols T}"
    using basis_subset_cols sinv by (fastforce simp: phase_inv_def)
  have "Suc (Suc fuel) = card ((\<lambda>k. set (basis (S k))) ` {..Suc fuel})"
    using card_image [OF inj] by simp
  also have "\<dots> \<le> card (Pow {..<ncols T})" by (rule card_mono [OF _ sub]) simp
  also have "\<dots> = 2 ^ ncols T" by (simp add: card_Pow)
  finally show False using fuel by simp
qed

subsection \<open>Termination of the solver\<close>

lemma visits_reach:
  "(simplex_step 0 (phase2_allowed P 0 T1))\<^sup>*\<^sup>* T T' \<Longrightarrow> visits P T1 T \<Longrightarrow> visits P T1 T'"
  by (induction rule: rtranclp_induct) (auto intro: visits.phase2_pivot)

text \<open>
  C28. With exact comparisons, a well-formed problem on which no pivot of
  either phase is degenerate is decided within a budget of
  \<open>2 ^ std_width P\<close> iterations: \<open>solve\<close> does not give up with its
  iteration-limit report, so its report is one of the three answers of the
  contract, and that answer is right.
\<close>

theorem solve_terminates:
  assumes e: "eps cfg = 0" and wf: "wf_problem P" and fuel: "2 ^ std_width P \<le> maxiter cfg"
    and nd1: "\<forall>T. (simplex_step 0 (\<lambda>j. True))\<^sup>*\<^sup>* (phase1_tableau P) T \<longrightarrow> nondegenerate T"
    and nd2: "\<forall>T1 T. visits P T1 T \<longrightarrow> nondegenerate T"
  shows "solve cfg P \<noteq> Iteration_Limit \<and> report_correct P (solve cfg P)"
proof -
  obtain x1 T1 where r1: "run_phase (maxiter cfg) 0 (\<lambda>j. True) (phase1_tableau P) = (x1, T1)"
    by fastforce
  have x1: "x1 \<noteq> Phase_Limit"
    using run_phase_no_limit [OF phase1_tableau_inv(1) [OF wf], of "\<lambda>j. True" "maxiter cfg"]
      nd1 fuel r1 phase1_tableau_inv(2) [OF wf] by auto
  have "solve cfg P \<noteq> Iteration_Limit"
  proof (cases "x1 = Phase_Optimal \<and> \<not> zval T1 < 0")
    case True
    then have p1: "phase1_result P T1" using phase1_resultI [OF wf] r1 by blast
    have v: "visits P T1 (phase2_tableau P T1)"
      using visits.phase2_start [OF run_phase_steps [OF r1] _] run_phase_exit [OF r1] True by simp
    obtain x3 T3 where
      r3: "run_phase (maxiter cfg) 0 (phase2_allowed P 0 T1) (phase2_tableau P T1) = (x3, T3)"
      by fastforce
    have "x3 \<noteq> Phase_Limit"
      using run_phase_no_limit [OF phase2_tableau_inv(1) [OF p1], of "phase2_allowed P 0 T1" "maxiter cfg"]
        nd2 visits_reach [OF _ v] fuel r3 phase2_tableau_inv(2) [OF p1] by auto
    then show ?thesis using True r1 r3 e by (cases x3) (auto simp: solve_def)
  next
    case False
    then show ?thesis using x1 r1 e by (cases x1) (auto simp: solve_def)
  qed
  then show ?thesis using solve_report_correct [OF e wf] by simp
qed

lemma spec_lp_phase1_stuck: "entering 0 (\<lambda>j. True) (costs (phase1_tableau spec_lp)) = None"
  by code_simp

lemma spec_lp_visits_set:
  assumes "visits spec_lp T1 T"
  shows "T1 = phase1_tableau spec_lp \<and>
    (T = phase2_tableau spec_lp T1 \<or> T = pivot (phase2_tableau spec_lp T1) 0 0)"
  using assms
proof (induction rule: visits.induct)
  case (phase2_start T1)
  then show ?case using spec_lp_phase1_stuck by (auto elim: converse_rtranclpE elim!: simplex_stepE)
next
  case (phase2_pivot T1 T T')
  have "entering 0 (phase2_allowed spec_lp 0 (phase1_tableau spec_lp))
     (costs (pivot (phase2_tableau spec_lp (phase1_tableau spec_lp)) 0 0)) = None"
    by code_simp
  then show ?case using phase2_pivot simplex_step_det [OF _ spec_instance_step]
    by (auto elim: simplex_stepE)
qed

lemma spec_lp_phase1_nondegenerate:
  "(simplex_step 0 (\<lambda>j. True))\<^sup>*\<^sup>* (phase1_tableau spec_lp) T \<Longrightarrow> nondegenerate T"
proof -
  have "nondegenerate (phase1_tableau spec_lp)" by code_simp
  then show "(simplex_step 0 (\<lambda>j. True))\<^sup>*\<^sup>* (phase1_tableau spec_lp) T \<Longrightarrow> nondegenerate T"
    using spec_lp_phase1_stuck by (auto elim: converse_rtranclpE elim!: simplex_stepE)
qed

lemma spec_lp_phase2_nondegenerate:
  "visits spec_lp T1 T \<Longrightarrow> nondegenerate T"
proof -
  have "nondegenerate (phase2_tableau spec_lp (phase1_tableau spec_lp))" by code_simp
  moreover have "nondegenerate (pivot (phase2_tableau spec_lp (phase1_tableau spec_lp)) 0 0)"
    by code_simp
  ultimately show "visits spec_lp T1 T \<Longrightarrow> nondegenerate T" using spec_lp_visits_set by blast
qed

theorem solve_terminates_witness:
  "solve \<lparr>eps = 0, maxiter = 50\<rparr> spec_lp \<noteq> Iteration_Limit"
proof -
  have "wf_problem spec_lp" by (simp add: wf_problem_def)
  moreover have "2 ^ std_width spec_lp \<le> maxiter \<lparr>eps = 0, maxiter = 50\<rparr>" by code_simp
  ultimately show ?thesis
    using solve_terminates [of "\<lparr>eps = 0, maxiter = 50\<rparr>" spec_lp]
    by (simp add: spec_lp_phase1_nondegenerate spec_lp_phase2_nondegenerate)
qed

end
