(* ===== verification/Console.thy ===== *)
theory Console
  imports LPP_Prelude
begin

text \<open>
  The console of src/Lpp.py. Standard input is a list of lines, standard
  output (and the matplotlib figure, which the script also writes to) a list
  of events. A line is modelled by what Python's conversions make of it:
  \<open>Int_Line k\<close> is an integer literal (\<open>int()\<close> gives \<open>k\<close>, \<open>float()\<close>
  gives \<open>k\<close>), \<open>Float_Line r\<close> a float literal that is not an integer
  literal such as "2.5" or "1e3" (\<open>int()\<close> raises ValueError), and
  \<open>Bad_Line\<close> a line both reject.

  A statement of the script is a function \<open>'a py\<close> from the console to a
  result and the new console; the result is \<open>Inl\<close> of the exception it
  raises or \<open>Inr\<close> of its value. \<open>py_bind\<close> runs the rest of the script
  only when the first part returned normally, as an exception propagates.
  The console is kept on an exception, so the output printed before a crash
  is part of the result.
\<close>

datatype in_line = Int_Line int | Float_Line real | Bad_Line

datatype py_error = ValueError | EOFError | IndexError

type_synonym grid = "real list list"
type_synonym surface = "real option list list"

datatype out_event =
    Text string
  | Constraint_Header nat
  | Optimal_Value real
  | Coordinates real real real
  | Surface grid grid surface string
  | Figure
  | Axes_3D
  | Scatter real real real
  | Axis_Label string string
  | Title real
  | Show

record console =
  stdin :: "in_line list"
  stdout :: "out_event list"

type_synonym 'a py = "console \<Rightarrow> (py_error + 'a) \<times> console"

definition py_return :: "'a \<Rightarrow> 'a py" where
  "py_return a w = (Inr a, w)"

definition py_raise :: "py_error \<Rightarrow> 'a py" where
  "py_raise e w = (Inl e, w)"

definition py_bind :: "'a py \<Rightarrow> ('a \<Rightarrow> 'b py) \<Rightarrow> 'b py" where
  "py_bind m f w = (case m w of (Inl e, w') \<Rightarrow> (Inl e, w') | (Inr a, w') \<Rightarrow> f a w')"

definition py_print :: "out_event \<Rightarrow> unit py" where
  "py_print ev w = (Inr (), w\<lparr>stdout := stdout w @ [ev]\<rparr>)"

text \<open>\<open>input(prompt)\<close>: writes the prompt, then reads a line; EOFError at the end of input.\<close>

definition py_input :: "string \<Rightarrow> in_line py" where
  "py_input prompt w =
     (let w' = w\<lparr>stdout := stdout w @ [Text prompt]\<rparr>
      in case stdin w of
           [] \<Rightarrow> (Inl EOFError, w')
         | l # ls \<Rightarrow> (Inr l, w'\<lparr>stdin := ls\<rparr>))"

definition py_float :: "in_line \<Rightarrow> real py" where
  "py_float l =
     (case l of Int_Line k \<Rightarrow> py_return (real_of_int k)
              | Float_Line r \<Rightarrow> py_return r
              | Bad_Line \<Rightarrow> py_raise ValueError)"

definition py_int :: "in_line \<Rightarrow> int py" where
  "py_int l =
     (case l of Int_Line k \<Rightarrow> py_return k
              | _ \<Rightarrow> py_raise ValueError)"

definition input_float :: "string \<Rightarrow> real py" where
  "input_float prompt = py_bind (py_input prompt) py_float"

definition input_int :: "string \<Rightarrow> int py" where
  "input_int prompt = py_bind (py_input prompt) py_int"

text \<open>
  The frame of a statement: whatever it returns or raises, it leaves the
  output written so far in place and appends to it, and it consumes a prefix
  of the input (a Python program cannot unprint a line or unread one).
\<close>

definition console_frame :: "'a py \<Rightarrow> bool" where
  "console_frame m \<longleftrightarrow>
     (\<forall>w r w'. m w = (r, w') \<longrightarrow>
        (\<exists>new. stdout w' = stdout w @ new) \<and> (\<exists>used. stdin w = used @ stdin w'))"

subsection \<open>Evaluation rules\<close>

lemma py_bind_return [simp]: "py_bind (py_return a) f = f a"
  by (simp add: py_bind_def py_return_def fun_eq_iff)

lemma py_bind_raise [simp]: "py_bind (py_raise e) f = py_raise e"
  by (simp add: py_bind_def py_raise_def fun_eq_iff)

lemma py_bind_assoc:
  "py_bind (py_bind m f) g = py_bind m (\<lambda>a. py_bind (f a) g)"
  by (auto simp: py_bind_def fun_eq_iff split: prod.splits sum.splits)

lemma py_bind_apply:
  "py_bind m f w = (case m w of (Inl e, w') \<Rightarrow> (Inl e, w') | (Inr a, w') \<Rightarrow> f a w')"
  by (simp add: py_bind_def)

lemma py_print_apply: "py_print ev w = (Inr (), w\<lparr>stdout := stdout w @ [ev]\<rparr>)"
  by (simp add: py_print_def)

lemma py_bind_Inl:
  "fst (m w) = Inl e \<Longrightarrow> fst (py_bind m f w) = Inl e"
  by (cases "m w") (simp add: py_bind_def)

lemma input_float_Cons:
  "input_float p \<lparr>stdin = l # ls, stdout = out\<rparr> =
     (case l of Int_Line k \<Rightarrow> (Inr (real_of_int k), \<lparr>stdin = ls, stdout = out @ [Text p]\<rparr>)
              | Float_Line r \<Rightarrow> (Inr r, \<lparr>stdin = ls, stdout = out @ [Text p]\<rparr>)
              | Bad_Line \<Rightarrow> (Inl ValueError, \<lparr>stdin = ls, stdout = out @ [Text p]\<rparr>))"
  by (simp add: input_float_def py_bind_def py_input_def py_float_def py_return_def py_raise_def
      split: in_line.splits)

lemma input_float_Nil:
  "input_float p \<lparr>stdin = [], stdout = out\<rparr> = (Inl EOFError, \<lparr>stdin = [], stdout = out @ [Text p]\<rparr>)"
  by (simp add: input_float_def py_bind_def py_input_def)

lemma input_int_Cons:
  "input_int p \<lparr>stdin = l # ls, stdout = out\<rparr> =
     (case l of Int_Line k \<Rightarrow> (Inr k, \<lparr>stdin = ls, stdout = out @ [Text p]\<rparr>)
              | _ \<Rightarrow> (Inl ValueError, \<lparr>stdin = ls, stdout = out @ [Text p]\<rparr>))"
  by (simp add: input_int_def py_bind_def py_input_def py_int_def py_return_def py_raise_def
      split: in_line.splits)

lemma input_int_Nil:
  "input_int p \<lparr>stdin = [], stdout = out\<rparr> = (Inl EOFError, \<lparr>stdin = [], stdout = out @ [Text p]\<rparr>)"
  by (simp add: input_int_def py_bind_def py_input_def)

subsection \<open>The frame rules\<close>

lemma frame_return [frame_rules]: "console_frame (py_return a)"
  by (simp add: console_frame_def py_return_def)

lemma frame_raise [frame_rules]: "console_frame (py_raise e)"
  by (simp add: console_frame_def py_raise_def)

lemma frame_print [frame_rules]: "console_frame (py_print ev)"
  by (simp add: console_frame_def py_print_def)

lemma frame_input [frame_rules]: "console_frame (py_input p)"
  by (auto simp: console_frame_def py_input_def Let_def split: list.splits)

lemma frame_bind [frame_rules]:
  assumes "console_frame m" and "\<And>a. console_frame (f a)"
  shows "console_frame (py_bind m f)"
  unfolding console_frame_def
proof (intro allI impI)
  fix w r w'
  assume run: "py_bind m f w = (r, w')"
  obtain r1 w1 where m: "m w = (r1, w1)" by fastforce
  have f1: "(\<exists>new. stdout w1 = stdout w @ new) \<and> (\<exists>used. stdin w = used @ stdin w1)"
    using assms(1) m unfolding console_frame_def by blast
  show "(\<exists>new. stdout w' = stdout w @ new) \<and> (\<exists>used. stdin w = used @ stdin w')"
  proof (cases r1)
    case (Inl e)
    then show ?thesis using run m f1 by (simp add: py_bind_apply)
  next
    case (Inr a)
    then have "f a w1 = (r, w')" using run m by (simp add: py_bind_apply)
    then have "(\<exists>new. stdout w' = stdout w1 @ new) \<and> (\<exists>used. stdin w1 = used @ stdin w')"
      using assms(2) [of a] unfolding console_frame_def by blast
    then show ?thesis using f1 by (metis append.assoc)
  qed
qed

lemma frame_if [frame_rules]:
  "console_frame m1 \<Longrightarrow> console_frame m2 \<Longrightarrow> console_frame (if b then m1 else m2)"
  by simp

lemma frame_case_prod [frame_rules]:
  "(\<And>x y. console_frame (f x y)) \<Longrightarrow> console_frame (case p of (x, y) \<Rightarrow> f x y)"
  by (simp split: prod.split)

lemma frame_float [frame_rules]: "console_frame (py_float l)"
  by (cases l) (simp_all add: py_float_def frame_return frame_raise)

lemma frame_int [frame_rules]: "console_frame (py_int l)"
  by (cases l) (simp_all add: py_int_def frame_return frame_raise)

lemma frame_input_float [frame_rules]: "console_frame (input_float p)"
  unfolding input_float_def by (intro frame_rules)

lemma frame_input_int [frame_rules]: "console_frame (input_int p)"
  unfolding input_int_def by (intro frame_rules)

end
