(* ===== verification/Input.thy ===== *)
theory Input
  imports Console LP_Problem
begin

text \<open>
  The input part of \<open>solve_3d_lpp\<close> (src/Lpp.py, lines 9--22): three
  objective coefficients read with \<open>float(input(...))\<close> and negated for
  \<open>linprog\<close>'s minimisation (line 13), the number of constraints read with
  \<open>int(input(...))\<close> (line 16), and for each \<open>i in range(n)\<close> a header and
  four floats, the row \<open>[a, b, c]\<close> appended to \<open>lhs\<close> and \<open>d\<close> to \<open>rhs\<close>
  (lines 19--22). \<open>range(n)\<close> of a negative \<open>n\<close> is empty: the loop runs
  \<open>nat n\<close> times.

  \<open>encode_problem\<close> writes a problem as the lines a user types;
  \<open>read_problem_encode\<close> is the round trip (reading the encoding gives the
  problem back, with the prompts as output), and the error lemmas give the
  exception each kind of bad input raises.
\<close>

definition read_objective :: "vec py" where
  "read_objective =
     py_bind (input_float ''Z coefficient for x: '') (\<lambda>cx.
     py_bind (input_float ''Z coefficient for y: '') (\<lambda>cy.
     py_bind (input_float ''Z coefficient for z: '') (\<lambda>cz.
     py_return [- cx, - cy, - cz])))"

definition read_constraint :: "nat \<Rightarrow> (vec \<times> real) py" where
  "read_constraint i =
     py_bind (py_print (Constraint_Header (Suc i))) (\<lambda>_.
     py_bind (input_float ''  a: '') (\<lambda>a.
     py_bind (input_float ''  b: '') (\<lambda>b.
     py_bind (input_float ''  c: '') (\<lambda>c.
     py_bind (input_float ''  d: '') (\<lambda>d.
     py_return ([a, b, c], d))))))"

fun read_rows :: "nat \<Rightarrow> nat \<Rightarrow> matrix \<Rightarrow> vec \<Rightarrow> (matrix \<times> vec) py" where
  "read_rows 0 i L R = py_return (L, R)"
| "read_rows (Suc k) i L R =
     py_bind (read_constraint i) (\<lambda>(row, d). read_rows k (Suc i) (L @ [row]) (R @ [d]))"

definition read_problem :: "(vec \<times> matrix \<times> vec) py" where
  "read_problem =
     py_bind read_objective (\<lambda>obj.
     py_bind (input_int ''Number of constraints (ax + by + cz <= d): '') (\<lambda>n.
     py_bind (read_rows (nat n) 0 [] []) (\<lambda>(L, R).
     py_return (obj, L, R))))"

subsection \<open>Encoding a problem as input lines\<close>

definition encode_row :: "vec \<Rightarrow> real \<Rightarrow> in_line list" where
  "encode_row r d = map Float_Line r @ [Float_Line d]"

definition encode_problem :: "vec \<Rightarrow> matrix \<Rightarrow> vec \<Rightarrow> in_line list" where
  "encode_problem c A b =
     map Float_Line c @ [Int_Line (int (length A))] @ concat (map2 encode_row A b)"

definition row_log :: "nat \<Rightarrow> out_event list" where
  "row_log i = [Constraint_Header (Suc i), Text ''  a: '', Text ''  b: '', Text ''  c: '', Text ''  d: '']"

definition read_log :: "nat \<Rightarrow> out_event list" where
  "read_log m =
     [Text ''Z coefficient for x: '', Text ''Z coefficient for y: '', Text ''Z coefficient for z: '',
      Text ''Number of constraints (ax + by + cz <= d): ''] @ concat (map row_log [0..<m])"

lemma read_objective_encode:
  "read_objective \<lparr>stdin = map Float_Line [cx, cy, cz] @ rest, stdout = out\<rparr> =
     (Inr [- cx, - cy, - cz],
      \<lparr>stdin = rest, stdout = out @ [Text ''Z coefficient for x: '',
         Text ''Z coefficient for y: '', Text ''Z coefficient for z: '']\<rparr>)"
  by (simp add: read_objective_def py_bind_apply input_float_Cons py_return_def)

lemma read_constraint_encode:
  "read_constraint i \<lparr>stdin = encode_row [a, b, c] d @ rest, stdout = out\<rparr> =
     (Inr ([a, b, c], d), \<lparr>stdin = rest, stdout = out @ row_log i\<rparr>)"
  by (simp add: read_constraint_def py_bind_apply input_float_Cons py_return_def py_print_def
      encode_row_def row_log_def)

lemma read_rows_encode:
  assumes "length A = length b" "\<forall>r \<in> set A. length r = 3"
  shows "read_rows (length A) i L R \<lparr>stdin = concat (map2 encode_row A b) @ rest, stdout = out\<rparr> =
           (Inr (L @ A, R @ b),
            \<lparr>stdin = rest, stdout = out @ concat (map row_log [i..<i + length A])\<rparr>)"
  using assms
proof (induction A arbitrary: b i L R out)
  case Nil
  then show ?case by (simp add: py_return_def)
next
  case (Cons r A)
  obtain d b' where b: "b = d # b'" using Cons.prems(1) by (cases b) auto
  obtain x y z where r: "r = [x, y, z]"
    using Cons.prems(2) by (auto simp: length_Suc_conv numeral_3_eq_3)
  have "read_constraint i \<lparr>stdin = encode_row r d @ concat (map2 encode_row A b') @ rest,
          stdout = out\<rparr> =
        (Inr (r, d), \<lparr>stdin = concat (map2 encode_row A b') @ rest, stdout = out @ row_log i\<rparr>)"
    using read_constraint_encode [of i x y z d "concat (map2 encode_row A b') @ rest" out] r
    by simp
  moreover have "[i..<i + length (r # A)] = i # [Suc i..<Suc i + length A]"
    by (simp add: upt_rec)
  ultimately show ?case
    using Cons.IH [of b' "Suc i" "L @ [r]" "R @ [d]" "out @ row_log i"] Cons.prems b
    by (simp add: py_bind_apply)
qed

text \<open>
  C11. Reading a problem typed as its lines (three objective coefficients,
  the count, four numbers per constraint) gives back the negated objective,
  the rows and the right-hand sides, consumes exactly those lines and
  prints the prompts and the constraint headers in order.
\<close>

theorem read_problem_encode:
  assumes c: "length c = 3" and ab: "length A = length b" and rows: "\<forall>r \<in> set A. length r = 3"
  shows "read_problem \<lparr>stdin = encode_problem c A b @ rest, stdout = out\<rparr> =
           (Inr (map uminus c, A, b), \<lparr>stdin = rest, stdout = out @ read_log (length A)\<rparr>)"
proof -
  obtain cx cy cz where cv: "c = [cx, cy, cz]"
    using c by (auto simp: length_Suc_conv numeral_3_eq_3)
  let ?w1 = "\<lparr>stdin = Int_Line (int (length A)) # concat (map2 encode_row A b) @ rest,
     stdout = out @ [Text ''Z coefficient for x: '', Text ''Z coefficient for y: '',
                     Text ''Z coefficient for z: '']\<rparr>"
  have obj: "read_objective \<lparr>stdin = encode_problem [cx, cy, cz] A b @ rest, stdout = out\<rparr> =
               (Inr [- cx, - cy, - cz], ?w1)"
    using read_objective_encode [of cx cy cz "Int_Line (int (length A)) # concat (map2 encode_row A b) @ rest" out]
    by (simp add: encode_problem_def)
  show ?thesis
    using read_rows_encode [OF ab rows, of 0 "[]" "[]" rest] cv
    by (simp add: read_problem_def py_bind_apply obj input_int_Cons py_return_def read_log_def)
qed

text \<open>
  C12. A count line that is not an integer literal (a float such as "2.0",
  or text) makes \<open>int(input(...))\<close> raise ValueError.
\<close>

theorem read_problem_bad_count:
  assumes "\<forall>k. l \<noteq> Int_Line k"
  shows "fst (read_problem \<lparr>stdin = map Float_Line [cx, cy, cz] @ l # rest, stdout = out\<rparr>) =
           Inl ValueError"
  using assms read_objective_encode [of cx cy cz "l # rest" out]
  by (cases l) (simp_all add: read_problem_def py_bind_apply input_int_Cons)

subsection \<open>Truncated input\<close>

lemma read_constraint_short:
  assumes "k < 4"
  shows "fst (read_constraint i \<lparr>stdin = take k (encode_row [a, b, c] d), stdout = out\<rparr>) =
           Inl EOFError"
proof -
  have "k = 0 \<or> k = 1 \<or> k = 2 \<or> k = 3" using assms by arith
  then show ?thesis
    by (elim disjE)
       (simp_all add: read_constraint_def py_bind_apply py_print_def input_float_Cons
          input_float_Nil encode_row_def)
qed

lemma length_encode_rows:
  "length A = length b \<Longrightarrow> \<forall>r \<in> set A. length r = 3 \<Longrightarrow>
     length (concat (map2 encode_row A b)) = 4 * length A"
proof (induction A arbitrary: b)
  case (Cons r A)
  then show ?case by (cases b) (auto simp: encode_row_def)
qed simp

lemma read_rows_short:
  assumes "length A = length b" "\<forall>r \<in> set A. length r = 3" "k < 4 * length A"
  shows "fst (read_rows (length A) i L R
           \<lparr>stdin = take k (concat (map2 encode_row A b)), stdout = out\<rparr>) = Inl EOFError"
  using assms
proof (induction A arbitrary: b i L R k out)
  case Nil
  then show ?case by simp
next
  case (Cons r A)
  obtain d b' where b: "b = d # b'" using Cons.prems(1) by (cases b) auto
  obtain x y z where r: "r = [x, y, z]"
    using Cons.prems(2) by (auto simp: length_Suc_conv numeral_3_eq_3)
  have l4: "length (encode_row r d) = 4" using r by (simp add: encode_row_def)
  show ?case
  proof (cases "k < 4")
    case True
    then have "take k (concat (map2 encode_row (r # A) b)) = take k (encode_row [x, y, z] d)"
      using b r l4 by simp
    moreover have "fst (py_bind (read_constraint i)
        (\<lambda>(row, d). read_rows (length A) (Suc i) (L @ [row]) (R @ [d]))
        \<lparr>stdin = take k (encode_row [x, y, z] d), stdout = out\<rparr>) = Inl EOFError"
      by (rule py_bind_Inl) (rule read_constraint_short [OF True])
    ultimately show ?thesis by simp
  next
    case False
    then have tk: "take k (concat (map2 encode_row (r # A) b)) =
                   encode_row [x, y, z] d @ take (k - 4) (concat (map2 encode_row A b'))"
      using b r l4 by simp
    have "k - 4 < 4 * length A" using Cons.prems(3) False by simp
    note IH = Cons.IH [OF _ _ this, of b' "Suc i" "L @ [r]" "R @ [d]"]
    show ?thesis
      unfolding tk using IH Cons.prems(1,2) b r
      by (simp add: py_bind_apply read_constraint_encode)
  qed
qed

text \<open>
  C13. Input that ends before the problem is complete (any proper prefix of
  its lines) makes the reading raise EOFError.
\<close>

theorem read_problem_truncated:
  assumes c: "length c = 3" and ab: "length A = length b" and rows: "\<forall>r \<in> set A. length r = 3"
    and k: "k < length (encode_problem c A b)"
  shows "fst (read_problem \<lparr>stdin = take k (encode_problem c A b), stdout = out\<rparr>) = Inl EOFError"
proof -
  obtain cx cy cz where cv: "c = [cx, cy, cz]"
    using c by (auto simp: length_Suc_conv numeral_3_eq_3)
  have len: "length (encode_problem c A b) = 4 + 4 * length A"
    using length_encode_rows [OF ab rows] c by (simp add: encode_problem_def)
  consider "k < 3" | "k = 3" | "3 < k" by arith
  then show ?thesis
  proof cases
    case 1
    then have "k = 0 \<or> k = 1 \<or> k = 2" by arith
    then show ?thesis
      by (elim disjE) (simp_all add: cv encode_problem_def read_problem_def read_objective_def
            py_bind_apply input_float_Cons input_float_Nil)
  next
    case 2
    then show ?thesis
      using read_objective_encode [of cx cy cz "[]" out]
      by (simp add: cv encode_problem_def read_problem_def py_bind_apply input_int_Nil)
  next
    case 3
    then have tk: "take k (encode_problem c A b) =
                   map Float_Line [cx, cy, cz] @ Int_Line (int (length A)) #
                   take (k - 4) (concat (map2 encode_row A b))"
      using cv 3 by (simp add: encode_problem_def take_Cons' numeral_eq_Suc)
    have "k - 4 < 4 * length A" using k len 3 by simp
    then have rr: "fst (py_bind (read_rows (length A) 0 [] []) (\<lambda>(L, R). py_return ([- cx, - cy, - cz], L, R))
        \<lparr>stdin = take (k - 4) (concat (map2 encode_row A b)),
         stdout = out @ [Text ''Z coefficient for x: '', Text ''Z coefficient for y: '',
           Text ''Z coefficient for z: '', Text ''Number of constraints (ax + by + cz <= d): '']\<rparr>) =
        Inl EOFError"
      by (intro py_bind_Inl read_rows_short [OF ab rows])
    show ?thesis
      using read_objective_encode [of cx cy cz
          "Int_Line (int (length A)) # take (k - 4) (concat (map2 encode_row A b))" out] rr
      by (simp add: tk read_problem_def py_bind_apply input_int_Cons)
  qed
qed

text \<open>
  C14. A count of zero or less gives a problem without constraints: the
  loop \<open>for i in range(n)\<close> does not run for \<open>n \<le> 0\<close>, nothing further
  is read, and no error is raised.
\<close>

theorem read_problem_nonpositive_count:
  assumes "k \<le> 0"
  shows "read_problem \<lparr>stdin = map Float_Line [cx, cy, cz] @ Int_Line k # rest, stdout = out\<rparr> =
           (Inr ([- cx, - cy, - cz], [], []), \<lparr>stdin = rest, stdout = out @ read_log 0\<rparr>)"
  using assms read_objective_encode [of cx cy cz "Int_Line k # rest" out]
  by (simp add: read_problem_def py_bind_apply input_int_Cons py_return_def read_log_def)

subsection \<open>The shape of what is read\<close>

lemma read_objective_shape:
  "read_objective w = (Inr c, w') \<Longrightarrow> length c = 3"
  by (auto simp: read_objective_def py_bind_apply py_return_def split: prod.splits sum.splits)

lemma read_constraint_shape:
  "read_constraint i w = (Inr (row, d), w') \<Longrightarrow> length row = 3"
  by (auto simp: read_constraint_def py_bind_apply py_print_def py_return_def
      split: prod.splits sum.splits)

lemma read_rows_shape:
  assumes "read_rows k i L R w = (Inr (L', R'), w')"
    and "length L = length R" and "\<forall>r \<in> set L. length r = 3"
  shows "length L' = length R' \<and> (\<forall>r \<in> set L'. length r = 3)"
  using assms
proof (induction k arbitrary: i L R w)
  case 0
  then show ?case by (simp add: py_return_def)
next
  case (Suc k)
  obtain res w1 where rc: "read_constraint i w = (res, w1)" by fastforce
  show ?case
  proof (cases res)
    case (Inl e)
    then show ?thesis using Suc.prems(1) rc by (simp add: py_bind_apply)
  next
    case (Inr rd)
    obtain row d where rd: "rd = (row, d)" by fastforce
    have l3: "length row = 3" using read_constraint_shape rc Inr rd by blast
    have run: "read_rows k (Suc i) (L @ [row]) (R @ [d]) w1 = (Inr (L', R'), w')"
      using Suc.prems(1) rc Inr rd by (simp add: py_bind_apply)
    have "length (L @ [row]) = length (R @ [d])" "\<forall>r \<in> set (L @ [row]). length r = 3"
      using Suc.prems(2,3) l3 by simp_all
    from Suc.IH [OF run this] show ?thesis .
  qed
qed

text \<open>
  C23. Whatever the input, a problem that \<open>read_problem\<close> returns has the
  shape \<open>linprog\<close> is called with: three objective coefficients, one
  right-hand side per constraint and three coefficients per constraint, so
  that the problem passed on line 25 is well formed.
\<close>

theorem read_problem_wf:
  assumes "read_problem w = (Inr (obj, L, R), w')"
  shows "length obj = 3 \<and> wf_problem \<lparr>obj_coeffs = obj, lhs = L, rhs = R\<rparr>"
proof -
  obtain r1 w1 where o: "read_objective w = (r1, w1)" by fastforce
  obtain r2 w2 where n: "input_int ''Number of constraints (ax + by + cz <= d): '' w1 = (r2, w2)"
    by fastforce
  obtain c where c: "r1 = Inr c"
    using assms o by (cases r1) (simp_all add: read_problem_def py_bind_apply)
  obtain k where k: "r2 = Inr k"
    using assms o n c by (cases r2) (simp_all add: read_problem_def py_bind_apply)
  obtain r3 w3 where rr: "read_rows (nat k) 0 [] [] w2 = (r3, w3)" by fastforce
  have "r3 = Inr (L, R) \<and> obj = c"
    using assms o n c k rr
    by (cases r3) (auto simp: read_problem_def py_bind_apply py_return_def)
  then show ?thesis
    using read_objective_shape o c read_rows_shape [of "nat k" 0 "[]" "[]" w2 L R w3] rr
    by (auto simp: wf_problem_def list_all_iff)
qed

subsection \<open>The console frame of reading\<close>

lemma frame_read_objective [frame_rules]: "console_frame read_objective"
  unfolding read_objective_def by (intro frame_rules)

lemma frame_read_constraint [frame_rules]: "console_frame (read_constraint i)"
  unfolding read_constraint_def by (intro frame_rules)

lemma frame_read_rows [frame_rules]: "console_frame (read_rows k i L R)"
  by (induction k arbitrary: i L R) (simp_all add: frame_rules)

lemma frame_read_problem [frame_rules]: "console_frame read_problem"
  unfolding read_problem_def by (intro frame_rules)

subsection \<open>Reading concrete input\<close>

theorem read_problem_encode_witness:
  "read_problem \<lparr>stdin = encode_problem [3, 2, 1] [[1, 1, 1]] [10] @ [Bad_Line], stdout = []\<rparr> =
     (Inr ([-3, -2, -1], [[1, 1, 1]], [10]), \<lparr>stdin = [Bad_Line], stdout = read_log 1\<rparr>)"
  using read_problem_encode [of "[3, 2, 1]" "[[1, 1, 1]]" "[10]" "[Bad_Line]" "[]"] by simp

theorem read_problem_bad_count_witness:
  "fst (read_problem \<lparr>stdin = map Float_Line [3, 2, 1] @ Float_Line 2 # [], stdout = []\<rparr>) =
     Inl ValueError"
  using read_problem_bad_count [of "Float_Line 2" 3 2 1 "[]" "[]"] by simp

theorem read_problem_truncated_witness:
  "fst (read_problem \<lparr>stdin = take 6 (encode_problem [3, 2, 1] [[1, 1, 1]] [10]), stdout = []\<rparr>) =
     Inl EOFError"
  using read_problem_truncated [of "[3, 2, 1]" "[[1, 1, 1]]" "[10]" 6 "[]"]
  by (simp add: encode_problem_def encode_row_def)

theorem read_problem_nonpositive_count_witness:
  "read_problem \<lparr>stdin = map Float_Line [3, 2, 1] @ Int_Line (-2) # [Bad_Line], stdout = []\<rparr> =
     (Inr ([-3, -2, -1], [], []), \<lparr>stdin = [Bad_Line], stdout = read_log 0\<rparr>)"
  using read_problem_nonpositive_count [of "-2" 3 2 1 "[Bad_Line]" "[]"] by simp

theorem read_problem_wf_witness:
  "length [-3, -2, -1 :: real] = 3 \<and>
   wf_problem \<lparr>obj_coeffs = [-3, -2, -1], lhs = [[1, 1, 1]], rhs = [10]\<rparr>"
proof -
  have "read_problem \<lparr>stdin = [Float_Line 3, Float_Line 2, Float_Line 1, Int_Line 1,
          Float_Line 1, Float_Line 1, Float_Line 1, Float_Line 10], stdout = []\<rparr> =
          (Inr ([-3, -2, -1], [[1, 1, 1]], [10]), \<lparr>stdin = [], stdout = read_log 1\<rparr>)"
    by code_simp
  from read_problem_wf [OF this] show ?thesis .
qed

end
