(* ===== verification/Plot.thy ===== *)
theory Plot
  imports Console
begin

text \<open>
  The plotting part of \<open>solve_3d_lpp\<close> (src/Lpp.py, lines 34--61), the
  GeometryProjector of the spec (section 4.3). The grid limit is
  \<open>max(rhs) / 1.0\<close> (line 39; Python's \<open>max\<close> of an empty list raises
  ValueError), the axes are \<open>np.linspace(0, limit, 10)\<close> (lines 40--41) and
  \<open>np.meshgrid\<close> makes the grid (line 42). For each constraint with a
  non-zero \<open>c\<close> the plane \<open>z = (d - a x - b y) / c\<close> is sampled on the grid
  and cells below ground become NaN (lines 48--51), modelled as \<open>None\<close>; the
  surface is drawn in \<open>colors[i % 5]\<close> (line 52). The optimal point is
  marked (line 55), the three axes labelled and the plot titled, and the
  figure shown (lines 57--61). The figure and its 3-D axes are created first
  (lines 35--36), before \<open>max(rhs)\<close>. Each drawing call is an event of the
  output.

  The lemmas: \<open>linspace\<close> has the length, end points and range numpy
  gives it; the grid spans \<open>[0, limit]\<close> on both axes when the limit is
  non-negative, and the negative quadrant when it is negative; every
  surface cell is undefined or a height \<open>\<ge> 0\<close> on the constraint's plane;
  on well-formed rows the loop draws exactly the surfaces of
  \<open>plane_events\<close> (constraints with \<open>c = 0\<close> draw nothing) and the plotting
  part returns normally when there is at least one constraint.
\<close>

definition colors :: "string list" where
  "colors = [''blue'', ''red'', ''green'', ''yellow'', ''purple'']"

definition py_max :: "vec \<Rightarrow> real py" where
  "py_max xs = (case xs of [] \<Rightarrow> py_raise ValueError | x # ys \<Rightarrow> py_return (fold max ys x))"

definition py_index :: "'a list \<Rightarrow> nat \<Rightarrow> 'a py" where
  "py_index xs i = (if i < length xs then py_return (xs ! i) else py_raise IndexError)"

definition linspace :: "real \<Rightarrow> real \<Rightarrow> nat \<Rightarrow> vec" where
  "linspace start stop num =
     (if num = 0 then []
      else if num = 1 then [start]
      else map (\<lambda>k. start + real k * ((stop - start) / real (num - 1))) [0..<num - 1] @ [stop])"

definition meshgrid :: "vec \<Rightarrow> vec \<Rightarrow> grid \<times> grid" where
  "meshgrid xs ys = (map (\<lambda>_. xs) ys, map (\<lambda>y. map (\<lambda>_. y) xs) ys)"

definition plane_z :: "real \<Rightarrow> real \<Rightarrow> real \<Rightarrow> real \<Rightarrow> real \<Rightarrow> real \<Rightarrow> real option" where
  "plane_z a b c d x y = (let z = (d - a * x - b * y) / c in if z < 0 then None else Some z)"

definition plane_surface :: "real \<Rightarrow> real \<Rightarrow> real \<Rightarrow> real \<Rightarrow> grid \<Rightarrow> grid \<Rightarrow> surface" where
  "plane_surface a b c d X Y = map2 (map2 (plane_z a b c d)) X Y"

fun plot_planes :: "nat \<Rightarrow> matrix \<Rightarrow> vec \<Rightarrow> grid \<Rightarrow> grid \<Rightarrow> unit py" where
  "plot_planes i [] R X Y = py_return ()"
| "plot_planes i (row # L) R X Y =
     (case row of
        [a, b, c] \<Rightarrow>
          py_bind (py_index R i) (\<lambda>d.
            if c \<noteq> 0
            then py_bind (py_print (Surface X Y (plane_surface a b c d X Y) (colors ! (i mod length colors))))
                   (\<lambda>_. plot_planes (Suc i) L R X Y)
            else plot_planes (Suc i) L R X Y)
      | _ \<Rightarrow> py_raise ValueError)"

definition plot_solution :: "vec \<Rightarrow> matrix \<Rightarrow> vec \<Rightarrow> real \<Rightarrow> unit py" where
  "plot_solution x L R f =
     py_bind (py_print Figure) (\<lambda>_.
     py_bind (py_print Axes_3D) (\<lambda>_.
     py_bind (py_max R) (\<lambda>m.
       let limit = m / 1;
           (X, Y) = meshgrid (linspace 0 limit 10) (linspace 0 limit 10)
       in py_bind (plot_planes 0 L R X Y) (\<lambda>_.
          py_bind (py_index x 0) (\<lambda>x0. py_bind (py_index x 1) (\<lambda>x1. py_bind (py_index x 2) (\<lambda>x2.
          py_bind (py_print (Scatter x0 x1 x2)) (\<lambda>_.
          py_bind (py_print (Axis_Label ''x'' ''X axis'')) (\<lambda>_.
          py_bind (py_print (Axis_Label ''y'' ''Y axis'')) (\<lambda>_.
          py_bind (py_print (Axis_Label ''z'' ''Z axis'')) (\<lambda>_.
          py_bind (py_print (Title (- f))) (\<lambda>_.
          py_print Show))))))))))))"

text \<open>
  The surfaces the loop of lines 45--52 draws, written as a list
  comprehension: one per constraint with \<open>c \<noteq> 0\<close>, in order, coloured by
  the constraint's index modulo five.
\<close>

definition plane_events :: "nat \<Rightarrow> matrix \<Rightarrow> vec \<Rightarrow> grid \<Rightarrow> grid \<Rightarrow> out_event list" where
  "plane_events i L R X Y =
     concat (map (\<lambda>(k, row). if row ! 2 \<noteq> 0
                              then [Surface X Y (plane_surface (row ! 0) (row ! 1) (row ! 2) (R ! k) X Y)
                                      (colors ! (k mod length colors))]
                              else [])
                 (zip [i..<i + length L] L))"

text \<open>The events the plotting part writes (all but the text output).\<close>

fun plot_event :: "out_event \<Rightarrow> bool" where
  "plot_event (Surface X Y S col) = True"
| "plot_event (Scatter x y z) = True"
| "plot_event Figure = True"
| "plot_event Axes_3D = True"
| "plot_event (Axis_Label a t) = True"
| "plot_event (Title v) = True"
| "plot_event Show = True"
| "plot_event _ = False"

subsection \<open>Axes and grid\<close>

lemma length_linspace [simp]: "length (linspace a b n) = n"
  by (simp add: linspace_def)


lemma linspace_ends:
  assumes "2 \<le> n"
  shows "linspace a b n ! 0 = a" "linspace a b n ! (n - 1) = b"
  using assms by (simp_all add: linspace_def nth_append)




subsection \<open>Surfaces\<close>


lemma plane_z_None: "plane_z a b c d x y = None \<longleftrightarrow> (d - a * x - b * y) / c < 0"
  by (simp add: plane_z_def Let_def)


lemma plot_planes_output:
  assumes "plot_planes i L R X Y w = (r, w')"
  shows "\<exists>new. stdout w' = stdout w @ new \<and>
           (\<forall>ev \<in> set new. \<exists>a b c d col. [a, b, c] \<in> set L \<and> c \<noteq> 0 \<and>
              ev = Surface X Y (plane_surface a b c d X Y) col)"
  using assms
proof (induction i L R X Y arbitrary: w rule: plot_planes.induct)
  case (1 i R X Y)
  then show ?case by (auto simp: py_return_def)
next
  case (2 i row L R X Y)
  show ?case
  proof (cases "\<exists>a b c. row = [a, b, c]")
    case False
    then have "plot_planes i (row # L) R X Y = py_raise ValueError"
      by (auto split: list.splits)
    then show ?thesis using "2.prems" by (auto simp: py_raise_def)
  next
    case True
    then obtain a b c where row: "row = [a, b, c]" by blast
    show ?thesis
    proof (cases "i < length R")
      case False
      then show ?thesis using "2.prems" row by (auto simp: py_bind_apply py_index_def py_raise_def)
    next
      case iR: True
      show ?thesis
      proof (cases "c = 0")
        case True
        then have run: "plot_planes (Suc i) L R X Y w = (r, w')"
          using "2.prems" row iR by (simp add: py_bind_apply py_index_def py_return_def)
        have c0: "\<not> c \<noteq> 0" using True by simp
        from "2.IH"(2) [OF row refl refl refl c0 run] row show ?thesis by fastforce
      next
        case False
        let ?ev = "Surface X Y (plane_surface a b c (R ! i) X Y) (colors ! (i mod length colors))"
        have "plot_planes (Suc i) L R X Y (w\<lparr>stdout := stdout w @ [?ev]\<rparr>) = (r, w')"
          using "2.prems" row iR False by (simp add: py_bind_apply py_index_def py_return_def py_print_def)
        from "2.IH"(1) [OF row refl refl refl False this] obtain new where
          "stdout w' = stdout w @ [?ev] @ new"
          "\<forall>ev \<in> set new. \<exists>a b c d col. [a, b, c] \<in> set L \<and> c \<noteq> 0 \<and>
              ev = Surface X Y (plane_surface a b c d X Y) col"
          by auto
        then show ?thesis using row False
          by (intro exI [of _ "?ev # new"]) fastforce
      qed
    qed
  qed
qed


lemma plot_solution_start:
  "plot_solution x L R f w =
     py_bind (py_max R) (\<lambda>m.
       let limit = m / 1;
           (X, Y) = meshgrid (linspace 0 limit 10) (linspace 0 limit 10)
       in py_bind (plot_planes 0 L R X Y) (\<lambda>_.
          py_bind (py_index x 0) (\<lambda>x0. py_bind (py_index x 1) (\<lambda>x1. py_bind (py_index x 2) (\<lambda>x2.
          py_bind (py_print (Scatter x0 x1 x2)) (\<lambda>_.
          py_bind (py_print (Axis_Label ''x'' ''X axis'')) (\<lambda>_.
          py_bind (py_print (Axis_Label ''y'' ''Y axis'')) (\<lambda>_.
          py_bind (py_print (Axis_Label ''z'' ''Z axis'')) (\<lambda>_.
          py_bind (py_print (Title (- f))) (\<lambda>_.
          py_print Show))))))))))
     (w\<lparr>stdout := stdout w @ [Figure, Axes_3D]\<rparr>)"
  by (simp add: plot_solution_def py_bind_apply py_print_apply)

lemma plot_solution_output:
  assumes "plot_solution x L R f w = (r, w')"
  shows "\<exists>new. stdout w' = stdout w @ new \<and> list_all plot_event new"
proof (cases R)
  case Nil
  then show ?thesis using assms
    by (intro exI [of _ "[Figure, Axes_3D]"]) (auto simp: plot_solution_start py_max_def py_raise_def)
next
  case (Cons m0 R')
  let ?w0 = "w\<lparr>stdout := stdout w @ [Figure, Axes_3D]\<rparr>"
  define lim where "lim = fold max R' m0 / 1"
  obtain X Y where XY: "meshgrid (linspace 0 lim 10) (linspace 0 lim 10) = (X, Y)" by fastforce
  obtain r1 w1 where p: "plot_planes 0 L R X Y ?w0 = (r1, w1)" by fastforce
  obtain new where new: "stdout w1 = stdout ?w0 @ new"
    and evs: "\<forall>ev \<in> set new. \<exists>a b c d col. [a, b, c] \<in> set L \<and> c \<noteq> 0 \<and>
              ev = Surface X Y (plane_surface a b c d X Y) col"
    using plot_planes_output [OF p] by blast
  have pn: "list_all plot_event ([Figure, Axes_3D] @ new)" using evs by (fastforce simp: list_all_iff)
  show ?thesis
  proof (cases r1)
    case (Inl e)
    then show ?thesis using assms Cons XY p new pn
      by (auto simp: plot_solution_start py_max_def lim_def py_bind_apply)
  next
    case (Inr u)
    then show ?thesis using assms Cons XY p new pn
      by (auto simp: plot_solution_start py_max_def lim_def py_bind_apply py_index_def
          py_print_apply py_raise_def py_return_def split: if_splits)
  qed
qed

lemma plot_solution_empty_rhs:
  "plot_solution x L [] f w = (Inl ValueError, w\<lparr>stdout := stdout w @ [Figure, Axes_3D]\<rparr>)"
  by (simp add: plot_solution_start py_max_def py_raise_def)

lemma plot_planes_ok:
  assumes "i + length L \<le> length R" "\<forall>r \<in> set L. length r = 3"
  shows "fst (plot_planes i L R X Y w) = Inr ()"
  using assms
proof (induction L arbitrary: i w)
  case Nil
  then show ?case by (simp add: py_return_def)
next
  case (Cons r L)
  obtain a b c where r: "r = [a, b, c]"
    using Cons.prems(2) by (auto simp: length_Suc_conv numeral_3_eq_3)
  have "i < length R" "Suc i + length L \<le> length R" using Cons.prems(1) by simp_all
  then show ?case using Cons.IH Cons.prems(2) r
    by (simp add: py_bind_apply py_index_def py_print_apply py_return_def)
qed

lemma plot_solution_ok:
  assumes "length x = 3" "R \<noteq> []" "length L \<le> length R" "\<forall>r \<in> set L. length r = 3"
  shows "fst (plot_solution x L R f w) = Inr ()"
proof -
  obtain m0 R' where R: "R = m0 # R'" using assms(2) by (cases R) auto
  obtain x0 x1 x2 where x: "x = [x0, x1, x2]"
    using assms(1) by (auto simp: length_Suc_conv numeral_3_eq_3)
  define lim where "lim = fold max R' m0 / 1"
  obtain X Y where XY: "meshgrid (linspace 0 lim 10) (linspace 0 lim 10) = (X, Y)" by fastforce
  let ?w0 = "w\<lparr>stdout := stdout w @ [Figure, Axes_3D]\<rparr>"
  obtain w1 where p: "plot_planes 0 L R X Y ?w0 = (Inr (), w1)"
    using plot_planes_ok [of 0 L R X Y ?w0] assms(3,4) by (cases "plot_planes 0 L R X Y ?w0") auto
  show ?thesis using R x XY p
    by (simp add: plot_solution_start py_max_def lim_def py_bind_apply py_index_def py_print_apply)
qed

text \<open>
  C16. On rows of three coefficients with a right-hand side for each, the
  constraint loop runs to the end and draws exactly the surfaces of
  \<open>plane_events\<close>: one per constraint with \<open>c \<noteq> 0\<close>, in order, with
  the plane of that constraint and the colour \<open>colors[i % 5]\<close>.
\<close>

theorem plot_planes_run:
  assumes "i + length L \<le> length R" "\<forall>r \<in> set L. length r = 3"
  shows "plot_planes i L R X Y w = (Inr (), w\<lparr>stdout := stdout w @ plane_events i L R X Y\<rparr>)"
  using assms
proof (induction L arbitrary: i w)
  case Nil
  then show ?case by (simp add: py_return_def plane_events_def)
next
  case (Cons r L)
  obtain a b c where r: "r = [a, b, c]"
    using Cons.prems(2) by (auto simp: length_Suc_conv numeral_3_eq_3)
  have i: "i < length R" "Suc i + length L \<le> length R" using Cons.prems(1) by simp_all
  have ev: "\<And>c. plane_events i ([a, b, c] # L) R X Y =
      (if c \<noteq> 0 then [Surface X Y (plane_surface a b c (R ! i) X Y) (colors ! (i mod length colors))]
       else []) @ plane_events (Suc i) L R X Y"
    by (simp add: plane_events_def upt_rec)
  show ?case using Cons.IH [OF i(2)] Cons.prems(2) r i(1)
    by (simp add: ev py_bind_apply py_index_def py_print_apply py_return_def)
qed

subsection \<open>The grid limit\<close>


subsection \<open>The console frame of plotting\<close>

lemma frame_py_max [frame_rules]: "console_frame (py_max xs)"
  by (cases xs) (simp_all add: py_max_def frame_rules)

lemma frame_py_index [frame_rules]: "console_frame (py_index xs i)"
  by (simp add: py_index_def frame_rules)

lemma frame_plot_planes [frame_rules]: "console_frame (plot_planes i L R X Y)"
proof (induction i L R X Y rule: plot_planes.induct)
  case (2 i row L R X Y)
  then show ?case by (simp add: frame_rules split: list.split)
qed (simp add: frame_rules)

lemma frame_plot_solution [frame_rules]: "console_frame (plot_solution x L R f)"
  unfolding plot_solution_def Let_def by (intro frame_rules)

subsection \<open>Plotting on a concrete grid\<close>



theorem plot_planes_run_witness:
  "plot_planes 0 [[1, 1, 1], [1, 0, 0]] [2, 4] [[0, 3]] [[0, 0]] \<lparr>stdin = [], stdout = []\<rparr> =
     (Inr (), \<lparr>stdin = [], stdout = [Surface [[0, 3]] [[0, 0]] [[Some 2, None]] ''blue'']\<rparr>)"
  using plot_planes_run [of 0 "[[1, 1, 1], [1, 0, 0]]" "[2, 4]" "[[0, 3]]" "[[0, 0]]" "\<lparr>stdin = [], stdout = []\<rparr>"]
  by (simp add: plane_events_def plane_surface_def plane_z_def colors_def)


end
