(* ===== verification/Linprog.thy ===== *)
theory Linprog
  imports Simplex
begin

text \<open>
  The call \<open>linprog(c=obj, A_ub=lhs, b_ub=rhs, bounds=(0, None),
  method='highs')\<close> of src/Lpp.py (line 25). scipy's \<open>OptimizeResult\<close> is the
  record \<open>opt_result\<close> with the fields the script reads (\<open>success\<close>,
  \<open>x\<close>, \<open>fun\<close>) and the \<open>status\<close> code (0 optimal, 1 iteration limit,
  2 infeasible, 3 unbounded, 4 numerical difficulties). \<open>linprog\<close>
  minimises, so the script passes the negated objective (line 13) and prints
  \<open>-res.fun\<close> (line 31): \<open>linprog_problem c A b\<close> is the maximisation
  problem with objective \<open>-c\<close>.

  \<open>linprog_correct lp\<close> is the contract the script relies on: on every
  well-formed problem a successful result is an optimal point with its
  objective value, and the statuses 2 and 3 are only reported for infeasible
  and unbounded problems. \<open>simplex_linprog\<close> is the two-phase simplex of
  theory Simplex behind this interface, and \<open>simplex_linprog_correct\<close>
  shows it meets the contract (with exact comparisons).
\<close>

record opt_result =
  res_success :: bool
  res_x :: vec
  res_fun :: real
  res_status :: nat

type_synonym linprog_fn = "vec \<Rightarrow> matrix \<Rightarrow> vec \<Rightarrow> opt_result"

definition linprog_problem :: "vec \<Rightarrow> matrix \<Rightarrow> vec \<Rightarrow> lp_problem" where
  "linprog_problem c A b = \<lparr>obj_coeffs = map uminus c, lhs = A, rhs = b\<rparr>"

definition linprog_spec :: "vec \<Rightarrow> matrix \<Rightarrow> vec \<Rightarrow> opt_result \<Rightarrow> bool" where
  "linprog_spec c A b r \<longleftrightarrow>
     (let P = linprog_problem c A b in
       (res_success r \<longleftrightarrow> res_status r = 0) \<and>
       (res_success r \<longrightarrow> feasible P (res_x r) \<and> res_fun r = dot c (res_x r) \<and>
          (\<forall>y. feasible P y \<longrightarrow> res_fun r \<le> dot c y)) \<and>
       (res_status r = 2 \<longrightarrow> (\<forall>y. \<not> feasible P y)) \<and>
       (res_status r = 3 \<longrightarrow> (\<forall>M. \<exists>y. feasible P y \<and> dot c y < M)))"

definition linprog_correct :: "linprog_fn \<Rightarrow> bool" where
  "linprog_correct lp \<longleftrightarrow>
     (\<forall>c A b. wf_problem (linprog_problem c A b) \<longrightarrow> linprog_spec c A b (lp c A b))"

definition failed_result :: "nat \<Rightarrow> opt_result" where
  "failed_result s = \<lparr>res_success = False, res_x = [], res_fun = 0, res_status = s\<rparr>"

definition simplex_linprog :: "simplex_config \<Rightarrow> linprog_fn" where
  "simplex_linprog cfg c A b =
     (case solve cfg (linprog_problem c A b) of
        Optimal v x \<Rightarrow> \<lparr>res_success = True, res_x = x, res_fun = - v, res_status = 0\<rparr>
      | Iteration_Limit \<Rightarrow> failed_result 1
      | Infeasible \<Rightarrow> failed_result 2
      | Unbounded \<Rightarrow> failed_result 3)"

lemma objective_linprog_problem [simp]:
  "objective_value (linprog_problem c A b) x = - dot c x"
  by (simp add: objective_value_def linprog_problem_def dot_lin)

lemma report_linprog_spec:
  assumes "report_correct (linprog_problem c A b) (solve cfg (linprog_problem c A b))"
  shows "linprog_spec c A b (simplex_linprog cfg c A b)"
proof (cases "solve cfg (linprog_problem c A b)")
  case (Optimal v x)
  then show ?thesis using assms
    by (auto simp: simplex_linprog_def linprog_spec_def report_correct_def Let_def)
next
  case Unbounded
  have "\<exists>y. feasible (linprog_problem c A b) y \<and> dot c y < M" for M
  proof -
    have "\<forall>M. \<exists>y. feasible (linprog_problem c A b) y \<and> M < - dot c y"
      using assms Unbounded by (simp add: report_correct_def)
    from this [rule_format, of "- M"] show ?thesis by auto
  qed
  then show ?thesis using Unbounded by (simp add: simplex_linprog_def linprog_spec_def failed_result_def)
qed (use assms in \<open>simp_all add: simplex_linprog_def linprog_spec_def report_correct_def
       failed_result_def\<close>)

lemma simplex_linprog_correct:
  assumes "eps cfg = 0"
  shows "linprog_correct (simplex_linprog cfg)"
  unfolding linprog_correct_def
  using report_linprog_spec solve_report_correct [OF assms] by blast

end
