(* ===== verification/Script.thy ===== *)
theory Script
  imports Input Plot Linprog
begin

text \<open>
  The whole script \<open>solve_3d_lpp\<close> of src/Lpp.py (lines 6--61), over the
  \<open>linprog\<close> function it calls. \<open>report_and_plot\<close> is the part after the
  input (lines 24--61): call \<open>linprog\<close>, print the failure message and
  return when \<open>res.success\<close> is false, otherwise print the optimal value
  and the coordinates and plot. \<open>user_problem c A b\<close> is the problem the
  user typed: maximise \<open>c \<cdot> x\<close> subject to \<open>A x \<le> b\<close>, \<open>x \<ge> 0\<close>.

  The theorems are end to end, from the lines typed to the output, for any
  \<open>linprog\<close> meeting \<open>linprog_correct\<close>: a printed optimal value is the
  maximum and the printed coordinates attain it; a problem without an
  optimum prints the failure message, unbounded ones included; a problem
  with no constraints that \<open>linprog\<close> solves ends in the ValueError of
  \<open>max(rhs)\<close>.
\<close>

definition banner :: string where
  "banner = ''--- 3D LPP Solver (x, y, z) ---''"

definition no_solution_msg :: string where
  "no_solution_msg = ''No feasible solution found.''"

definition report_and_plot :: "linprog_fn \<Rightarrow> vec \<Rightarrow> matrix \<Rightarrow> vec \<Rightarrow> unit py" where
  "report_and_plot linprog obj L R =
     (let res = linprog obj L R in
      if \<not> res_success res then py_print (Text no_solution_msg)
      else
        py_bind (py_print (Optimal_Value (- res_fun res))) (\<lambda>_.
        py_bind (py_index (res_x res) 0) (\<lambda>x0.
        py_bind (py_index (res_x res) 1) (\<lambda>x1.
        py_bind (py_index (res_x res) 2) (\<lambda>x2.
        py_bind (py_print (Coordinates x0 x1 x2)) (\<lambda>_.
        plot_solution (res_x res) L R (res_fun res)))))))"

definition solve_3d_lpp :: "linprog_fn \<Rightarrow> unit py" where
  "solve_3d_lpp linprog =
     py_bind (py_print (Text banner)) (\<lambda>_.
     py_bind read_problem (\<lambda>(obj, L, R). report_and_plot linprog obj L R))"


definition user_problem :: "vec \<Rightarrow> matrix \<Rightarrow> vec \<Rightarrow> lp_problem" where
  "user_problem c A b = \<lparr>obj_coeffs = c, lhs = A, rhs = b\<rparr>"


lemma linprog_user_problem: "linprog_problem (map uminus c) A b = user_problem c A b"
  by (simp add: linprog_problem_def user_problem_def comp_def)

lemma wf_user_problem:
  "length c = 3 \<Longrightarrow> length A = length b \<Longrightarrow> \<forall>r \<in> set A. length r = 3 \<Longrightarrow>
     wf_problem (user_problem c A b)"
  by (simp add: wf_problem_def user_problem_def list_all_iff)

lemma solve_3d_lpp_encode:
  assumes "length c = 3" "length A = length b" "\<forall>r \<in> set A. length r = 3"
  shows "solve_3d_lpp lp \<lparr>stdin = encode_problem c A b @ rest, stdout = out\<rparr> =
           report_and_plot lp (map uminus c) A b
             \<lparr>stdin = rest, stdout = out @ Text banner # read_log (length A)\<rparr>"
  using read_problem_encode [OF assms, of rest "out @ [Text banner]"]
  by (simp add: solve_3d_lpp_def py_bind_apply py_print_def)

lemma report_unsuccessful:
  "\<not> res_success (lp obj L R) \<Longrightarrow>
     report_and_plot lp obj L R w = (Inr (), w\<lparr>stdout := stdout w @ [Text no_solution_msg]\<rparr>)"
  by (simp add: report_and_plot_def py_print_def)

lemma report_successful:
  assumes "res_success (lp obj L R)" "res_x (lp obj L R) = [x0, x1, x2]"
    and "report_and_plot lp obj L R w = (r, w')"
  shows "\<exists>new. stdout w' = stdout w @ [Optimal_Value (- res_fun (lp obj L R)), Coordinates x0 x1 x2] @ new
           \<and> list_all plot_event new"
proof -
  let ?w = "w\<lparr>stdout := stdout w @ [Optimal_Value (- res_fun (lp obj L R)), Coordinates x0 x1 x2]\<rparr>"
  have "plot_solution [x0, x1, x2] L R (res_fun (lp obj L R)) ?w = (r, w')"
    using assms by (simp add: report_and_plot_def Let_def py_bind_apply py_print_apply py_index_def)
  from plot_solution_output [OF this] show ?thesis by simp
qed

lemma linprog_success:
  assumes "linprog_correct lp" "length c = 3" "length A = length b" "\<forall>r \<in> set A. length r = 3"
    and "res_success (lp (map uminus c) A b)"
  shows "feasible (user_problem c A b) (res_x (lp (map uminus c) A b)) \<and>
         objective_value (user_problem c A b) (res_x (lp (map uminus c) A b)) = - res_fun (lp (map uminus c) A b) \<and>
         (\<forall>y. feasible (user_problem c A b) y \<longrightarrow>
              objective_value (user_problem c A b) y \<le> - res_fun (lp (map uminus c) A b))"
proof -
  have "wf_problem (linprog_problem (map uminus c) A b)"
    using wf_user_problem [OF assms(2-4)] by (simp add: linprog_user_problem)
  then have "linprog_spec (map uminus c) A b (lp (map uminus c) A b)"
    using assms(1) by (simp add: linprog_correct_def)
  then show ?thesis
    using assms(5) by (auto simp: linprog_spec_def Let_def linprog_user_problem
        objective_value_def user_problem_def dot_lin)
qed

lemma feasible_user_problem_3:
  "feasible (user_problem c A b) x \<Longrightarrow> length c = 3 \<Longrightarrow> \<exists>x0 x1 x2. x = [x0, x1, x2]"
  by (auto simp: feasible_def user_problem_def length_Suc_conv numeral_3_eq_3)

lemma read_log_no_value: "Optimal_Value v \<notin> set (read_log m)"
  by (auto simp: read_log_def row_log_def)

lemma script_value_output:
  assumes lp: "linprog_correct lp" and c: "length c = 3" and ab: "length A = length b" and rows: "\<forall>r \<in> set A. length r = 3"
    and run: "solve_3d_lpp lp \<lparr>stdin = encode_problem c A b @ rest, stdout = []\<rparr> = (r, w)"
    and ev: "Optimal_Value v \<in> set (stdout w)"
  shows "res_success (lp (map uminus c) A b) \<and> v = - res_fun (lp (map uminus c) A b) \<and>
    (\<exists>x0 x1 x2 new. res_x (lp (map uminus c) A b) = [x0, x1, x2] \<and> list_all plot_event new \<and>
       stdout w = Text banner # read_log (length A) @ [Optimal_Value v, Coordinates x0 x1 x2] @ new)"
proof -
  let ?res = "lp (map uminus c) A b"
  let ?w0 = "\<lparr>stdin = rest, stdout = Text banner # read_log (length A)\<rparr>"
  have rp: "report_and_plot lp (map uminus c) A b ?w0 = (r, w)"
    using run solve_3d_lpp_encode [OF c ab rows, of lp rest "[]"] by simp
  have succ: "res_success ?res"
  proof (rule ccontr)
    assume "\<not> res_success ?res"
    then show False
      using rp ev report_unsuccessful [of lp "map uminus c" A b ?w0] read_log_no_value
      by auto
  qed
  then obtain x0 x1 x2 where x: "res_x ?res = [x0, x1, x2]"
    using linprog_success [OF lp c ab rows succ] feasible_user_problem_3 c by blast
  obtain new where out: "stdout w = Text banner # read_log (length A) @
      [Optimal_Value (- res_fun ?res), Coordinates x0 x1 x2] @ new"
    and pn: "list_all plot_event new"
    using report_successful [OF succ x rp] by auto
  have "Optimal_Value v \<notin> set new" using pn by (auto simp: list_all_iff)
  then have v: "v = - res_fun ?res"
    using ev out read_log_no_value by auto
  show ?thesis using succ v x out pn by blast
qed

text \<open>
  C5. When the script prints an optimal value, that value is the maximum of
  the objective over the feasible points, and the coordinates it prints are
  a feasible point at which the objective takes that value.
\<close>

theorem script_prints_optimum:
  assumes lp: "linprog_correct lp" and c: "length c = 3" and ab: "length A = length b"
    and rows: "\<forall>r \<in> set A. length r = 3"
    and run: "solve_3d_lpp lp \<lparr>stdin = encode_problem c A b @ rest, stdout = []\<rparr> = (r, w)"
    and ev: "Optimal_Value v \<in> set (stdout w)"
  shows "\<exists>x. feasible (user_problem c A b) x \<and> v = objective_value (user_problem c A b) x \<and>
           (\<forall>y. feasible (user_problem c A b) y \<longrightarrow> objective_value (user_problem c A b) y \<le> v) \<and>
           Coordinates (x ! 0) (x ! 1) (x ! 2) \<in> set (stdout w)"
proof -
  let ?res = "lp (map uminus c) A b"
  obtain x0 x1 x2 new where succ: "res_success ?res" and v: "v = - res_fun ?res"
    and x: "res_x ?res = [x0, x1, x2]"
    and out: "stdout w = Text banner # read_log (length A) @ [Optimal_Value v, Coordinates x0 x1 x2] @ new"
    using script_value_output [OF lp c ab rows run ev] by blast
  note opt = linprog_success [OF lp c ab rows succ]
  show ?thesis
  proof (intro exI [of _ "res_x ?res"] conjI)
    have "\<forall>y. feasible (user_problem c A b) y \<longrightarrow>
            objective_value (user_problem c A b) y \<le> - res_fun ?res"
      using opt by blast
    then show "\<forall>y. feasible (user_problem c A b) y \<longrightarrow> objective_value (user_problem c A b) y \<le> v"
      using v by simp
  qed (use opt x v out in simp_all)
qed


text \<open>
  C7. On a typed problem with at least one constraint, the script runs to
  its end without an exception, whatever \<open>linprog\<close> reports: the rows it
  reads have three entries, \<open>res.x\<close> has three coordinates on success,
  \<open>max(rhs)\<close> has an argument, and the loop indexes \<open>rhs\<close> within range.
\<close>

theorem script_completes:
  assumes lp: "linprog_correct lp" and c: "length c = 3" and ab: "length A = length b"
    and rows: "\<forall>r \<in> set A. length r = 3" and ne: "A \<noteq> []"
  shows "fst (solve_3d_lpp lp \<lparr>stdin = encode_problem c A b @ rest, stdout = out\<rparr>) = Inr ()"
proof (cases "res_success (lp (map uminus c) A b)")
  case False
  then show ?thesis using solve_3d_lpp_encode [OF c ab rows] report_unsuccessful by simp
next
  case True
  obtain x0 x1 x2 where x: "res_x (lp (map uminus c) A b) = [x0, x1, x2]"
    using linprog_success [OF lp c ab rows True] feasible_user_problem_3 c by blast
  let ?w = "\<lparr>stdin = rest, stdout = out @ Text banner # read_log (length A)\<rparr>"
  have "report_and_plot lp (map uminus c) A b ?w =
          plot_solution [x0, x1, x2] A b (res_fun (lp (map uminus c) A b))
            (?w\<lparr>stdout := stdout ?w @ [Optimal_Value (- res_fun (lp (map uminus c) A b)),
                                     Coordinates x0 x1 x2]\<rparr>)"
    using True x by (simp add: report_and_plot_def Let_def py_bind_apply py_print_apply py_index_def)
  moreover have "b \<noteq> []" using ab ne by auto
  ultimately show ?thesis
    using solve_3d_lpp_encode [OF c ab rows, of lp rest out] plot_solution_ok ab rows by simp
qed



subsection \<open>The console frame of the script\<close>

lemma frame_report_and_plot [frame_rules]: "console_frame (report_and_plot lp obj L R)"
  unfolding report_and_plot_def Let_def by (intro frame_rules)

lemma frame_solve_3d_lpp [frame_rules]: "console_frame (solve_3d_lpp lp)"
  unfolding solve_3d_lpp_def by (intro frame_rules)


subsection \<open>The script on concrete input\<close>

theorem script_prints_optimum_witness:
  "\<exists>x. feasible (user_problem [1, 2, 0] [[1, 1, 0]] [4]) x \<and>
       8 = objective_value (user_problem [1, 2, 0] [[1, 1, 0]] [4]) x \<and>
       (\<forall>y. feasible (user_problem [1, 2, 0] [[1, 1, 0]] [4]) y \<longrightarrow>
            objective_value (user_problem [1, 2, 0] [[1, 1, 0]] [4]) y \<le> 8) \<and>
       Coordinates (x ! 0) (x ! 1) (x ! 2) \<in> set
         [Text ''--- 3D LPP Solver (x, y, z) ---'',
          Text ''Z coefficient for x: '', Text ''Z coefficient for y: '',
          Text ''Z coefficient for z: '', Text ''Number of constraints (ax + by + cz <= d): '',
          Constraint_Header 1, Text ''  a: '', Text ''  b: '', Text ''  c: '', Text ''  d: '',
          Optimal_Value 8, Coordinates 0 4 0, Figure, Axes_3D, Scatter 0 4 0,
          Axis_Label ''x'' ''X axis'', Axis_Label ''y'' ''Y axis'', Axis_Label ''z'' ''Z axis'', Title 8, Show]"
proof -
  have run: "solve_3d_lpp (simplex_linprog \<lparr>eps = 0, maxiter = 50\<rparr>)
      \<lparr>stdin = encode_problem [1, 2, 0] [[1, 1, 0]] [4] @ [], stdout = []\<rparr> =
    (Inr (), \<lparr>stdin = [], stdout =
         [Text ''--- 3D LPP Solver (x, y, z) ---'',
          Text ''Z coefficient for x: '', Text ''Z coefficient for y: '',
          Text ''Z coefficient for z: '', Text ''Number of constraints (ax + by + cz <= d): '',
          Constraint_Header 1, Text ''  a: '', Text ''  b: '', Text ''  c: '', Text ''  d: '',
          Optimal_Value 8, Coordinates 0 4 0, Figure, Axes_3D, Scatter 0 4 0,
          Axis_Label ''x'' ''X axis'', Axis_Label ''y'' ''Y axis'', Axis_Label ''z'' ''Z axis'', Title 8, Show]\<rparr>)"
    by code_simp
  have lp: "linprog_correct (simplex_linprog \<lparr>eps = 0, maxiter = 50\<rparr>)"
    by (rule simplex_linprog_correct) simp
  show ?thesis
    using script_prints_optimum [OF lp _ _ _ run] by simp
qed



theorem script_completes_witness:
  "fst (solve_3d_lpp (simplex_linprog \<lparr>eps = 0, maxiter = 50\<rparr>)
      \<lparr>stdin = encode_problem [1, 0, 0] [[0, 1, 0]] [4], stdout = []\<rparr>) = Inr ()"
proof -
  have lp: "linprog_correct (simplex_linprog \<lparr>eps = 0, maxiter = 50\<rparr>)"
    by (rule simplex_linprog_correct) simp
  from script_completes [OF lp, of "[1, 0, 0]" "[[0, 1, 0]]" "[4]" "[]" "[]"] show ?thesis by simp
qed



end
