(* ===== verification/Format.thy ===== *)
theory Format
  imports Console
begin

text \<open>
  The text the script prints (src/Lpp.py lines 7, 20, 28, 31, 32 and the
  figure's labels and title, lines 57--60). The numbers are rendered by the
  format specification \<open>:.2f\<close>: the value is rounded to two decimals, half
  to even (Python rounds the exact value of the float; the model's values
  are exact reals), written as the decimal digits of the integer part, a
  point and two digits, with a minus sign for every negative value, also
  one that rounds to zero. \<open>read_decimal\<close> reads such a literal back, as
  \<open>float()\<close> does. \<open>event_text\<close> is the text an output event writes.

  Lemmas: the rendering has exactly two decimals and no leading zeros; reading
  it back gives the value rounded to two decimals, within 1/200 of it; a
  negative value above \<open>-0.005\<close> prints as "-0.00".
\<close>

fun digits_nat :: "nat \<Rightarrow> string" where
  "digits_nat n =
     (if n < 10 then [char_of (48 + n)] else digits_nat (n div 10) @ [char_of (48 + n mod 10)])"

definition round_half_even :: "real \<Rightarrow> int" where
  "round_half_even x =
     (let n = \<lfloor>x\<rfloor>; f = x - of_int n
      in if f < 1 / 2 then n else if 1 / 2 < f then n + 1 else if even n then n else n + 1)"

definition fmt2f :: "real \<Rightarrow> string" where
  "fmt2f x =
     (let m = nat (round_half_even (\<bar>x\<bar> * 100))
      in (if x < 0 then ''-'' else '''') @ digits_nat (m div 100) @ ''.'' @
         [char_of (48 + m mod 100 div 10), char_of (48 + m mod 10)])"

definition digit_val :: "char \<Rightarrow> nat option" where
  "digit_val c = (let k = (of_char c :: nat) in if 48 \<le> k \<and> k \<le> 57 then Some (k - 48) else None)"

primrec digits_acc :: "nat \<Rightarrow> string \<Rightarrow> nat option" where
  "digits_acc a [] = Some a"
| "digits_acc a (c # cs) = (case digit_val c of None \<Rightarrow> None | Some d \<Rightarrow> digits_acc (10 * a + d) cs)"

definition nat_of_digits :: "string \<Rightarrow> nat option" where
  "nat_of_digits s = (if s = [] then None else digits_acc 0 s)"

definition read_unsigned :: "string \<Rightarrow> real option" where
  "read_unsigned s =
     (case dropWhile (\<lambda>c. c \<noteq> CHR ''.'') s of
        CHR ''.'' # f \<Rightarrow>
          (case (nat_of_digits (takeWhile (\<lambda>c. c \<noteq> CHR ''.'') s), nat_of_digits f) of
             (Some a, Some b) \<Rightarrow> Some (of_nat a + of_nat b / 10 ^ length f)
           | _ \<Rightarrow> None)
      | _ \<Rightarrow> None)"

definition read_decimal :: "string \<Rightarrow> real option" where
  "read_decimal s =
     (if s \<noteq> [] \<and> hd s = CHR ''-'' then map_option uminus (read_unsigned (tl s))
      else read_unsigned s)"

definition newline :: string where
  "newline = [CHR 0x0A]"

fun event_text :: "out_event \<Rightarrow> string option" where
  "event_text (Text s) = Some s"
| "event_text (Constraint_Header k) = Some (newline @ ''Constraint '' @ digits_nat k @ '':'')"
| "event_text (Optimal_Value v) = Some (newline @ ''Optimal Value (Max Z): '' @ fmt2f v)"
| "event_text (Coordinates x y z) =
     Some (''Coordinates: x='' @ fmt2f x @ '', y='' @ fmt2f y @ '', z='' @ fmt2f z)"
| "event_text (Axis_Label a t) = Some t"
| "event_text (Title v) = Some (''3D LPP: Optimal Z = '' @ fmt2f v)"
| "event_text _ = None"

subsection \<open>Digits\<close>

lemma digit_val_char [simp]: "d < 10 \<Longrightarrow> digit_val (char_of (48 + d)) = Some d"
  by (simp add: digit_val_def)

lemma digit_chars [simp]:
  "char_of (48::nat) = CHR ''0''" "char_of (49::nat) = CHR ''1''" "char_of (50::nat) = CHR ''2''"
  "char_of (51::nat) = CHR ''3''" "char_of (52::nat) = CHR ''4''" "char_of (53::nat) = CHR ''5''"
  "char_of (54::nat) = CHR ''6''" "char_of (55::nat) = CHR ''7''" "char_of (56::nat) = CHR ''8''"
  "char_of (57::nat) = CHR ''9''"
  by (simp_all add: char_of_def bit_simps)

declare digits_nat.simps [simp del]

lemma digits_nat_digits: "c \<in> set (digits_nat n) \<Longrightarrow> \<exists>d < (10::nat). c = char_of (48 + d)"
proof (induction n rule: digits_nat.induct)
  case (1 n)
  show ?case
  proof (cases "n < 10")
    case True
    then show ?thesis using "1.prems" by (subst (asm) digits_nat.simps) auto
  next
    case False
    then have "c \<in> set (digits_nat (n div 10)) \<or> c = char_of (48 + n mod 10)"
      using "1.prems" by (subst (asm) digits_nat.simps) auto
    then show ?thesis
    proof
      assume "c = char_of (48 + n mod 10)"
      moreover have "n mod 10 < (10::nat)" by simp
      ultimately show ?thesis by blast
    qed (use "1.IH" False in blast)
  qed
qed

lemma digits_nat_not_nil [simp]: "digits_nat n \<noteq> []"
  by (subst digits_nat.simps) simp

lemma char_of_digit_neq:
  "(d::nat) < 10 \<Longrightarrow> char_of (48 + d) \<noteq> CHR ''.'' \<and> char_of (48 + d) \<noteq> CHR ''-''"
  by (auto dest!: arg_cong [where f = "of_char :: char \<Rightarrow> nat"])

lemma digits_acc_append:
  "digits_acc a (xs @ ys) = (case digits_acc a xs of None \<Rightarrow> None | Some b \<Rightarrow> digits_acc b ys)"
  by (induction xs arbitrary: a) (auto split: option.splits)

lemma digits_acc_digits_nat:
  "digits_acc a (digits_nat n) = Some (a * 10 ^ length (digits_nat n) + n)"
proof (induction n arbitrary: a rule: digits_nat.induct)
  case (1 n)
  show ?case
  proof (cases "n < 10")
    case True
    then have "digits_nat n = [char_of (48 + n)]" by (subst digits_nat.simps) simp
    then show ?thesis using True by simp
  next
    case False
    then have "digits_nat n = digits_nat (n div 10) @ [char_of (48 + n mod 10)]"
      by (subst digits_nat.simps) simp
    then show ?thesis using "1" False by (simp add: digits_acc_append algebra_simps)
  qed
qed

lemma nat_of_digits_nat [simp]: "nat_of_digits (digits_nat n) = Some n"
  by (simp add: nat_of_digits_def digits_acc_digits_nat)

lemma nat_of_two_digits:
  "nat_of_digits [char_of (48 + m mod 100 div 10), char_of (48 + m mod 10)] = Some (m mod 100)"
proof -
  have "10 * (m mod 100 div 10) + m mod 10 = m mod 100"
    using div_mult_mod_eq [of "m mod 100" 10] by (simp add: mod_mod_cancel)
  then show ?thesis by (simp add: nat_of_digits_def)
qed

lemma digits_nat_no_sep:
  "c \<in> set (digits_nat n) \<Longrightarrow> c \<noteq> CHR ''.'' \<and> c \<noteq> CHR ''-''"
  by (metis digits_nat_digits char_of_digit_neq)

lemma read_unsigned_digits:
  "read_unsigned (digits_nat q @ ''.'' @ [char_of (48 + m mod 100 div 10), char_of (48 + m mod 10)]) =
     Some (of_nat q + of_nat (m mod 100) / 100)"
proof -
  have np: "\<And>c. c \<in> set (digits_nat q) \<Longrightarrow> c \<noteq> CHR ''.''" using digits_nat_no_sep by blast
  show ?thesis
    by (simp add: read_unsigned_def takeWhile_append2 [OF np] dropWhile_append2 [OF np]
        nat_of_two_digits)
qed

lemma read_decimal_minus [simp]: "read_decimal (CHR ''-'' # t) = map_option uminus (read_unsigned t)"
  by (simp add: read_decimal_def)

lemma read_decimal_digits:
  "read_decimal (digits_nat q @ t) = read_unsigned (digits_nat q @ t)"
proof -
  obtain c r where d: "digits_nat q = c # r" by (cases "digits_nat q") auto
  then have "c \<noteq> CHR ''-''" using digits_nat_no_sep [of c q] by simp
  then show ?thesis using d by (simp add: read_decimal_def)
qed

lemma nat_div_mod_100: "of_nat (m div 100) + of_nat (m mod 100) / 100 = (of_nat m :: real) / 100"
proof -
  have "m = m div 100 * 100 + m mod 100" by simp
  then have "(of_nat m :: real) = of_nat (m div 100) * 100 + of_nat (m mod 100)"
    by (metis of_nat_add of_nat_mult of_nat_numeral)
  then show ?thesis by (simp add: field_simps)
qed

subsection \<open>Rounding\<close>

lemma round_half_even_bound: "\<bar>of_int (round_half_even x) - x\<bar> \<le> 1 / 2"
  using of_int_floor_le [of x] real_of_int_floor_add_one_gt [of x]
  by (auto simp: round_half_even_def Let_def)

lemma round_half_even_nonneg: "0 \<le> x \<Longrightarrow> 0 \<le> round_half_even x"
  by (auto simp: round_half_even_def Let_def)

lemma read_fmt2f:
  "read_decimal (fmt2f x) =
     Some ((if x < 0 then - 1 else 1) * of_int (round_half_even (\<bar>x\<bar> * 100)) / 100)"
proof -
  define m where "m = nat (round_half_even (\<bar>x\<bar> * 100))"
  have m: "(of_nat m :: real) = of_int (round_half_even (\<bar>x\<bar> * 100))"
    using round_half_even_nonneg [of "\<bar>x\<bar> * 100"] by (simp add: m_def)
  have u: "read_unsigned (digits_nat (m div 100) @ ''.'' @
      [char_of (48 + m mod 100 div 10), char_of (48 + m mod 10)]) = Some (of_nat m / 100)"
    using read_unsigned_digits nat_div_mod_100 by simp
  show ?thesis
    using u m read_decimal_digits [of "m div 100"] by (simp add: fmt2f_def m_def [symmetric])
qed

lemma fmt2f_value_close:
  "\<bar>(if x < 0 then - 1 else 1) * of_int (round_half_even (\<bar>x\<bar> * 100)) / 100 - x\<bar> \<le> 1 / 200"
  using round_half_even_bound [of "\<bar>x\<bar> * 100"] by (auto simp: abs_if split: if_splits)

lemma digits_nat_zero [simp]: "digits_nat 0 = ''0''"
  by (subst digits_nat.simps) simp

lemma digits_nat_hd: "n \<noteq> 0 \<Longrightarrow> hd (digits_nat n) \<noteq> CHR ''0''"
proof (induction n rule: digits_nat.induct)
  case (1 n)
  show ?case
  proof (cases "n < 10")
    case True
    then have "digits_nat n = [char_of (48 + n)]" by (subst digits_nat.simps) simp
    then show ?thesis using True "1.prems"
      by (auto dest!: arg_cong [where f = "of_char :: char \<Rightarrow> nat"])
  next
    case False
    then have "digits_nat n = digits_nat (n div 10) @ [char_of (48 + n mod 10)]"
      by (subst digits_nat.simps) simp
    then show ?thesis using "1.IH" False by simp
  qed
qed

subsection \<open>The rendering of numbers\<close>

text \<open>
  C30. Round trip of the printed numbers: \<open>float()\<close> applied to the text
  \<open>f"{x:.2f}"\<close> gives back \<open>x\<close> rounded to two decimals, half to even,
  with the sign of \<open>x\<close>; the value read back is within 1/200 of \<open>x\<close>.
\<close>

theorem fmt2f_roundtrip:
  "let v = (if x < 0 then - 1 else 1) * of_int (round_half_even (\<bar>x\<bar> * 100)) / 100
   in read_decimal (fmt2f x) = Some v \<and> \<bar>v - x\<bar> \<le> 1 / 200"
  using read_fmt2f [of x] fmt2f_value_close [of x] by (simp add: Let_def)

text \<open>
  C31. The format contract of spec section 6: a printed number is an
  optional minus sign, the decimal digits of its integer part without
  leading zeros, a point and exactly two decimal digits.
\<close>

theorem fmt2f_two_decimals:
  "\<exists>ds d1 d2. fmt2f x = (if x < 0 then ''-'' else '''') @ ds @ ''.'' @ [d1, d2] \<and> ds \<noteq> [] \<and>
     list_all (\<lambda>c. digit_val c \<noteq> None) (ds @ [d1, d2]) \<and> (hd ds \<noteq> CHR ''0'' \<or> ds = ''0'')"
proof -
  define m where "m = nat (round_half_even (\<bar>x\<bar> * 100))"
  have "list_all (\<lambda>c. digit_val c \<noteq> None) (digits_nat (m div 100))"
    using digits_nat_digits by (fastforce simp: list_all_iff)
  moreover have "hd (digits_nat (m div 100)) \<noteq> CHR ''0'' \<or> digits_nat (m div 100) = ''0''"
    using digits_nat_hd [of "m div 100"] by (cases "m div 100 = 0") auto
  ultimately show ?thesis
    by (intro exI [of _ "digits_nat (m div 100)"]) (simp add: fmt2f_def m_def [symmetric])
qed

theorem fmt2f_two_decimals_witness:
  "fmt2f (- 1234 / 10) = ''-123.40'' \<and>
   (\<exists>ds d1 d2. fmt2f (- 1234 / 10) = ''-'' @ ds @ ''.'' @ [d1, d2] \<and> ds \<noteq> [])"
proof
  show "fmt2f (- 1234 / 10) = ''-123.40''"
    by (simp add: fmt2f_def round_half_even_def digits_nat.simps)
  show "\<exists>ds d1 d2. fmt2f (- 1234 / 10) = ''-'' @ ds @ ''.'' @ [d1, d2] \<and> ds \<noteq> []"
    using fmt2f_two_decimals [of "- 1234 / 10"] by auto
qed

text \<open>
  C32. A negative value that rounds to zero keeps its sign: every value in
  \<open>[-0.005, 0)\<close> is printed as "-0.00" (the tie \<open>-0.005\<close> rounds to the
  even 0).
\<close>

theorem fmt2f_negative_zero:
  assumes "x < 0" and "- 1 / 200 \<le> x"
  shows "fmt2f x = ''-0.00''"
proof -
  have "\<lfloor>\<bar>x\<bar> * 100\<rfloor> = 0" using assms by (simp add: floor_eq_iff)
  then have "round_half_even (\<bar>x\<bar> * 100) = 0"
    using assms by (auto simp: round_half_even_def Let_def)
  then show ?thesis using assms by (simp add: fmt2f_def)
qed

theorem fmt2f_negative_zero_witness:
  "fmt2f (- 1 / 1000) = ''-0.00'' \<and> fmt2f (- 1 / 200) = ''-0.00''"
  using fmt2f_negative_zero [of "- 1 / 1000"] fmt2f_negative_zero [of "- 1 / 200"] by simp

end
