(* ===== verification/Transcript.thy ===== *)
theory Transcript
  imports Script Format
begin

text \<open>
  What a user of the script sees: the text of the output events in order
  (\<open>transcript\<close>), with the numbers rendered by \<open>:.2f\<close>. Composing the
  script's behaviour under the \<open>linprog\<close> contract (theory Script) with the
  round trip of the rendering (theory Format): the value and the point the
  console shows, read back by \<open>float()\<close>, are within 1/200 of the maximum
  and of an optimal point of the typed problem.
\<close>

definition transcript :: "out_event list \<Rightarrow> string list" where
  "transcript evs = List.map_filter event_text evs"

lemma transcript_Nil [simp]: "transcript [] = []"
  by (simp add: transcript_def map_filter_def)

lemma transcript_append [simp]: "transcript (xs @ ys) = transcript xs @ transcript ys"
  by (simp add: transcript_def map_filter_def)

lemma transcript_Cons [simp]:
  "transcript (e # xs) = (case event_text e of None \<Rightarrow> [] | Some s \<Rightarrow> [s]) @ transcript xs"
  by (simp add: transcript_def map_filter_def split: option.splits)

lemma fmt2f_read_close: "\<exists>u. read_decimal (fmt2f x) = Some u \<and> \<bar>u - x\<bar> \<le> 1 / 200"
  using read_fmt2f [of x] fmt2f_value_close [of x] by blast

text \<open>
  C33. A printed optimum is right to the printed precision: when the script
  prints an optimal value, the console shows the lines
  "Optimal Value (Max Z): t" and "Coordinates: x=t0, y=t1, z=t2", and
  reading \<open>t\<close>, \<open>t0\<close>, \<open>t1\<close>, \<open>t2\<close> back gives numbers within 1/200 of the
  maximum of the objective and of the coordinates of a feasible point where
  it is attained.
\<close>

theorem script_printed_text:
  assumes lp: "linprog_correct lp" and c: "length c = 3" and ab: "length A = length b"
    and rows: "\<forall>r \<in> set A. length r = 3"
    and run: "solve_3d_lpp lp \<lparr>stdin = encode_problem c A b @ rest, stdout = []\<rparr> = (r, w)"
    and ev: "Optimal_Value v \<in> set (stdout w)"
  shows "\<exists>t t0 t1 t2 u u0 u1 u2 x.
           newline @ ''Optimal Value (Max Z): '' @ t \<in> set (transcript (stdout w)) \<and>
           ''Coordinates: x='' @ t0 @ '', y='' @ t1 @ '', z='' @ t2 \<in> set (transcript (stdout w)) \<and>
           read_decimal t = Some u \<and> read_decimal t0 = Some u0 \<and>
           read_decimal t1 = Some u1 \<and> read_decimal t2 = Some u2 \<and>
           feasible (user_problem c A b) x \<and>
           (\<forall>y. feasible (user_problem c A b) y \<longrightarrow>
              objective_value (user_problem c A b) y \<le> objective_value (user_problem c A b) x) \<and>
           \<bar>u - objective_value (user_problem c A b) x\<bar> \<le> 1 / 200 \<and>
           \<bar>u0 - x ! 0\<bar> \<le> 1 / 200 \<and> \<bar>u1 - x ! 1\<bar> \<le> 1 / 200 \<and> \<bar>u2 - x ! 2\<bar> \<le> 1 / 200"
proof -
  let ?res = "lp (map uminus c) A b"
  obtain x0 x1 x2 new where succ: "res_success ?res" and v: "v = - res_fun ?res"
    and x: "res_x ?res = [x0, x1, x2]"
    and out: "stdout w = Text banner # read_log (length A) @ [Optimal_Value v, Coordinates x0 x1 x2] @ new"
    using script_value_output [OF lp c ab rows run ev] by blast
  note opt = linprog_success [OF lp c ab rows succ]
  obtain u where u: "read_decimal (fmt2f v) = Some u" "\<bar>u - v\<bar> \<le> 1 / 200"
    using fmt2f_read_close by blast
  obtain u0 where u0: "read_decimal (fmt2f x0) = Some u0" "\<bar>u0 - x0\<bar> \<le> 1 / 200"
    using fmt2f_read_close by blast
  obtain u1 where u1: "read_decimal (fmt2f x1) = Some u1" "\<bar>u1 - x1\<bar> \<le> 1 / 200"
    using fmt2f_read_close by blast
  obtain u2 where u2: "read_decimal (fmt2f x2) = Some u2" "\<bar>u2 - x2\<bar> \<le> 1 / 200"
    using fmt2f_read_close by blast
  show ?thesis
  proof (intro exI conjI)
    show "newline @ ''Optimal Value (Max Z): '' @ fmt2f v \<in> set (transcript (stdout w))"
      "''Coordinates: x='' @ fmt2f x0 @ '', y='' @ fmt2f x1 @ '', z='' @ fmt2f x2
         \<in> set (transcript (stdout w))"
      using out by simp_all
  qed (use u u0 u1 u2 opt x v in auto)
qed

lemma example_run:
  "solve_3d_lpp (simplex_linprog \<lparr>eps = 0, maxiter = 50\<rparr>)
      \<lparr>stdin = encode_problem [1, 2, 0] [[1, 1, 0]] [4], stdout = []\<rparr> =
    (Inr (), \<lparr>stdin = [], stdout =
         [Text ''--- 3D LPP Solver (x, y, z) ---'',
          Text ''Z coefficient for x: '', Text ''Z coefficient for y: '',
          Text ''Z coefficient for z: '', Text ''Number of constraints (ax + by + cz <= d): '',
          Constraint_Header 1, Text ''  a: '', Text ''  b: '', Text ''  c: '', Text ''  d: '',
          Optimal_Value 8, Coordinates 0 4 0, Figure, Axes_3D, Scatter 0 4 0,
          Axis_Label ''x'' ''X axis'', Axis_Label ''y'' ''Y axis'', Axis_Label ''z'' ''Z axis'', Title 8, Show]\<rparr>)"
  by code_simp

lemma example_transcript:
  "transcript (stdout (snd (solve_3d_lpp (simplex_linprog \<lparr>eps = 0, maxiter = 50\<rparr>)
      \<lparr>stdin = encode_problem [1, 2, 0] [[1, 1, 0]] [4], stdout = []\<rparr>))) =
   [''--- 3D LPP Solver (x, y, z) ---'',
    ''Z coefficient for x: '', ''Z coefficient for y: '', ''Z coefficient for z: '',
    ''Number of constraints (ax + by + cz <= d): '',
    newline @ ''Constraint 1:'', ''  a: '', ''  b: '', ''  c: '', ''  d: '',
    newline @ ''Optimal Value (Max Z): 8.00'', ''Coordinates: x=0.00, y=4.00, z=0.00'',
    ''X axis'', ''Y axis'', ''Z axis'', ''3D LPP: Optimal Z = 8.00'']"
  by (simp add: example_run fmt2f_def round_half_even_def digits_nat.simps)

theorem script_printed_text_witness:
  "\<exists>t t0 t1 t2 u u0 u1 u2 x.
     newline @ ''Optimal Value (Max Z): '' @ t \<in> set (transcript (stdout (snd (solve_3d_lpp
        (simplex_linprog \<lparr>eps = 0, maxiter = 50\<rparr>)
        \<lparr>stdin = encode_problem [1, 2, 0] [[1, 1, 0]] [4], stdout = []\<rparr>)))) \<and>
     read_decimal t = Some u \<and> feasible (user_problem [1, 2, 0] [[1, 1, 0]] [4]) x \<and>
     \<bar>u - objective_value (user_problem [1, 2, 0] [[1, 1, 0]] [4]) x\<bar> \<le> 1 / 200"
proof -
  have lp: "linprog_correct (simplex_linprog \<lparr>eps = 0, maxiter = 50\<rparr>)"
    by (rule simplex_linprog_correct) simp
  have run: "solve_3d_lpp (simplex_linprog \<lparr>eps = 0, maxiter = 50\<rparr>)
      \<lparr>stdin = encode_problem [1, 2, 0] [[1, 1, 0]] [4] @ [], stdout = []\<rparr> =
      solve_3d_lpp (simplex_linprog \<lparr>eps = 0, maxiter = 50\<rparr>)
      \<lparr>stdin = encode_problem [1, 2, 0] [[1, 1, 0]] [4], stdout = []\<rparr>"
    by simp
  have ev: "Optimal_Value 8 \<in> set (stdout (snd (solve_3d_lpp (simplex_linprog \<lparr>eps = 0, maxiter = 50\<rparr>)
      \<lparr>stdin = encode_problem [1, 2, 0] [[1, 1, 0]] [4], stdout = []\<rparr>)))"
    by (simp add: example_run)
  show ?thesis
    using script_printed_text [OF lp _ _ _ trans [OF run prod.collapse [symmetric]] ev] by simp blast
qed


end
