(* ===== verification/Spec2Isabelle.thy ===== *)
theory Spec2Isabelle
  imports Cycling Phase_Termination Transcript
begin

text \<open>
  \<^bold>\<open>A verification development for src/Lpp.py\<close>, a script that reads a
  three-variable linear program from the console, maximises it with
  \<open>scipy.optimize.linprog\<close> and plots the constraint planes and the optimum.

  \<^bold>\<open>The program and its parts.\<close> The single function \<open>solve_3d_lpp\<close>
  (src/Lpp.py lines 6--61) reads the objective and the constraints
  (lines 9--22), calls \<open>linprog\<close> on the negated objective (line 25), prints
  a failure message or the optimal value and point (lines 27--32) and plots
  (lines 34--61). The spec (spec.md) describes the same system as a
  ProblemModel, a SimplexSolver (a two-phase primal simplex that replaces the
  library call), a SolutionReport and a GeometryProjector. The development
  models both: the script as it is written, over any \<open>linprog\<close> function,
  and the spec's solver, which is shown to be such a function.

  \<^bold>\<open>Theories, leaves first.\<close>
  \<^item> \<open>LPP_Prelude\<close>: vectors as \<open>real list\<close> (Python floats as exact reals),
    \<open>dot\<close>, the row operations of a pivot, \<open>nonneg\<close>, and the shared lemmas
    on them (collection \<open>dot_lin\<close> for the linearity of \<open>dot\<close>).
  \<^item> \<open>LP_Problem\<close>: the ProblemModel (\<open>lp_problem\<close>: objective, rows,
    right-hand sides), \<open>feasible\<close>, \<open>objective_value\<close>, the SolutionReport
    (\<open>report\<close>) and its contract \<open>report_correct\<close>.
  \<^item> \<open>Tableau\<close>: the working tableau as a record, \<open>pivot\<close>, the basic
    solution, pricing out; lemmas: a pivot keeps the shape, the invariant
    (every basic column a unit column), the right-hand sides non-negative
    under the ratio test, and the set of solutions of the rows
    (\<open>pivot_sat_iff\<close>); the objective row stays a valid equation
    (\<open>obj_inv_pivot\<close>); a column with no positive entry and negative reduced
    cost gives a feasible ray along which the objective grows without bound
    (\<open>tableau_unbounded\<close>); the basic solution is the only solution of the
    rows that vanishes off the basis (\<open>basic_sol_unique\<close>), so the value
    \<open>zval\<close> of a tableau depends only on its set of basic columns
    (\<open>zval_same_basis\<close>).
  \<^item> \<open>Pivoting\<close>: the entering rule (most negative reduced cost, lowest
    index), the leaving rule (minimum ratio, lowest row), and one phase
    \<open>run_phase\<close> with its exits \<open>Phase_Optimal\<close>, \<open>Phase_Unbounded\<close>,
    \<open>Phase_Limit\<close>; the loop as a transition system (\<open>simplex_step\<close>, one
    pivot, and its reflexive transitive closure) and \<open>phase_iter k\<close>, the
    tableau after \<open>k\<close> iterations; lemmas: a phase run is a path of the
    transition system, every step preserves the invariant and the solution
    set and never decreases the objective value, and a phase that returns to
    its start runs out of every budget (\<open>run_phase_cycle\<close>). The two
    selection rules are characterised exactly as spec 4.2 words them, ties
    to the lowest index included (\<open>entering_rule\<close>, \<open>leaving_rule\<close>).
  \<^item> \<open>Standard_Form\<close>: standardisation (spec 4.2 step 1): a slack column per
    row, rows with negative right-hand side negated and given an artificial
    column, the phase-1 and phase-2 objectives; lemmas: the initial tableau
    satisfies the invariant and a feasible point of the problem extends to a
    solution of the tableau (\<open>std_feasible\<close>) with the artificial columns 0.
  \<^item> \<open>Simplex\<close>: \<open>solve\<close>, the two phases composed as spec 4.2 describes,
    and the soundness of its reports (claims C1--C4); the spec's instances
    with its tolerance (C9), a bounded problem the tolerance makes it
    report unbounded (C10) and a problem it makes it report optimal at an
    infeasible point (C27); with non-negative right-hand sides phase 1
    stops at once and \<open>Infeasible\<close> is never reported, for every tolerance
    (C29). The phase lemmas are stated over paths of the
    transition system and specialised to \<open>run_phase\<close>.
  \<^item> \<open>Solver_Steps\<close>: the states phase 2 passes through, as an inductive
    predicate \<open>visits\<close>; by rule induction every visited vertex is feasible
    and the objective never decreases along a pivot (C18, C19), and
    \<open>solve\<close> refines the transition system: an optimal report is read from
    a terminal visited state (C20).
  \<^item> \<open>Cycling\<close>: a three-variable problem with the optimum 4/5 on which
    the entering rule of the spec cycles through six degenerate bases, so
    that \<open>solve\<close> returns \<open>Iteration_Limit\<close> for every budget (C21) and no
    visited vertex gets above objective 0 (C22).
  \<^item> \<open>Phase_Termination\<close>: the positive side of termination. A pivot on a
    row with positive right-hand side strictly raises \<open>zval\<close>; as \<open>zval\<close>
    is a function of the basis set, a phase without degenerate pivots
    (\<open>nondegenerate\<close>) never repeats a basis set and, by pigeonhole over
    the subsets of the columns, stops within \<open>2 ^ ncols\<close> iterations
    (\<open>run_phase_no_limit\<close>); so \<open>solve\<close> with such a budget never reports
    \<open>Iteration_Limit\<close> on such a problem and decides it correctly (C28).
  \<^item> \<open>Console\<close>: the Python effects the script uses: a state monad
    \<open>'a py\<close> over a console of input lines and output events, with the
    exceptions ValueError, EOFError and IndexError as values; \<open>input\<close>,
    \<open>print\<close>, \<open>float\<close>, \<open>int\<close>; \<open>console_frame\<close>, the frame of a statement
    (output only appended, input only consumed), with one rule per
    construct in the collection \<open>frame_rules\<close>.
  \<^item> \<open>Input\<close>: lines 9--22, \<open>read_problem\<close>, with the round trip on the
    encoding of a problem as input lines and the errors of bad or truncated
    input, and the empty loop of a count \<open>\<le> 0\<close> (C11--C14); whatever is
    typed, a problem that is read has the shape \<open>linprog\<close> needs (C23).
  \<^item> \<open>Plot\<close>: lines 34--61: the figure and its 3D axes, \<open>max(rhs)\<close>,
    \<open>np.linspace\<close>, \<open>np.meshgrid\<close>, the masked plane surfaces and the
    drawing calls (scatter, axis labels, title, show) as output events;
    the exact surfaces the loop draws, their cells, and the range of the
    grid (C15--C17); \<open>max(rhs)\<close> as a fold equals \<open>Max\<close> of the set (C25).
  \<^item> \<open>Linprog\<close>: scipy's result record \<open>opt_result\<close>, the contract
    \<open>linprog_correct\<close> of \<open>linprog\<close> on the problems the script builds, and
    \<open>simplex_linprog\<close>, the solver of theory Simplex behind that interface;
    \<open>simplex_linprog_correct\<close> shows that it meets the contract (exact
    comparisons), a refinement of the contract by the spec's solver.
  \<^item> \<open>Script\<close>: \<open>solve_3d_lpp\<close> itself, composed of \<open>read_problem\<close> and
    \<open>report_and_plot\<close>, and the end-to-end claims C5--C8, stated for every
    \<open>linprog\<close> meeting the contract and instantiated with
    \<open>simplex_linprog\<close> in their witnesses; \<open>main\<close>, the \<open>__main__\<close> guard
    (lines 63--64), and the console frame of a whole run (C24); the order
    of the effects when \<open>res.x\<close> is too short: the value is printed, then
    IndexError ends the run (C26).
  \<^item> \<open>Format\<close>: the text of the prints (lines 7, 20, 28, 31, 32) and of
    the labels and title (lines 57--60) as \<open>event_text\<close>, with the number
    rendering \<open>:.2f\<close> as \<open>fmt2f\<close>: rounding half to even
    (\<open>round_half_even\<close>), the digits of the integer part (\<open>digits_nat\<close>), a
    point and two digits, a minus sign for every negative value;
    \<open>read_decimal\<close> reads a decimal literal back as \<open>float()\<close> does. The
    round trip (C30), the two-decimal format of spec 6 (C31) and the
    "-0.00" of negative values that round to zero (C32).
  \<^item> \<open>Transcript\<close>: the console text of a run (\<open>transcript\<close>); composed
    with the script's claims, the optimal value and point the console shows,
    read back, are within 1/200 of the maximum and of an optimal point of
    the typed problem (C33); the text the console shows on the known
    instance of spec 8, "30.00" at "(10.00, 0.00, 0.00)" (C34).

  \<^bold>\<open>Correspondence.\<close> Each statement of \<open>solve_3d_lpp\<close> is a \<open>py_bind\<close>
  step in the order of the source; \<open>input(p)\<close> writes the prompt \<open>p\<close> and
  consumes a line; \<open>print\<close> and each drawing call append an event to the
  output; a raised exception ends the script with the output written so
  far. The solver's tableau follows spec 3 (rows, right-hand sides,
  objective row, basis); the columns are the three variables, one slack per
  constraint and one artificial per negative right-hand side.

  \<^bold>\<open>Bounds and fuel.\<close> Each phase runs at most \<open>maxiter\<close> pivots and
  returns \<open>Phase_Limit\<close> (reported \<open>Iteration_Limit\<close>, linprog's status 1)
  when the budget is spent. The budget is needed: the entering rule is
  Dantzig's, which cycles on degenerate problems (C21 proves it on a
  problem of the script's kind), so no bound on the number of pivots holds
  in general (C21). Degenerate pivots (a zero right-hand side in the
  leaving row) are the only cause: without them a budget of
  \<open>2 ^ std_width P\<close> per phase is enough (C28), since the number of
  standard-form columns bounds the number of distinct bases.
  The soundness theorems hold for every budget; the concrete instances are
  solved within a budget of 50, above \<open>2 ^ 4\<close> for the spec's instance. The
  theorems about the solver assume the tolerance \<open>eps = 0\<close> (exact
  comparisons); with the spec's 1e-9 the ratio test can report a bounded
  problem as unbounded (C10) and an infeasible point as optimal (C27).

  \<^bold>\<open>Not modelled.\<close> The internals of scipy's HiGHS solver (replaced by the
  contract \<open>linprog_correct\<close>); floating-point rounding (reals are exact);
  the text of an input line (\<open>Float_Line r\<close> is a line \<open>float()\<close> reads as
  \<open>r\<close> and \<open>int()\<close> rejects; \<open>read_decimal\<close> models \<open>float()\<close> only on
  the literals \<open>:.2f\<close> prints, not on exponents, underscores, "inf" or
  "nan"); the rounding of \<open>:.2f\<close> is applied to the exact value, where
  Python rounds the binary float (so "-0.00" for \<open>-res.fun\<close> when
  \<open>res.fun\<close> is the float \<open>0.0\<close> is not captured: the reals have no
  negative zero); the line breaks \<open>print\<close> adds; non-finite inputs; the rendering of the
  matplotlib figure: colours, transparency and marker size; the imports
  (lines 1--4), which only bind library names. The remaining components
  marked partly modelled are partly modelled for these reasons only: the
  rest of the program is modelled.
\<close>

end
